(* ===== verification/Prelude.thy ===== *)
theory Prelude
  imports Complex_Main "HOL-Library.Word"
begin

text \<open>
  Shared vocabulary of the development: the names of the model's types, the
  JavaScript built-ins that several components of the library call
  (\<open>Array.prototype.join\<close>, \<open>String.prototype.trim\<close>, \<open>slice\<close>), and the
  generic list lemmas the component proofs share. The collection \<open>js_defs\<close>
  gathers the definitions that a concrete call unfolds when it is evaluated by
  \<open>simp\<close>.
\<close>

named_theorems js_defs "definitions unfolded to evaluate a concrete call"

type_synonym byte = "8 word"

text \<open>
  A JavaScript string is modelled as a \<open>char list\<close>; a character of the model is
  the code point \<open>U+0000\<close>--\<open>U+00FF\<close> of the same number (ASCII and the Latin-1
  supplement), so that a string index, \<open>length\<close> and \<open>str[0]\<close> count code points
  as the UTF-16 code units of that range do.
\<close>

type_synonym js_string = "char list"

text \<open>The built-in exceptions that the library's code throws or lets escape.\<close>

datatype js_error = TypeError | RangeError

subsection \<open>String and array built-ins\<close>

text \<open>The decimal string of a natural number (\<open>String(n)\<close>, array indices as keys).\<close>

fun js_nat_string :: "nat \<Rightarrow> js_string" where
  "js_nat_string n =
     (if n < 10 then [char_of (48 + n)] else js_nat_string (n div 10) @ [char_of (48 + n mod 10)])"

declare js_nat_string.simps [simp del]

text \<open>\<open>Array.prototype.join(d)\<close> on an array of strings.\<close>

fun js_join :: "js_string \<Rightarrow> js_string list \<Rightarrow> js_string" where
  "js_join d [] = []"
| "js_join d [x] = x"
| "js_join d (x # y # zs) = x @ d @ js_join d (y # zs)"

text \<open>
  The characters that \<open>String.prototype.trim\<close> removes, restricted to the
  model's characters: WhiteSpace (TAB, VT, FF, SP, NBSP) and LineTerminator
  (LF, CR).
\<close>

definition js_whitespace :: "char \<Rightarrow> bool" where
  "js_whitespace c \<longleftrightarrow> of_char c \<in> {9, 10, 11, 12, 13, 32, 160 :: nat}"

definition js_trim :: "js_string \<Rightarrow> js_string" where
  "js_trim s = rev (dropWhile js_whitespace (rev (dropWhile js_whitespace s)))"

declare js_whitespace_def [js_defs] js_trim_def [js_defs]

text \<open>
  \<open>String.prototype.split(d)\<close> with a one-character separator: the pieces
  between the occurrences of \<open>d\<close>, one piece (the empty string) for the empty
  string.
\<close>

fun js_split_char :: "char \<Rightarrow> js_string \<Rightarrow> js_string list" where
  "js_split_char d [] = [[]]"
| "js_split_char d (c # cs) =
     (if c = d then [] # js_split_char d cs
      else (case js_split_char d cs of w # ws \<Rightarrow> (c # w) # ws | [] \<Rightarrow> [[c]]))"

subsection \<open>Generic lemmas\<close>

lemma take_append_prefix [simp]:
  "n \<le> length xs \<Longrightarrow> take n (xs @ ys) = take n xs"
  by simp

lemma js_join_eq:
  "js_join d xs = concat (case xs of [] \<Rightarrow> [] | y # ys \<Rightarrow> y # map (\<lambda>z. d @ z) ys)"
  by (induction d xs rule: js_join.induct) auto

lemma set_js_join:
  "set (js_join d xs) \<subseteq> \<Union> (set ` set xs) \<union> set d"
  by (induction d xs rule: js_join.induct) auto

lemma js_trim_Nil [simp]: "js_trim [] = []"
  by (simp add: js_trim_def)

lemma dropWhile_all_iff:
  "(\<forall>c \<in> set (dropWhile P s). P c) \<longleftrightarrow> (\<forall>c \<in> set s. P c)"
  by (induction s) auto

lemma js_trim_eq_Nil_iff:
  "js_trim s = [] \<longleftrightarrow> (\<forall>c \<in> set s. js_whitespace c)"
  by (simp add: js_trim_def dropWhile_all_iff)

lemma js_split_char_not_Nil [simp]: "js_split_char d s \<noteq> []"
  by (induction s) (auto split: list.split)

lemma js_split_char_append:
  "d \<notin> set w \<Longrightarrow> js_split_char d (w @ s) =
     (case js_split_char d s of v # vs \<Rightarrow> (w @ v) # vs | [] \<Rightarrow> [w])"
  by (induction w) (auto split: list.split)

text \<open>Splitting undoes joining when no piece contains the separator.\<close>

lemma js_split_char_join:
  "\<forall>w \<in> set ws. d \<notin> set w \<Longrightarrow> ws \<noteq> [] \<Longrightarrow> js_split_char d (js_join [d] ws) = ws"
proof (induction "[d]" ws rule: js_join.induct)
  case (2 x)
  then show ?case using js_split_char_append [of d x "[]"] by simp
next
  case (3 x y zs)
  then show ?case using js_split_char_append [of d x "d # js_join [d] (y # zs)"] by simp
qed simp

end
