(* ===== verification/Nanoid.thy ===== *)
theory Nanoid
  imports Prelude
begin

text \<open>
  The secure identifier generator of \<open>src/src/nanoid/index.ts\<close>. The
  cryptographic source \<open>randomBytes\<close> of \<open>node:crypto\<close> is modelled as an
  explicit entropy state: the stream of bytes the source will deliver and the
  number of bytes drawn so far; every call of \<open>randomBytes(n)\<close> returns the next
  \<open>n\<close> bytes and advances the count. The generator's outer \<open>while\<close> loop need not
  end (a source that only yields rejected bytes keeps it running), so it is a
  \<^theory_text>\<open>partial_function (option)\<close> whose value \<open>None\<close> is "does not return".
\<close>

unbundle bit_operations_syntax

subsection \<open>Data and the entropy source\<close>

definition charset :: js_string where
  "charset = ''abcdefghijklmnopqrstuvwxyz_ABCDEFGHIJKLMNOPQRSTUVWXYZ-0123456789''"

record entropy =
  pool :: "nat \<Rightarrow> byte"
  drawn :: nat

definition randomBytes :: "nat \<Rightarrow> entropy \<Rightarrow> byte list \<times> entropy" where
  "randomBytes n e = (map (pool e) [drawn e..<drawn e + n], e\<lparr>drawn := drawn e + n\<rparr>)"

datatype nanoid_error = AlphabetSizeError

subsection \<open>Mask and batch size\<close>

text \<open>
  \<open>Math.floor(Math.log2(x))\<close> for a positive integer \<open>x\<close>.
\<close>

fun floor_log2 :: "nat \<Rightarrow> nat" where
  "floor_log2 n = (if n < 2 then 0 else Suc (floor_log2 (n div 2)))"

declare floor_log2.simps [simp del]

text \<open>
  The shift count of \<open>2 << Math.floor(Math.log2(size - 1))\<close>: for \<open>size = 1\<close>
  the logarithm is \<open>-Infinity\<close>, which \<open>ToInt32\<close> turns into \<open>0\<close>; the
  operator \<open><<\<close> then uses the count modulo 32 and computes in 32-bit two's
  complement, which \<open>sint\<close> reads back as the Number that \<open>- 1\<close> is applied to.
\<close>

definition shift_count :: "nat \<Rightarrow> nat" where
  "shift_count sz = (if sz \<le> 1 then 0 else floor_log2 (sz - 1))"

definition nanoid_mask :: "nat \<Rightarrow> int" where
  "nanoid_mask sz = sint (push_bit (shift_count sz mod 32) (2 :: 32 word)) - 1"

text \<open>
  \<open>Math.ceil((1.6 * mask * length) / size)\<close>, with the factor \<open>1.6\<close> taken as
  the exact ratio \<open>8 / 5\<close> and the ceiling of a quotient of integers written
  as a negated floor division.
\<close>

definition nanoid_step :: "int \<Rightarrow> nat \<Rightarrow> nat \<Rightarrow> nat" where
  "nanoid_step msk len sz = nat (- ((- (8 * msk * int len)) div (5 * int sz)))"

subsection \<open>The generator\<close>

text \<open>
  The inner \<open>for\<close> loop over one batch of bytes: it stops at the end of the
  batch or as soon as the identifier is long enough; a byte is masked and kept
  when the masked value indexes the alphabet.
\<close>

fun fill :: "js_string \<Rightarrow> int \<Rightarrow> nat \<Rightarrow> byte list \<Rightarrow> js_string \<Rightarrow> js_string" where
  "fill alphabets msk len [] ident = ident"
| "fill alphabets msk len (b # bs) ident =
     (if length ident < len then
        (let index = uint b AND msk
         in fill alphabets msk len bs
              (if index < int (length alphabets) then ident @ [alphabets ! nat index] else ident))
      else ident)"

text \<open>The outer \<open>while (ident.length < length)\<close> loop, drawing one batch per round.\<close>

partial_function (option) nanoid_loop ::
  "js_string \<Rightarrow> int \<Rightarrow> nat \<Rightarrow> nat \<Rightarrow> js_string \<Rightarrow> entropy \<Rightarrow> (js_string \<times> entropy) option"
where
  "nanoid_loop alphabets msk step len ident e =
     (if length ident < len then
        (let r = randomBytes step e
         in nanoid_loop alphabets msk step len (fill alphabets msk len (fst r) ident) (snd r))
      else Some (ident, e))"

definition nanoid ::
  "nat \<Rightarrow> js_string \<Rightarrow> entropy \<Rightarrow> (nanoid_error + js_string \<times> entropy) option"
where
  "nanoid len alphabets e =
     (let sz = length alphabets in
      if sz = 0 \<or> 255 < sz then Some (Inl AlphabetSizeError)
      else
        (let msk = nanoid_mask sz; step = nanoid_step msk len sz
         in map_option Inr (nanoid_loop alphabets msk step len [] e)))"

text \<open>The call with the source's defaults, \<open>nanoid()\<close>.\<close>

definition nanoid_default :: "entropy \<Rightarrow> (nanoid_error + js_string \<times> entropy) option" where
  "nanoid_default e = nanoid 21 charset e"

subsection \<open>Abstract specification\<close>

text \<open>
  What the generator promises: each byte of the source is turned into at most
  one character (the masked byte, when it indexes the alphabet), and the
  identifier is the first \<open>len\<close> characters so obtained.
\<close>

definition accept :: "js_string \<Rightarrow> int \<Rightarrow> byte \<Rightarrow> js_string" where
  "accept alphabets msk b =
     (let index = uint b AND msk
      in if index < int (length alphabets) then [alphabets ! nat index] else [])"

definition accepted :: "js_string \<Rightarrow> int \<Rightarrow> byte list \<Rightarrow> js_string" where
  "accepted alphabets msk bs = concat (map (accept alphabets msk) bs)"

definition window :: "entropy \<Rightarrow> nat \<Rightarrow> byte list" where
  "window e n = map (pool e) [drawn e..<drawn e + n]"

declare charset_def [js_defs] randomBytes_def [js_defs] shift_count_def [js_defs]
  nanoid_mask_def [js_defs] nanoid_step_def [js_defs] nanoid_def [js_defs]
  accept_def [js_defs] accepted_def [js_defs] window_def [js_defs]

subsection \<open>Mask and batch size: bounds\<close>


lemma floor_log2_bounds:
  "0 < n \<Longrightarrow> 2 ^ floor_log2 n \<le> n \<and> n < 2 ^ Suc (floor_log2 n)"
proof (induction n rule: floor_log2.induct)
  case (1 n)
  show ?case
  proof (cases "n < 2")
    case True
    with "1.prems" show ?thesis by (simp add: floor_log2.simps)
  next
    case False
    then have "0 < n div 2" by simp
    with "1.IH" False have "2 ^ floor_log2 (n div 2) \<le> n div 2 \<and> n div 2 < 2 ^ Suc (floor_log2 (n div 2))"
      by simp
    with False show ?thesis by (simp add: floor_log2.simps [of n]) linarith
  qed
qed

lemma shift_count_le:
  assumes "sz \<le> 255"
  shows "shift_count sz \<le> 7"
proof (cases "sz \<le> 1")
  case False
  then have "2 ^ floor_log2 (sz - 1) \<le> sz - 1" using floor_log2_bounds [of "sz - 1"] by simp
  also have "\<dots> < 2 ^ 8" using assms by simp
  finally have "floor_log2 (sz - 1) < 8"
    using power_less_imp_less_exp [of "2::nat" "floor_log2 (sz - 1)" 8] by simp
  with False show ?thesis by (simp add: shift_count_def)
qed (simp add: shift_count_def)

lemma sint_push_bit_two:
  assumes "k \<le> 7"
  shows "sint (push_bit k (2 :: 32 word)) = 2 ^ Suc k"
proof -
  have "k \<in> {0,1,2,3,4,5,6,7}" using assms by auto
  then show ?thesis by auto
qed

lemma nanoid_mask_eq:
  assumes "sz \<le> 255"
  shows "nanoid_mask sz = 2 ^ Suc (shift_count sz) - 1"
  using shift_count_le [OF assms] sint_push_bit_two [of "shift_count sz"]
  by (simp add: nanoid_mask_def)

lemma nanoid_mask_bounds:
  assumes "0 < sz" "sz \<le> 255"
  shows "int sz - 1 \<le> nanoid_mask sz \<and> nanoid_mask sz < 2 * int sz \<and> 1 \<le> nanoid_mask sz \<and> nanoid_mask sz \<le> 255"
proof (cases "sz = 1")
  case True
  then show ?thesis by (simp add: nanoid_mask_def shift_count_def)
next
  case False
  let ?k = "floor_log2 (sz - 1)"
  from False assms have k: "shift_count sz = ?k" by (simp add: shift_count_def)
  from False assms have b: "2 ^ ?k \<le> sz - 1 \<and> sz - 1 < 2 ^ Suc ?k"
    using floor_log2_bounds [of "sz - 1"] by simp
  have le7: "?k \<le> 7" using shift_count_le [OF assms(2)] k by simp
  have m: "nanoid_mask sz = 2 * 2 ^ ?k - 1" using nanoid_mask_eq [OF assms(2)] k by simp
  have "(2::int) ^ ?k \<le> 128" using power_increasing [of ?k 7 "2::int"] le7 by simp
  moreover have "int sz - 1 < 2 * 2 ^ ?k"
  proof -
    have "sz - 1 < 2 * 2 ^ ?k" using b by simp
    then have "int (sz - 1) < int (2 * 2 ^ ?k)" by (simp only: of_nat_less_iff)
    then show ?thesis using assms(1) by simp
  qed
  moreover have "(2::int) ^ ?k < int sz"
  proof -
    have "2 ^ ?k < sz" using b assms(1) by linarith
    then have "int (2 ^ ?k) < int sz" by (simp only: of_nat_less_iff)
    then show ?thesis by simp
  qed
  moreover have "(1::int) \<le> 2 ^ ?k" by simp
  ultimately show ?thesis unfolding m by (intro conjI) linarith+
qed

lemma uint_and_mask:
  "uint (b :: byte) AND (2 ^ n - 1) = take_bit n (uint b)"
  by (simp add: take_bit_eq_mask mask_eq_exp_minus_1)


subsection \<open>The batch loop against the specification\<close>


lemma take_take_append:
  "take n (take n xs @ ys) = take n (xs @ ys)"
  by (simp add: min_def)

lemma accepted_append [simp]:
  "accepted a m (xs @ ys) = accepted a m xs @ accepted a m ys"
  by (simp add: accepted_def)

lemma accepted_Cons [simp]:
  "accepted a m (x # xs) = accept a m x @ accepted a m xs"
  by (simp add: accepted_def)

lemma accepted_Nil [simp]: "accepted a m [] = []"
  by (simp add: accepted_def)

lemma accepted_upt_split:
  "i \<le> j \<Longrightarrow> j \<le> k \<Longrightarrow>
   accepted a m (map p [i..<k]) = accepted a m (map p [i..<j]) @ accepted a m (map p [j..<k])"
  by (metis accepted_append le_add_diff_inverse map_append upt_add_eq_append)

lemma accept_index:
  "uint b AND m < int (length a) \<Longrightarrow> nat (uint b AND m) < length a"
  by (simp add: nat_less_iff)

lemma set_accepted:
  "set (accepted a m bs) \<subseteq> set a"
  by (induction bs) (auto simp: accept_def Let_def dest!: accept_index)

lemma fill_Cons_accept:
  "length ident < len \<Longrightarrow> fill a m len (b # bs) ident = fill a m len bs (ident @ accept a m b)"
  by (simp add: accept_def Let_def)

lemma length_accept: "length (accept a m b) \<le> 1"
  by (simp add: accept_def Let_def)

lemma fill_take:
  "length ident \<le> len \<Longrightarrow> fill a m len bs ident = take len (ident @ accepted a m bs)"
proof (induction bs arbitrary: ident)
  case Nil
  then show ?case by simp
next
  case (Cons b bs)
  show ?case
  proof (cases "length ident < len")
    case True
    let ?ident' = "ident @ accept a m b"
    have "length ?ident' \<le> len" using True length_accept [of a m b] by simp
    then have "fill a m len bs ?ident' = take len (?ident' @ accepted a m bs)" by (rule Cons.IH)
    with True show ?thesis by (simp del: fill.simps(2) add: fill_Cons_accept)
  next
    case False
    with Cons.prems show ?thesis by simp
  qed
qed

lemma take_prefix_cases:
  assumes "ident = take len xs" "length ident \<ge> len" "len \<le> length ys"
    and "xs = ys @ zs \<or> ys = xs @ zs"
  shows "ident = take len ys"
proof -
  have "len \<le> length xs" using assms(1,2) by simp
  with assms(1,3,4) show ?thesis by auto
qed

lemma nanoid_loop_measure:
  assumes step: "0 < step" and dN: "d0 \<le> N"
  shows "N - drawn e = t \<Longrightarrow>
    ident = take len (accepted a m (map (pool e) [d0..<drawn e])) \<Longrightarrow> d0 \<le> drawn e \<Longrightarrow>
    len \<le> length (accepted a m (map (pool e) [d0..<N])) \<Longrightarrow>
    \<exists>k. nanoid_loop a m step len ident e =
      Some (take len (accepted a m (map (pool e) [d0..<N])), e\<lparr>drawn := drawn e + k * step\<rparr>)"
proof (induction t arbitrary: ident e rule: less_induct)
  case (less t)
  let ?acc = "\<lambda>i j. accepted a m (map (pool e) [i..<j])"
  show ?case
  proof (cases "length ident < len")
    case True
    have lt: "drawn e < N"
    proof (rule ccontr)
      assume "\<not> drawn e < N"
      then have "?acc d0 (drawn e) = ?acc d0 N @ ?acc N (drawn e)"
        using dN accepted_upt_split [of d0 N "drawn e" a m "pool e"] by simp
      with less.prems(2) less.prems(4) True show False by simp
    qed
    let ?e' = "e\<lparr>drawn := drawn e + step\<rparr>"
    let ?ident' = "fill a m len (map (pool e) [drawn e..<drawn e + step]) ident"
    have split: "?acc d0 (drawn e + step) = ?acc d0 (drawn e) @ ?acc (drawn e) (drawn e + step)"
      using less.prems(3) accepted_upt_split [of d0 "drawn e" "drawn e + step" a m "pool e"] by simp
    have ident': "?ident' = take len (?acc d0 (drawn e + step))"
      using True less.prems(2) by (simp add: fill_take take_take_append split)
    have dec: "N - drawn ?e' < t" using lt step less.prems(1) by simp
    obtain k where k: "nanoid_loop a m step len ?ident' ?e' =
        Some (take len (?acc d0 N), ?e'\<lparr>drawn := drawn ?e' + k * step\<rparr>)"
      using less.IH [OF dec refl, of ?ident'] ident' less.prems(3) less.prems(4) by auto
    have "nanoid_loop a m step len ident e = nanoid_loop a m step len ?ident' ?e'"
      using True by (simp add: nanoid_loop.simps [of a m step len ident e] randomBytes_def)
    with k show ?thesis by (intro exI [of _ "Suc k"]) (simp add: algebra_simps)
  next
    case False
    have "?acc d0 (drawn e) = ?acc d0 N @ ?acc N (drawn e) \<or> ?acc d0 N = ?acc d0 (drawn e) @ ?acc (drawn e) N"
    proof (cases "drawn e \<le> N")
      case True
      then show ?thesis using less.prems(3) accepted_upt_split [of d0 "drawn e" N a m "pool e"] by simp
    next
      case False
      then show ?thesis using dN accepted_upt_split [of d0 N "drawn e" a m "pool e"] by simp
    qed
    moreover have "len \<le> length ident" using False by simp
    ultimately have "ident = take len (?acc d0 N)"
      using take_prefix_cases [OF less.prems(2) _ less.prems(4)] by blast
    moreover have "nanoid_loop a m step len ident e = Some (ident, e)"
      using False by (simp add: nanoid_loop.simps [of a m step len ident e])
    ultimately show ?thesis by (intro exI [of _ 0]) simp
  qed
qed

lemma nanoid_step_pos:
  assumes "0 < len" "1 \<le> msk" "0 < sz"
  shows "0 < nanoid_step msk len sz"
proof -
  have "- (8 * msk * int len) < 0" using assms by simp
  then have "(- (8 * msk * int len)) div (5 * int sz) < 0"
    using assms(3) by (simp add: div_neg_pos_less0)
  then show ?thesis by (simp add: nanoid_step_def)
qed

lemma nanoid_valid_step:
  assumes "0 < length a" "length a \<le> 255" "0 < len"
  shows "0 < nanoid_step (nanoid_mask (length a)) len (length a)"
  using assms nanoid_mask_bounds [of "length a"] by (intro nanoid_step_pos) auto

lemma nanoid_result:
  assumes "0 < length a" "length a \<le> 255"
    and "len \<le> length (accepted a (nanoid_mask (length a)) (window e n))"
  shows "\<exists>k. nanoid len a e = Some (Inr (take len (accepted a (nanoid_mask (length a)) (window e n)),
            e\<lparr>drawn := drawn e + k * nanoid_step (nanoid_mask (length a)) len (length a)\<rparr>))"
proof (cases "len = 0")
  case True
  then have "nanoid len a e = Some (Inr ([], e))"
    using assms(1,2) by (simp add: nanoid_def nanoid_loop.simps)
  with True show ?thesis by (intro exI [of _ 0]) simp
next
  case False
  let ?m = "nanoid_mask (length a)" and ?s = "nanoid_step (nanoid_mask (length a)) len (length a)"
  have "0 < ?s" using assms(1,2) False by (intro nanoid_valid_step) auto
  from nanoid_loop_measure [OF this, of "drawn e" "drawn e + n" e _ "[]" len a ?m] assms(3)
  obtain k where "nanoid_loop a ?m ?s len [] e =
      Some (take len (accepted a ?m (window e n)), e\<lparr>drawn := drawn e + k * ?s\<rparr>)"
    by (auto simp: window_def)
  with assms(1,2) show ?thesis by (intro exI [of _ k]) (simp add: nanoid_def Let_def)
qed



lemma accepted_rejecting:
  "\<forall>i. accept a m (p i) = [] \<Longrightarrow> accepted a m (map p xs) = []"
  by (simp add: accepted_def)

lemma nanoid_loop_rejecting:
  assumes ret: "nanoid_loop a m step len ident e = Some r"
  shows "(\<forall>i. accept a m (pool e i) = []) \<longrightarrow> ident = [] \<longrightarrow> 0 < len \<longrightarrow> False"
proof (rule nanoid_loop.raw_induct [where P = "\<lambda>a m step len ident e r.
    (\<forall>i. accept a m (pool e i) = []) \<longrightarrow> ident = [] \<longrightarrow> 0 < len \<longrightarrow> False", OF _ ret])
  fix f a m step len ident e r
  assume IH: "\<And>a m step len ident e r. f a m step len ident e = Some r \<Longrightarrow>
      (\<forall>i. accept a m (pool e i) = []) \<longrightarrow> ident = [] \<longrightarrow> 0 < len \<longrightarrow> False"
    and eq: "(if length ident < len then
        (let r = randomBytes step e in f a m step len (fill a m len (fst r) ident) (snd r))
      else Some (ident, e)) = Some r"
  show "(\<forall>i. accept a m (pool e i) = []) \<longrightarrow> ident = [] \<longrightarrow> 0 < len \<longrightarrow> False"
  proof (intro impI)
    assume rej: "\<forall>i. accept a m (pool e i) = []" and nil: "ident = []" and pos: "0 < len"
    have "fill a m len (fst (randomBytes step e)) [] = []"
      using rej by (simp add: fill_take randomBytes_def accepted_rejecting)
    with eq nil pos have "f a m step len [] (snd (randomBytes step e)) = Some r"
      by (simp add: Let_def)
    moreover have "\<forall>i. accept a m (pool (snd (randomBytes step e)) i) = []"
      using rej by (simp add: randomBytes_def)
    ultimately show False using IH pos by blast
  qed
qed

subsection \<open>Properties of the generator\<close>



text \<open>
  C2. The identifier has the requested length and uses only characters of the
  alphabet (the first testable property of the specification), under the same
  conditions on the source.
\<close>

theorem nanoid_length_and_alphabet:
  assumes "0 < length a" "length a \<le> 255"
    and "len \<le> length (accepted a (nanoid_mask (length a)) (window e n))"
  shows "\<exists>ident e'. nanoid len a e = Some (Inr (ident, e')) \<and> length ident = len \<and> set ident \<subseteq> set a"
proof -
  obtain k where k: "nanoid len a e = Some (Inr (take len (accepted a (nanoid_mask (length a)) (window e n)),
      e\<lparr>drawn := drawn e + k * nanoid_step (nanoid_mask (length a)) len (length a)\<rparr>))"
    using nanoid_result [OF assms] by blast
  have "set (take len (accepted a (nanoid_mask (length a)) (window e n))) \<subseteq> set a"
    using set_accepted set_take_subset by (rule order_trans [rotated])
  with k assms(3) show ?thesis by auto
qed

theorem nanoid_length_and_alphabet_witness:
  "0 < length ''ab'' \<and> length ''ab'' \<le> 255 \<and>
   3 \<le> length (accepted ''ab'' (nanoid_mask (length ''ab'')) (window \<lparr>pool = of_nat, drawn = 0\<rparr> 3)) \<and>
   (\<exists>ident e'. nanoid 3 ''ab'' \<lparr>pool = of_nat, drawn = 0\<rparr> = Some (Inr (ident, e')) \<and>
      length ident = 3 \<and> set ident \<subseteq> set ''ab'')"
proof -
  have m: "nanoid_mask (length ''ab'') = 1" by (simp add: nanoid_mask_def shift_count_def floor_log2.simps)
  have acc: "accepted ''ab'' 1 (window \<lparr>pool = of_nat, drawn = 0\<rparr> 3) = ''aba''"
    by (simp add: accepted_def accept_def window_def upt_rec)
  have h1: "0 < length ''ab''" and h2: "length ''ab'' \<le> 255" by simp_all
  have h3: "3 \<le> length (accepted ''ab'' (nanoid_mask (length ''ab'')) (window \<lparr>pool = of_nat, drawn = 0\<rparr> 3))"
    unfolding m acc by simp
  show ?thesis using nanoid_length_and_alphabet [OF h1 h2 h3] h1 h2 h3 by blast
qed

text \<open>
  C3. Error path: an empty alphabet or one of more than 255 characters makes
  \<open>nanoid\<close> fail with the configuration error before any byte is drawn; a
  valid alphabet never fails.
\<close>

theorem nanoid_alphabet_error:
  "(nanoid len a e = Some (Inl AlphabetSizeError)) \<longleftrightarrow> (length a = 0 \<or> 255 < length a)"
  by (auto simp: nanoid_def Let_def)

text \<open>
  C4. Bounds of the mask for every valid alphabet size: it is a power of two
  minus one, it covers every index of the alphabet (\<open>size - 1 \<le> mask\<close>), it is
  less than twice the size (so a masked byte is accepted with probability more
  than one half) and it fits in a byte.
\<close>

theorem nanoid_mask_covers_alphabet:
  assumes "0 < sz" "sz \<le> 255"
  shows "int sz - 1 \<le> nanoid_mask sz \<and> nanoid_mask sz < 2 * int sz \<and> nanoid_mask sz \<le> 255 \<and>
         (\<exists>k. nanoid_mask sz = 2 ^ k - 1)"
  using nanoid_mask_bounds [OF assms] nanoid_mask_eq [OF assms(2)] by blast

theorem nanoid_mask_covers_alphabet_witness:
  "int 64 - 1 \<le> nanoid_mask 64 \<and> nanoid_mask 64 < 2 * int 64 \<and> nanoid_mask 64 \<le> 255 \<and>
   (\<exists>k. nanoid_mask 64 = 2 ^ k - 1)"
  using nanoid_mask_covers_alphabet [of 64] by simp



text \<open>
  C6. The outer loop is not bounded: when every byte the source will ever
  deliver is rejected, \<open>nanoid\<close> does not return (the value \<open>None\<close> of the
  model), for any valid alphabet and any positive length. Termination rests on
  the source, not on the code.
\<close>

theorem nanoid_rejecting_source_diverges:
  assumes "0 < len" "0 < length a" "length a \<le> 255"
    and "\<forall>i. accept a (nanoid_mask (length a)) (pool e i) = []"
  shows "nanoid len a e = None"
proof -
  let ?m = "nanoid_mask (length a)" and ?s = "nanoid_step (nanoid_mask (length a)) len (length a)"
  have "nanoid_loop a ?m ?s len [] e = None"
  proof (rule ccontr)
    assume "nanoid_loop a ?m ?s len [] e \<noteq> None"
    then obtain r where "nanoid_loop a ?m ?s len [] e = Some r" by blast
    then show False using nanoid_loop_rejecting assms(1,4) by blast
  qed
  with assms(2,3) show ?thesis by (simp add: nanoid_def Let_def)
qed

theorem nanoid_rejecting_source_diverges_witness:
  "nanoid 1 ''a'' \<lparr>pool = (\<lambda>_. 255), drawn = 0\<rparr> = None"
proof -
  have m: "nanoid_mask (length ''a'') = 1" by (simp add: nanoid_mask_def shift_count_def)
  have "\<forall>i. accept ''a'' (nanoid_mask (length ''a'')) (pool \<lparr>pool = (\<lambda>_. 255 :: byte), drawn = 0\<rparr> i) = []"
    unfolding m by (simp add: accept_def)
  then show ?thesis using nanoid_rejecting_source_diverges [of 1 "''a''"] by simp
qed

text \<open>
  C7. A request of length zero returns the empty identifier at once and draws
  no byte from the source (the batch size is then zero and the loop is not
  entered).
\<close>

theorem nanoid_zero_length:
  assumes "0 < length a" "length a \<le> 255"
  shows "nanoid 0 a e = Some (Inr ([], e))"
  using assms by (simp add: nanoid_def Let_def nanoid_loop.simps)

theorem nanoid_zero_length_witness:
  "nanoid 0 charset \<lparr>pool = of_nat, drawn = 5\<rparr> = Some (Inr ([], \<lparr>pool = of_nat, drawn = 5\<rparr>))"
proof -
  have "0 < length charset" "length charset \<le> 255" by (simp_all add: charset_def)
  then show ?thesis by (rule nanoid_zero_length)
qed

end
