(* ===== verification/Unicode.thy ===== *)
theory Unicode
  imports Prelude
begin

text \<open>
  The parts of the JavaScript runtime that the string functions of the library
  rely on, for the model's characters (the code points \<open>U+0000\<close>--\<open>U+00FF\<close>):
  the Unicode general category of a character, the binary properties
  \<open>Emoji\<close> and \<open>Emoji_Presentation\<close>, the classes \<open>\d\<close> and \<open>\w\<close> of a regular
  expression, and \<open>String.prototype.toLowerCase\<close> and \<open>toUpperCase\<close>. The
  tables are those of the Unicode Character Database for this block.
\<close>

datatype gcat =
  Lu | Ll | Lo | Nd | No | Zs | Pc | Pd | Ps | Pe | Pi | Pf | Po | Sm | Sc | Sk | So | Cc | Cf

text \<open>The general category of the code point \<open>n\<close>, for \<open>n < 256\<close>.\<close>

definition gc_code :: "nat \<Rightarrow> gcat" where
  "gc_code n =
    (if n < 32 then Cc else if n = 32 then Zs else if n \<le> 35 then Po else if n = 36 then Sc
     else if n \<le> 39 then Po else if n = 40 then Ps else if n = 41 then Pe else if n = 42 then Po
     else if n = 43 then Sm else if n = 44 then Po else if n = 45 then Pd else if n \<le> 47 then Po
     else if n \<le> 57 then Nd else if n \<le> 59 then Po else if n \<le> 62 then Sm else if n \<le> 64 then Po
     else if n \<le> 90 then Lu else if n = 91 then Ps else if n = 92 then Po else if n = 93 then Pe
     else if n = 94 then Sk else if n = 95 then Pc else if n = 96 then Sk else if n \<le> 122 then Ll
     else if n = 123 then Ps else if n = 124 then Sm else if n = 125 then Pe else if n = 126 then Sm
     else if n \<le> 159 then Cc else if n = 160 then Zs else if n = 161 then Po
     else if n \<le> 165 then Sc else if n = 166 then So else if n = 167 then Po
     else if n = 168 then Sk else if n = 169 then So else if n = 170 then Lo else if n = 171 then Pi
     else if n = 172 then Sm else if n = 173 then Cf else if n = 174 then So else if n = 175 then Sk
     else if n = 176 then So else if n = 177 then Sm else if n \<le> 179 then No
     else if n = 180 then Sk else if n = 181 then Ll else if n \<le> 183 then Po
     else if n = 184 then Sk else if n = 185 then No else if n = 186 then Lo else if n = 187 then Pf
     else if n \<le> 190 then No else if n = 191 then Po else if n \<le> 214 then Lu
     else if n = 215 then Sm else if n \<le> 222 then Lu else if n \<le> 246 then Ll
     else if n = 247 then Sm else Ll)"

definition gc :: "char \<Rightarrow> gcat" where
  "gc c = gc_code (of_char c)"

subsection \<open>Property classes of regular expressions with the \<open>u\<close> flag\<close>

definition is_Lu :: "char \<Rightarrow> bool" where "is_Lu c \<longleftrightarrow> gc c = Lu"
definition is_Ll :: "char \<Rightarrow> bool" where "is_Ll c \<longleftrightarrow> gc c = Ll"
definition is_L :: "char \<Rightarrow> bool" where "is_L c \<longleftrightarrow> gc c \<in> {Lu, Ll, Lo}"
definition is_N :: "char \<Rightarrow> bool" where "is_N c \<longleftrightarrow> gc c \<in> {Nd, No}"
definition is_Z :: "char \<Rightarrow> bool" where "is_Z c \<longleftrightarrow> gc c = Zs"
definition is_P :: "char \<Rightarrow> bool" where "is_P c \<longleftrightarrow> gc c \<in> {Pc, Pd, Ps, Pe, Pi, Pf, Po}"
definition is_S :: "char \<Rightarrow> bool" where "is_S c \<longleftrightarrow> gc c \<in> {Sm, Sc, Sk, So}"

text \<open>
  \<open>\p{Emoji}\<close> holds in this block for \<open>#\<close>, \<open>*\<close>, the ASCII digits, \<open>\<copyright>\<close>
  and \<open>\<registered>\<close>; \<open>\p{Emoji_Presentation}\<close> for no character of it.
\<close>

definition is_emoji :: "char \<Rightarrow> bool" where
  "is_emoji c \<longleftrightarrow> of_char c \<in> {35, 42, 169, 174 :: nat} \<or> (48 \<le> (of_char c :: nat) \<and> (of_char c :: nat) \<le> 57)"

definition is_emoji_presentation :: "char \<Rightarrow> bool" where
  "is_emoji_presentation c \<longleftrightarrow> False"

definition is_digit :: "char \<Rightarrow> bool" where
  "is_digit c \<longleftrightarrow> 48 \<le> (of_char c :: nat) \<and> (of_char c :: nat) \<le> 57"

definition is_word_char :: "char \<Rightarrow> bool" where
  "is_word_char c \<longleftrightarrow> is_digit c \<or> c = CHR ''_'' \<or>
     (65 \<le> (of_char c :: nat) \<and> (of_char c :: nat) \<le> 90) \<or> (97 \<le> (of_char c :: nat) \<and> (of_char c :: nat) \<le> 122)"

subsection \<open>Case mapping\<close>

text \<open>
  Simple lower-case and full upper-case mapping of one character. \<open>\<ss>\<close>
  upper-cases to \<open>SS\<close>. The upper-case forms of \<open>\<mu>\<close> (U+00B5) and \<open>y\<close> with
  diaeresis (U+00FF) lie outside the model's characters; they are left
  unchanged.
\<close>

definition lower_char :: "char \<Rightarrow> js_string" where
  "lower_char c =
     (let n = (of_char c :: nat)
      in if (65 \<le> n \<and> n \<le> 90) \<or> (192 \<le> n \<and> n \<le> 222 \<and> n \<noteq> 215) then [char_of (n + 32)] else [c])"

definition upper_char :: "char \<Rightarrow> js_string" where
  "upper_char c =
     (let n = (of_char c :: nat)
      in if (97 \<le> n \<and> n \<le> 122) \<or> (224 \<le> n \<and> n \<le> 254 \<and> n \<noteq> 247) then [char_of (n - 32)]
         else if n = 223 then ''SS'' else [c])"

definition js_lower :: "js_string \<Rightarrow> js_string" where
  "js_lower s = concat (map lower_char s)"

definition js_upper :: "js_string \<Rightarrow> js_string" where
  "js_upper s = concat (map upper_char s)"

named_theorems char_class_defs "definitions of the character classes"

declare is_Lu_def [char_class_defs] is_Ll_def [char_class_defs] is_L_def [char_class_defs]
  is_N_def [char_class_defs] is_Z_def [char_class_defs] is_P_def [char_class_defs]
  is_S_def [char_class_defs] is_emoji_def [char_class_defs]
  is_emoji_presentation_def [char_class_defs] is_digit_def [char_class_defs]
  is_word_char_def [char_class_defs] gc_def [char_class_defs] gc_code_def [char_class_defs]

subsection \<open>Lemmas\<close>

text \<open>A character computed by \<open>char_of\<close> is compared with a literal by its code.\<close>

declare char_of_eq_iff [js_defs]

lemma gc_underscore [simp]: "gc CHR ''_'' = Pc"
  by (simp add: gc_def gc_code_def)

lemma gc_hyphen [simp]: "gc CHR ''-'' = Pd"
  by (simp add: gc_def gc_code_def)

lemma digit_gc: "is_digit c \<Longrightarrow> gc c = Nd"
  by (simp add: is_digit_def gc_def gc_code_def)

lemma emoji_gc: "is_emoji c \<Longrightarrow> gc c \<in> {Po, So, Nd}"
  by (auto simp: is_emoji_def gc_def gc_code_def)

lemma js_lower_append [simp]: "js_lower (xs @ ys) = js_lower xs @ js_lower ys"
  by (simp add: js_lower_def)

lemma js_lower_Nil [simp]: "js_lower [] = []"
  by (simp add: js_lower_def)

lemma js_lower_Cons [simp]: "js_lower (c # cs) = lower_char c @ js_lower cs"
  by (simp add: js_lower_def)

lemma js_upper_Nil [simp]: "js_upper [] = []"
  by (simp add: js_upper_def)

lemma js_upper_Cons [simp]: "js_upper (c # cs) = upper_char c @ js_upper cs"
  by (simp add: js_upper_def)

lemma length_lower_char [simp]: "length (lower_char c) = 1"
  by (simp add: lower_char_def Let_def)

lemma length_js_lower [simp]: "length (js_lower s) = length s"
  by (induction s) simp_all

text \<open>Lower-casing maps no other character to \<open>_\<close> or \<open>-\<close>.\<close>

lemma lower_char_sep:
  "c' \<in> set (lower_char c) \<Longrightarrow> c' \<in> {CHR ''_'', CHR ''-''} \<Longrightarrow> c = c'"
  by (auto simp: lower_char_def Let_def js_defs take_bit_eq_mod split: if_splits)

lemma sep_notin_js_lower:
  "d \<in> {CHR ''_'', CHR ''-''} \<Longrightarrow> d \<notin> set w \<Longrightarrow> d \<notin> set (js_lower w)"
  by (induction w) (auto dest: lower_char_sep)

lemma js_lower_join:
  "js_lower d = d \<Longrightarrow> js_lower (js_join d ws) = js_join d (map js_lower ws)"
  by (induction d ws rule: js_join.induct) simp_all

end
