(* ===== verification/Regex.thy ===== *)
theory Regex
  imports Unicode "HOL-Library.Sublist"
begin

text \<open>
  The regular-expression engine of JavaScript, for the constructs the library's
  patterns use: character classes, greedy quantifiers over a character class,
  literals, concatenation, ordered alternation, the greedy optional group,
  positive and negative lookahead, \<open>$\<close> and \<open>\b\<close>. The matcher is the
  backtracking semantics of the ECMAScript specification written with
  continuations: \<open>mt r s i k\<close> tries to match \<open>r\<close> at position \<open>i\<close> of \<open>s\<close> and
  hands every end position it can reach, in the engine's order of preference,
  to the continuation \<open>k\<close>, returning the first final result. A lookahead is
  atomic, as in JavaScript: the first way its body matches is the only one.
  A quantified group whose alternatives each match one character (such as
  \<open>(?:\p{Lu}|[^\<dots>])+\<close>) is the quantified union of the classes: both reach the
  same end positions in the same order.
\<close>

datatype rx =
    Chr "char \<Rightarrow> bool"
  | Rep "char \<Rightarrow> bool" nat
  | Lit js_string
  | Seq rx rx
  | Alt rx rx
  | Opt rx
  | Ahead rx
  | NotAhead rx
  | EndInput
  | WordBoundary

text \<open>
  Backtracking over a greedy run: the longest run \<open>m\<close> first, then shorter ones
  down to the minimum \<open>n\<close>.
\<close>

fun try_down :: "(nat \<Rightarrow> nat option) \<Rightarrow> nat \<Rightarrow> nat \<Rightarrow> nat \<Rightarrow> nat option" where
  "try_down k i n 0 = (if n = 0 then k i else None)"
| "try_down k i n (Suc m) =
     (if Suc m < n then None
      else (case k (i + Suc m) of Some j \<Rightarrow> Some j | None \<Rightarrow> try_down k i n m))"

definition run_length :: "(char \<Rightarrow> bool) \<Rightarrow> js_string \<Rightarrow> nat \<Rightarrow> nat" where
  "run_length p s i = length (takeWhile p (drop i s))"

definition word_at :: "js_string \<Rightarrow> nat \<Rightarrow> bool" where
  "word_at s i \<longleftrightarrow> i < length s \<and> is_word_char (s ! i)"

primrec mt :: "rx \<Rightarrow> js_string \<Rightarrow> nat \<Rightarrow> (nat \<Rightarrow> nat option) \<Rightarrow> nat option" where
  "mt (Chr p) s i k = (if i < length s \<and> p (s ! i) then k (Suc i) else None)"
| "mt (Rep p n) s i k = try_down k i n (run_length p s i)"
| "mt (Lit w) s i k = (if take (length w) (drop i s) = w then k (i + length w) else None)"
| "mt (Seq a b) s i k = mt a s i (\<lambda>j. mt b s j k)"
| "mt (Alt a b) s i k = (case mt a s i k of Some j \<Rightarrow> Some j | None \<Rightarrow> mt b s i k)"
| "mt (Opt a) s i k = (case mt a s i k of Some j \<Rightarrow> Some j | None \<Rightarrow> k i)"
| "mt (Ahead a) s i k = (case mt a s i Some of Some _ \<Rightarrow> k i | None \<Rightarrow> None)"
| "mt (NotAhead a) s i k = (case mt a s i Some of Some _ \<Rightarrow> None | None \<Rightarrow> k i)"
| "mt EndInput s i k = (if i = length s then k i else None)"
| "mt WordBoundary s i k =
     (if (0 < i \<and> word_at s (i - 1)) \<noteq> word_at s i then k i else None)"

subsection \<open>Matches only move forward\<close>

lemma ex_ge_Some: "k i' = Some j \<Longrightarrow> i \<le> i' \<Longrightarrow> \<exists>i'\<ge>i. k i' = Some j"
  by blast

lemma try_down_forward:
  "try_down k i n m = Some j \<Longrightarrow> \<exists>i'. i \<le> i' \<and> k i' = Some j"
proof (induction k i n m rule: try_down.induct)
  case (1 k i n)
  then show ?case by (auto split: if_splits)
next
  case (2 k i n m)
  show ?case
  proof (cases "k (i + Suc m)")
    case None
    with "2.prems" have "try_down k i n m = Some j" by (simp split: if_splits)
    then show ?thesis using "2.IH" None "2.prems" by (simp split: if_splits)
  next
    case (Some j')
    with "2.prems" have "k (i + Suc m) = Some j" by (simp split: if_splits)
    then show ?thesis by (intro exI [of _ "i + Suc m"]) simp
  qed
qed

lemma mt_forward:
  "mt r s i k = Some j \<Longrightarrow> \<exists>i'. i \<le> i' \<and> k i' = Some j"
proof (induction r arbitrary: i k j)
  case (Seq a b)
  from Seq.IH(1) [of i "\<lambda>j. mt b s j k" j] Seq.prems
  obtain i1 where "i \<le> i1" "mt b s i1 k = Some j" by auto
  with Seq.IH(2) [of i1 k j] show ?case by (auto intro: le_trans)
qed (auto dest: try_down_forward intro: ex_ge_Some split: if_splits option.splits)

lemma mt_Some_le:
  "mt r s i Some = Some j \<Longrightarrow> i \<le> j"
  using mt_forward [of r s i Some j] by auto

subsection \<open>What a match consumes\<close>

text \<open>
  The least number of characters a pattern consumes, and whether every
  character it consumes satisfies \<open>P\<close> (lookaheads consume nothing).
\<close>

primrec min_len :: "rx \<Rightarrow> nat" where
  "min_len (Chr p) = 1"
| "min_len (Rep p n) = n"
| "min_len (Lit w) = length w"
| "min_len (Seq a b) = min_len a + min_len b"
| "min_len (Alt a b) = min (min_len a) (min_len b)"
| "min_len (Opt a) = 0"
| "min_len (Ahead a) = 0"
| "min_len (NotAhead a) = 0"
| "min_len EndInput = 0"
| "min_len WordBoundary = 0"

primrec chars_ok :: "(char \<Rightarrow> bool) \<Rightarrow> rx \<Rightarrow> bool" where
  "chars_ok P (Chr p) = (\<forall>c. p c \<longrightarrow> P c)"
| "chars_ok P (Rep p n) = (\<forall>c. p c \<longrightarrow> P c)"
| "chars_ok P (Lit w) = (\<forall>c \<in> set w. P c)"
| "chars_ok P (Seq a b) = (chars_ok P a \<and> chars_ok P b)"
| "chars_ok P (Alt a b) = (chars_ok P a \<and> chars_ok P b)"
| "chars_ok P (Opt a) = chars_ok P a"
| "chars_ok P (Ahead a) = True"
| "chars_ok P (NotAhead a) = True"
| "chars_ok P EndInput = True"
| "chars_ok P WordBoundary = True"

definition consumed :: "(char \<Rightarrow> bool) \<Rightarrow> js_string \<Rightarrow> nat \<Rightarrow> nat \<Rightarrow> bool" where
  "consumed P s i i' \<longleftrightarrow> (\<forall>t. i \<le> t \<and> t < i' \<longrightarrow> t < length s \<and> P (s ! t))"

lemma consumed_trans:
  assumes a1: "consumed P s i i1" and a2: "consumed P s i1 i2"
  shows "consumed P s i i2"
  unfolding consumed_def
proof (intro allI impI)
  fix t
  assume t: "i \<le> t \<and> t < i2"
  show "t < length s \<and> P (s ! t)"
  proof (cases "t < i1")
    case True
    with a1 t show ?thesis by (simp add: consumed_def)
  next
    case False
    with a2 t show ?thesis by (simp add: consumed_def)
  qed
qed

lemma consumed_refl [simp]: "consumed P s i i"
  by (auto simp: consumed_def)

lemma try_down_Some:
  "try_down k i n m = Some j \<Longrightarrow> \<exists>m'. n \<le> m' \<and> m' \<le> m \<and> k (i + m') = Some j"
proof (induction k i n m rule: try_down.induct)
  case (1 k i n)
  then show ?case by (auto split: if_splits)
next
  case (2 k i n m)
  show ?case
  proof (cases "k (i + Suc m)")
    case None
    with "2.prems" have "try_down k i n m = Some j" by (simp split: if_splits)
    then show ?thesis using "2.IH" None "2.prems" by (force split: if_splits)
  next
    case (Some j')
    with "2.prems" have "k (i + Suc m) = Some j" "n \<le> Suc m" by (simp_all split: if_splits)
    then show ?thesis by blast
  qed
qed

lemma nth_drop_offset:
  "d < length (drop i s) \<Longrightarrow> drop i s ! d = s ! (i + d)"
  by simp

lemma consumed_run:
  assumes "\<forall>c. p c \<longrightarrow> P c" "m \<le> run_length p s i"
  shows "consumed P s i (i + m)"
  unfolding consumed_def
proof (intro allI impI)
  fix t
  assume t: "i \<le> t \<and> t < i + m"
  define d where "d = t - i"
  have lt: "d < length (takeWhile p (drop i s))"
    using t assms(2) unfolding run_length_def d_def by linarith
  have ld: "d < length (drop i s)" using lt length_takeWhile_le [of p "drop i s"] by linarith
  have "p (takeWhile p (drop i s) ! d)" using nth_mem [OF lt] by (blast dest: set_takeWhileD)
  moreover have "takeWhile p (drop i s) ! d = s ! t"
    using takeWhile_nth [OF lt] nth_drop_offset [OF ld] t by (simp add: d_def)
  ultimately show "t < length s \<and> P (s ! t)" using assms(1) ld t by (auto simp: d_def)
qed

lemma consumed_lit:
  assumes "take (length w) (drop i s) = w" "\<forall>c \<in> set w. P c"
  shows "consumed P s i (i + length w)"
  unfolding consumed_def
proof (intro allI impI)
  fix t
  assume t: "i \<le> t \<and> t < i + length w"
  define d where "d = t - i"
  have "length (take (length w) (drop i s)) = length w" using assms(1) by simp
  then have lw: "length w \<le> length (drop i s)" by simp
  have dw: "d < length w" using t unfolding d_def by linarith
  have "w ! d = take (length w) (drop i s) ! d" using assms(1) by simp
  also have "\<dots> = drop i s ! d" using dw by simp
  also have "\<dots> = s ! t" using nth_drop_offset [of d i s] dw lw t by (simp add: d_def)
  finally have "w ! d = s ! t" .
  moreover have "w ! d \<in> set w" using dw by simp
  ultimately show "t < length s \<and> P (s ! t)" using assms(2) dw lw t by (auto simp: d_def)
qed

lemma mt_consumes:
  "chars_ok P r \<Longrightarrow> mt r s i k = Some j \<Longrightarrow>
   \<exists>i'. i + min_len r \<le> i' \<and> consumed P s i i' \<and> k i' = Some j"
proof (induction r arbitrary: i k j)
  case (Chr p)
  then have "i < length s" "p (s ! i)" "k (Suc i) = Some j" by (simp_all split: if_splits)
  moreover have "consumed P s i (Suc i)"
    using Chr.prems(1) calculation by (auto simp: consumed_def less_Suc_eq)
  ultimately show ?case by (intro exI [of _ "Suc i"]) simp
next
  case (Rep p n)
  then obtain m where m: "n \<le> m" "m \<le> run_length p s i" "k (i + m) = Some j"
    using try_down_Some by fastforce
  with Rep.prems(1) show ?case by (intro exI [of _ "i + m"]) (simp add: consumed_run)
next
  case (Lit w)
  then show ?case by (auto simp: consumed_lit split: if_splits)
next
  case (Seq a b)
  from Seq.prems have oka: "chars_ok P a" and okb: "chars_ok P b" by simp_all
  from Seq.IH(1) [OF oka, of i "\<lambda>j. mt b s j k" j] Seq.prems(2)
  obtain i1 where i1: "i + min_len a \<le> i1" "consumed P s i i1" "mt b s i1 k = Some j" by auto
  from Seq.IH(2) [OF okb i1(3)] obtain i2 where
    i2: "i1 + min_len b \<le> i2" "consumed P s i1 i2" "k i2 = Some j" by blast
  from i1 i2 show ?case by (intro exI [of _ i2]) (auto intro: consumed_trans)
next
  case (Alt a b)
  show ?case
  proof (cases "mt a s i k")
    case None
    with Alt.prems have mb: "mt b s i k = Some j" by simp
    from Alt.prems(1) have "chars_ok P b" by simp
    from Alt.IH(2) [OF this mb] obtain i' where "i + min_len b \<le> i'" "consumed P s i i'" "k i' = Some j"
      by blast
    then show ?thesis by (intro exI [of _ i']) auto
  next
    case (Some j')
    with Alt.prems have ma: "mt a s i k = Some j" by simp
    from Alt.prems(1) have "chars_ok P a" by simp
    from Alt.IH(1) [OF this ma] obtain i' where "i + min_len a \<le> i'" "consumed P s i i'" "k i' = Some j"
      by blast
    then show ?thesis by (intro exI [of _ i']) auto
  qed
next
  case (Opt a)
  show ?case
  proof (cases "mt a s i k")
    case None
    with Opt.prems have "k i = Some j" by simp
    then show ?thesis by (intro exI [of _ i]) simp
  next
    case (Some j')
    with Opt.prems have ma: "mt a s i k = Some j" by simp
    from Opt.prems(1) have "chars_ok P a" by simp
    from Opt.IH [OF this ma] obtain i' where "consumed P s i i'" "k i' = Some j" "i \<le> i'"
      by auto
    then show ?thesis by (intro exI [of _ i']) auto
  qed
next
  case (Ahead a)
  then show ?case by (intro exI [of _ i]) (simp split: option.splits)
next
  case (NotAhead a)
  then show ?case by (intro exI [of _ i]) (simp split: option.splits)
next
  case EndInput
  then show ?case by (intro exI [of _ i]) (simp split: if_splits)
next
  case WordBoundary
  then show ?case by (intro exI [of _ i]) (simp split: if_splits)
qed

subsection \<open>Global matching: \<open>String.prototype.match\<close> with the \<open>g\<close> flag\<close>

text \<open>
  \<open>RegExpBuiltinExec\<close>: the first position from \<open>lastIndex\<close> on where the
  pattern matches, with the match's end.
\<close>

function search :: "rx \<Rightarrow> js_string \<Rightarrow> nat \<Rightarrow> (nat \<times> nat) option" where
  "search r s i =
     (if length s < i then None
      else (case mt r s i Some of Some j \<Rightarrow> Some (i, j) | None \<Rightarrow> search r s (Suc i)))"
  by pat_completeness auto
termination
  by (relation "measure (\<lambda>(r, s, i). Suc (length s) - i)") auto

declare search.simps [simp del]

lemma search_Some:
  "search r s i = Some (p, j) \<Longrightarrow> i \<le> p \<and> p \<le> length s \<and> p \<le> j \<and> mt r s p Some = Some j"
proof (induction r s i rule: search.induct)
  case (1 r s i)
  show ?case
  proof (cases "length s < i")
    case True
    with "1.prems" show ?thesis by (simp add: search.simps)
  next
    case False
    show ?thesis
    proof (cases "mt r s i Some")
      case None
      with False "1.prems" have "search r s (Suc i) = Some (p, j)" by (simp add: search.simps)
      with "1.IH" False None show ?thesis by simp
    next
      case (Some j')
      with False "1.prems" have "p = i" "j' = j" by (simp_all add: search.simps)
      with Some False show ?thesis using mt_Some_le by auto
    qed
  qed
qed

text \<open>
  The loop of \<open>String.prototype.match\<close> for a global pattern: collect the
  matched substring and continue at its end, one position further after an
  empty match (\<open>AdvanceStringIndex\<close>). No match at all gives \<open>null\<close>, which
  the library's callers turn into the empty array; the model returns the empty
  list for both.
\<close>

function match_all :: "rx \<Rightarrow> js_string \<Rightarrow> nat \<Rightarrow> js_string list" where
  "match_all r s i =
     (case search r s i of
        None \<Rightarrow> []
      | Some (p, j) \<Rightarrow> take (j - p) (drop p s) # match_all r s (if j = p then Suc j else j))"
  by pat_completeness auto
termination
proof (relation "measure (\<lambda>(r, s, i). Suc (length s) - i)")
  fix r s i x p j
  assume "search r s i = Some x" "(p, j) = x"
  then have "i \<le> p \<and> p \<le> length s \<and> p \<le> j" using search_Some [of r s i p j] by simp
  then show "((r, s, if j = p then Suc j else j), r, s, i) \<in> measure (\<lambda>(r, s, i). Suc (length s) - i)"
    by auto
qed auto

declare match_all.simps [simp del]

subsection \<open>Properties of global matching\<close>

lemma search_consumes:
  assumes "search r s i = Some (p, j)" "chars_ok P r"
  shows "p + min_len r \<le> j \<and> consumed P s p j \<and> i \<le> p"
proof -
  from search_Some [OF assms(1)] have m: "mt r s p Some = Some j" and "i \<le> p" by simp_all
  from mt_consumes [OF assms(2) m] obtain i' where "p + min_len r \<le> i'" "consumed P s p i'" "Some i' = Some j"
    by blast
  with \<open>i \<le> p\<close> show ?thesis by simp
qed

lemma consumed_slice:
  assumes "consumed P s p j" "p < j"
  shows "take (j - p) (drop p s) \<noteq> [] \<and> (\<forall>c \<in> set (take (j - p) (drop p s)). P c)"
proof -
  have pj: "p < length s" using assms by (auto simp: consumed_def)
  have "P c" if c: "c \<in> set (take (j - p) (drop p s))" for c
  proof -
    from c obtain d where d: "d < length (take (j - p) (drop p s))" "take (j - p) (drop p s) ! d = c"
      by (auto simp: in_set_conv_nth)
    then have "c = s ! (p + d)" "p \<le> p + d" "p + d < j" by auto
    with assms(1) show ?thesis by (simp add: consumed_def)
  qed
  moreover have "take (j - p) (drop p s) \<noteq> []" using pj assms(2) by simp
  ultimately show ?thesis by blast
qed

lemma match_all_tokens:
  "chars_ok P r \<Longrightarrow> 0 < min_len r \<Longrightarrow> w \<in> set (match_all r s i) \<Longrightarrow>
   w \<noteq> [] \<and> (\<forall>c \<in> set w. P c)"
proof (induction r s i rule: match_all.induct)
  case (1 r s i)
  show ?case
  proof (cases "search r s i")
    case None
    with "1.prems" show ?thesis by (simp add: match_all.simps [of r s i])
  next
    case (Some pj)
    obtain p j where pj: "pj = (p, j)" by (cases pj)
    show ?thesis
    proof (cases "w = take (j - p) (drop p s)")
      case True
      from search_consumes [OF Some [unfolded pj] "1.prems"(1)] "1.prems"(2)
      have "p < j" "consumed P s p j" by auto
      from consumed_slice [OF this(2) this(1)] True show ?thesis by simp
    next
      case False
      with "1.prems" Some pj show ?thesis
        using "1.IH" [OF Some pj [symmetric]] by (simp add: match_all.simps [of r s i])
    qed
  qed
qed

lemma suffix_drop_mono: "m \<le> n \<Longrightarrow> suffix (drop n s) (drop m s)"
  by (metis suffix_drop drop_drop le_add_diff_inverse2)

lemma match_all_subseq:
  "subseq (concat (match_all r s i)) (drop i s)"
proof (induction r s i rule: match_all.induct)
  case (1 r s i)
  show ?case
  proof (cases "search r s i")
    case None
    then show ?thesis by (simp add: match_all.simps [of r s i])
  next
    case (Some pj)
    obtain p j where pj: "pj = (p, j)" by (cases pj)
    let ?i' = "if j = p then Suc j else j"
    from search_Some [of r s i p j] Some pj have ip: "i \<le> p" "p \<le> j" by simp_all
    have IH: "subseq (concat (match_all r s ?i')) (drop ?i' s)"
      using "1.IH" [OF Some pj [symmetric]] by simp
    have "subseq (drop ?i' s) (drop j s)"
      by (rule suffix_imp_subseq, rule suffix_drop_mono) simp
    with IH have rest: "subseq (concat (match_all r s ?i')) (drop j s)" by (rule subseq_order.trans)
    have "drop p s = take (j - p) (drop p s) @ drop j s"
      using ip by (metis append_take_drop_id drop_drop le_add_diff_inverse2)
    then have "subseq (take (j - p) (drop p s) @ concat (match_all r s ?i')) (drop p s)"
      using rest by (metis subseq_append')
    moreover have "subseq (drop p s) (drop i s)"
      by (rule suffix_imp_subseq, rule suffix_drop_mono) (rule ip(1))
    ultimately have "subseq (take (j - p) (drop p s) @ concat (match_all r s ?i')) (drop i s)"
      by (rule subseq_order.trans)
    with Some pj show ?thesis by (simp add: match_all.simps [of r s i])
  qed
qed

end
