(* ===== verification/Assertions.thy ===== *)
theory Assertions
  imports Prelude
begin

text \<open>
  The type predicates of \<open>src/src/assertions/index.ts\<close>, over a datatype of
  JavaScript values. A number is a rational, an infinity or \<open>NaN\<close>
  (\<open>-0\<close> is the rational \<open>0\<close>: no predicate of the library tells them apart).
  A plain object is the list of its own enumerable string-keyed properties in
  creation order; a repeated key keeps its first position and its last value,
  as an object literal does. A Map, Set, Date or other host object with no own
  enumerable property is \<open>JHost\<close>.
\<close>

datatype jsnum = Finite rat | PosInf | NegInf | NaN

text \<open>
  The relational operators \<open><=\<close> and \<open><\<close> on numbers (false whenever
  \<open>NaN\<close> is involved) and \<open>+\<close> (\<open>\<infinity> + -\<infinity>\<close> is \<open>NaN\<close>).
\<close>

fun num_le :: "jsnum \<Rightarrow> jsnum \<Rightarrow> bool" where
  "num_le NaN _ = False"
| "num_le _ NaN = False"
| "num_le NegInf _ = True"
| "num_le _ NegInf = False"
| "num_le _ PosInf = True"
| "num_le PosInf _ = False"
| "num_le (Finite a) (Finite b) = (a \<le> b)"

fun num_lt :: "jsnum \<Rightarrow> jsnum \<Rightarrow> bool" where
  "num_lt NaN _ = False"
| "num_lt _ NaN = False"
| "num_lt a b = (num_le a b \<and> a \<noteq> b)"

fun num_add :: "jsnum \<Rightarrow> jsnum \<Rightarrow> jsnum" where
  "num_add (Finite a) (Finite b) = Finite (a + b)"
| "num_add NaN _ = NaN"
| "num_add _ NaN = NaN"
| "num_add PosInf NegInf = NaN"
| "num_add NegInf PosInf = NaN"
| "num_add PosInf _ = PosInf"
| "num_add NegInf _ = NegInf"
| "num_add _ PosInf = PosInf"
| "num_add _ NegInf = NegInf"

text \<open>\<open>===\<close> on numbers: \<open>NaN\<close> is not equal to itself.\<close>

definition num_strict_eq :: "jsnum \<Rightarrow> jsnum \<Rightarrow> bool" where
  "num_strict_eq a b \<longleftrightarrow> a \<noteq> NaN \<and> a = b"

datatype jsval =
    JUndefined
  | JNull
  | JBool bool
  | JNumber jsnum
  | JBigInt int
  | JString js_string
  | JArray "jsval list"
  | JObject "(js_string \<times> jsval) list"
  | JFunction
  | JRegExp
  | JHost

datatype jstype = TUndefined | TObject | TBoolean | TNumber | TBigInt | TString | TFunction

fun typeof :: "jsval \<Rightarrow> jstype" where
  "typeof JUndefined = TUndefined"
| "typeof (JBool _) = TBoolean"
| "typeof (JNumber _) = TNumber"
| "typeof (JBigInt _) = TBigInt"
| "typeof (JString _) = TString"
| "typeof JFunction = TFunction"
| "typeof _ = TObject"

text \<open>\<open>Number.isNaN\<close>, \<open>Number.isInteger\<close>, \<open>Number.isFinite\<close> and \<open>Array.isArray\<close>.\<close>

fun number_isNaN :: "jsval \<Rightarrow> bool" where
  "number_isNaN (JNumber NaN) = True"
| "number_isNaN _ = False"

fun number_isInteger :: "jsval \<Rightarrow> bool" where
  "number_isInteger (JNumber (Finite q)) = (q = of_int \<lfloor>q\<rfloor>)"
| "number_isInteger _ = False"

fun number_isFinite :: "jsval \<Rightarrow> bool" where
  "number_isFinite (JNumber (Finite q)) = True"
| "number_isFinite _ = False"

fun array_isArray :: "jsval \<Rightarrow> bool" where
  "array_isArray (JArray _) = True"
| "array_isArray _ = False"

text \<open>
  \<open>Object.keys\<close>: \<open>TypeError\<close> for \<open>null\<close> and \<open>undefined\<close>; the indices of
  a string or an array; the own keys of a plain object, first occurrence of a
  repeated key. (Integer-like keys of a plain object come first in JavaScript;
  the ordering is modelled where it matters, in \<open>Clsx\<close>.)
\<close>

fun object_keys :: "jsval \<Rightarrow> js_error + js_string list" where
  "object_keys JUndefined = Inl TypeError"
| "object_keys JNull = Inl TypeError"
| "object_keys (JString s) = Inr (map (\<lambda>i. js_nat_string i) [0..<length s])"
| "object_keys (JArray xs) = Inr (map (\<lambda>i. js_nat_string i) [0..<length xs])"
| "object_keys (JObject kvs) = Inr (remdups (map fst kvs))"
| "object_keys _ = Inr []"

subsection \<open>The predicates\<close>

definition isString :: "jsval \<Rightarrow> bool" where
  "isString v \<longleftrightarrow> typeof v = TString"

definition isNumber :: "jsval \<Rightarrow> bool" where
  "isNumber v \<longleftrightarrow> typeof v = TNumber \<and> \<not> number_isNaN v"

definition isInteger :: "jsval \<Rightarrow> bool" where
  "isInteger v \<longleftrightarrow> isNumber v \<and> number_isInteger v"

definition isFloat :: "jsval \<Rightarrow> bool" where
  "isFloat v \<longleftrightarrow> isNumber v \<and> \<not> number_isInteger v"

definition isArray :: "jsval \<Rightarrow> bool" where
  "isArray v \<longleftrightarrow> array_isArray v"

definition isEmptyArray :: "jsval \<Rightarrow> bool" where
  "isEmptyArray v \<longleftrightarrow> isArray v \<and> (case v of JArray xs \<Rightarrow> xs = [] | _ \<Rightarrow> False)"

definition isObject :: "jsval \<Rightarrow> bool" where
  "isObject v \<longleftrightarrow> v \<noteq> JNull \<and> typeof v = TObject \<and> \<not> array_isArray v"

definition isEmptyObject :: "jsval \<Rightarrow> js_error + bool" where
  "isEmptyObject v = (case object_keys v of Inl e \<Rightarrow> Inl e | Inr ks \<Rightarrow> Inr (length ks = 0))"

text \<open>
  \<open>isEmpty\<close> calls \<open>isEmptyObject\<close> only on objects, where \<open>Object.keys\<close>
  cannot throw; the model reads the Boolean out of the result.
\<close>

definition isEmpty :: "jsval \<Rightarrow> bool" where
  "isEmpty v =
     (if v = JNull \<or> v = JUndefined then True
      else if typeof v = TString \<and> js_trim (case v of JString s \<Rightarrow> s | _ \<Rightarrow> []) = [] then True
      else if isArray v then isEmptyArray v
      else if isObject v then (case isEmptyObject v of Inr b \<Rightarrow> b | Inl _ \<Rightarrow> False)
      else False)"

definition isFunction :: "jsval \<Rightarrow> bool" where
  "isFunction v \<longleftrightarrow> typeof v = TFunction"

definition isRegex :: "jsval \<Rightarrow> bool" where
  "isRegex v \<longleftrightarrow> v = JRegExp"

text \<open>\<open>!!val\<close>: the falsy values are \<open>false\<close>, \<open>0\<close>, \<open>-0\<close>, \<open>NaN\<close>, \<open>0n\<close>, \<open>""\<close>,
  \<open>null\<close> and \<open>undefined\<close>.\<close>

fun truthy :: "jsval \<Rightarrow> bool" where
  "truthy JUndefined = False"
| "truthy JNull = False"
| "truthy (JBool b) = b"
| "truthy (JNumber (Finite q)) = (q \<noteq> 0)"
| "truthy (JNumber NaN) = False"
| "truthy (JNumber _) = True"
| "truthy (JBigInt i) = (i \<noteq> 0)"
| "truthy (JString s) = (s \<noteq> [])"
| "truthy _ = True"

definition isTruthy :: "jsval \<Rightarrow> bool" where
  "isTruthy v \<longleftrightarrow> truthy v"

definition js_not :: "(jsval \<Rightarrow> bool) \<Rightarrow> jsval \<Rightarrow> bool" where
  "js_not fn = (\<lambda>v. \<not> fn v)"

text \<open>
  \<open>isBrowser()\<close> reads the global binding \<open>window\<close> of the host: \<open>None\<close>
  where the name is not declared (Node), in which case \<open>typeof window\<close> is
  \<open>"undefined"\<close> and no \<open>ReferenceError\<close> is raised.
\<close>

record host =
  global_window :: "jsval option"

definition isBrowser :: "host \<Rightarrow> bool" where
  "isBrowser env = (case global_window env of None \<Rightarrow> False | Some w \<Rightarrow> typeof w \<noteq> TUndefined)"

declare isString_def [js_defs] isNumber_def [js_defs] isInteger_def [js_defs] isFloat_def [js_defs]
  isArray_def [js_defs] isEmptyArray_def [js_defs] isObject_def [js_defs]
  isEmptyObject_def [js_defs] isEmpty_def [js_defs] isFunction_def [js_defs]
  isRegex_def [js_defs] isTruthy_def [js_defs] js_not_def [js_defs]

subsection \<open>Lemmas\<close>

lemma num_le_refl [simp]: "num_le a a \<longleftrightarrow> a \<noteq> NaN"
  by (cases a) auto

lemma num_le_total: "a \<noteq> NaN \<Longrightarrow> b \<noteq> NaN \<Longrightarrow> num_le a b \<or> num_le b a"
  by (cases a; cases b) auto

lemma num_le_trans: "num_le a b \<Longrightarrow> num_le b c \<Longrightarrow> num_le a c"
  by (cases a; cases b; cases c) auto

lemma num_le_antisym: "num_le a b \<Longrightarrow> num_le b a \<Longrightarrow> a = b"
  by (cases a; cases b) auto

lemma num_le_NaN [simp]: "num_le a NaN = False" "num_le NaN a = False"
  by (cases a; simp)+

lemma isEmpty_JString [simp]: "isEmpty (JString s) \<longleftrightarrow> js_trim s = []"
  by (simp add: isEmpty_def isArray_def isObject_def)

subsection \<open>Properties of the predicates\<close>


text \<open>
  C16: \<open>isEmpty\<close> holds exactly for \<open>null\<close>, \<open>undefined\<close>, a string of
  white space, the empty array, the object with no own enumerable property, and
  the objects (a regular expression, a Map, a Date) that have no such property.
\<close>

theorem isEmpty_cases:
  "isEmpty v \<longleftrightarrow>
     v = JNull \<or> v = JUndefined \<or> (\<exists>s. v = JString s \<and> (\<forall>c \<in> set s. js_whitespace c)) \<or>
     v = JArray [] \<or> v = JObject [] \<or> v = JRegExp \<or> v = JHost"
  by (cases v) (auto simp: isEmpty_def isArray_def isEmptyArray_def isObject_def isEmptyObject_def
      js_trim_eq_Nil_iff)

theorem isEmpty_cases_witness:
  "isEmpty (JString '' '') \<and> js_whitespace CHR '' ''"
  using isEmpty_cases [of "JString '' ''"] by (simp add: js_whitespace_def)

end
