(* ===== verification/Casing.thy ===== *)
theory Casing
  imports Regex Assertions
begin

text \<open>
  The word tokenizer and the case converters of \<open>src/src/string/casing.ts\<close>.
  The pattern \<open>reWords\<close> is written as a term of the matcher of \<open>Regex\<close>,
  alternative by alternative; \<open>words\<close> is \<open>str.match(reWords) || []\<close>.
\<close>

subsection \<open>The pattern \<open>reWords\<close>\<close>

text \<open>\<open>[\p{Z}\p{P}\p{S}_-]\<close>: the characters a word may be followed by.\<close>

definition is_break :: "char \<Rightarrow> bool" where
  "is_break c \<longleftrightarrow> is_Z c \<or> is_P c \<or> is_S c \<or> c = CHR ''_'' \<or> c = CHR ''-''"

text \<open>\<open>[^\p{Z}\p{N}\p{Emoji_Presentation}\p{L}_-]\<close>: every other character.\<close>

definition is_other :: "char \<Rightarrow> bool" where
  "is_other c \<longleftrightarrow>
     \<not> (is_Z c \<or> is_N c \<or> is_emoji_presentation c \<or> is_L c \<or> c = CHR ''_'' \<or> c = CHR ''-'')"

text \<open>
  The class \<open>['']\<close> of the source lists the ASCII apostrophe twice; it is that
  one character.
\<close>

definition is_apostrophe :: "char \<Rightarrow> bool" where
  "is_apostrophe c \<longleftrightarrow> c = CHR 0x27"

definition alts :: "js_string list \<Rightarrow> rx" where
  "alts ws = foldr (\<lambda>w r. Alt (Lit w) r) (butlast ws) (Lit (last ws))"

text \<open>\<open>(?:['](?:d|ll|m|re|s|t|ve))?\<close> and its upper-case form.\<close>

definition contraction_lower :: rx where
  "contraction_lower = Opt (Seq (Chr is_apostrophe) (alts [''d'', ''ll'', ''m'', ''re'', ''s'', ''t'', ''ve'']))"

definition contraction_upper :: rx where
  "contraction_upper = Opt (Seq (Chr is_apostrophe) (alts [''D'', ''LL'', ''M'', ''RE'', ''S'', ''T'', ''VE'']))"

text \<open>\<open>\p{Lu}?\p{Ll}+(?:\<dots>)?(?=[\p{Z}\p{P}\p{S}_-]|\p{Lu}|$)\<close>\<close>

definition word_capitalized :: rx where
  "word_capitalized =
     Seq (Opt (Chr is_Lu)) (Seq (Rep is_Ll 1) (Seq contraction_lower
       (Ahead (Alt (Chr is_break) (Alt (Chr is_Lu) EndInput)))))"

text \<open>
  \<open>(?:\p{Lu}|[^\<dots>])+(?:\<dots>)?(?=[\p{Z}\p{P}\p{S}_-]|\p{Lu}(?:\p{Ll}|[^\<dots>])|$)\<close>
\<close>

definition word_upper :: rx where
  "word_upper =
     Seq (Rep (\<lambda>c. is_Lu c \<or> is_other c) 1) (Seq contraction_upper
       (Ahead (Alt (Chr is_break)
         (Alt (Seq (Chr is_Lu) (Chr (\<lambda>c. is_Ll c \<or> is_other c))) EndInput))))"

text \<open>
  \<open>(?:\p{Lu}?[\p{Ll}\p{L}]+(?:\<dots>)?|\p{Lu}+(?:\<dots>)?|\d*(?:1st|2nd|3rd|(?![123])\dth)(?=\b|\p{Lu})|\d+|\p{Emoji}+)\<close>
\<close>

definition word_other :: rx where
  "word_other =
     Alt (Seq (Opt (Chr is_Lu)) (Seq (Rep (\<lambda>c. is_Ll c \<or> is_L c) 1) contraction_lower))
     (Alt (Seq (Rep is_Lu 1) contraction_upper)
     (Alt (Seq (Rep is_digit 0)
            (Seq (Alt (Lit ''1st'') (Alt (Lit ''2nd'') (Alt (Lit ''3rd'')
                   (Seq (NotAhead (Chr (\<lambda>c. c \<in> set ''123''))) (Seq (Chr is_digit) (Lit ''th''))))))
                 (Ahead (Alt WordBoundary (Chr is_Lu)))))
     (Alt (Rep is_digit 1) (Rep is_emoji 1))))"

definition reWords :: rx where
  "reWords = Alt word_capitalized (Alt word_upper word_other)"

subsection \<open>Words and the case converters\<close>

definition words :: "js_string \<Rightarrow> js_string list" where
  "words str = match_all reWords str 0"

definition join :: "js_string \<Rightarrow> js_string \<Rightarrow> js_string" where
  "join str d = js_lower (js_join d (words str))"

definition toUcFirst :: "js_string \<Rightarrow> js_string" where
  "toUcFirst str = (if isEmpty (JString str) then [] else js_upper [hd str] @ tl str)"

text \<open>
  The callback of \<open>words(str).reduce(\<dots>, "")\<close> applied to the accumulator,
  the element and its index.
\<close>

definition camel_step :: "js_string \<Rightarrow> js_string \<Rightarrow> nat \<Rightarrow> js_string" where
  "camel_step acc next i =
     (if next = [] then acc
      else if i = 0 then js_lower next
      else acc @ js_upper [hd next] @ js_lower (tl next))"

fun camel_reduce :: "js_string \<Rightarrow> nat \<Rightarrow> js_string list \<Rightarrow> js_string" where
  "camel_reduce acc i [] = acc"
| "camel_reduce acc i (next # rest) = camel_reduce (camel_step acc next i) (Suc i) rest"

definition toCamelCase :: "js_string \<Rightarrow> js_string" where
  "toCamelCase str = camel_reduce [] 0 (words str)"

definition toPascalCase :: "js_string \<Rightarrow> js_string" where
  "toPascalCase str = toUcFirst (toCamelCase str)"

definition toSnakeCase :: "js_string \<Rightarrow> js_string" where
  "toSnakeCase str = join str ''_''"

definition toKebabCase :: "js_string \<Rightarrow> js_string" where
  "toKebabCase str = join str ''-''"

definition toSentenceCase :: "js_string \<Rightarrow> js_string" where
  "toSentenceCase str = toUcFirst (join str '' '')"

definition toTitleCase :: "js_string \<Rightarrow> js_string" where
  "toTitleCase str = js_join '' '' (map toUcFirst (words str))"

subsection \<open>Specification\<close>

text \<open>
  The characters a token may hold: anything but a space separator, \<open>_\<close> and
  \<open>-\<close>, the characters the converters put between tokens.
\<close>

definition token_char :: "char \<Rightarrow> bool" where
  "token_char c \<longleftrightarrow> \<not> is_Z c \<and> c \<noteq> CHR ''_'' \<and> c \<noteq> CHR ''-''"

named_theorems rewords_defs "the pattern reWords unfolded"

declare is_break_def [rewords_defs] is_other_def [rewords_defs] is_apostrophe_def [rewords_defs]
  alts_def [rewords_defs] contraction_lower_def [rewords_defs] contraction_upper_def [rewords_defs]
  word_capitalized_def [rewords_defs] word_upper_def [rewords_defs] word_other_def [rewords_defs]
  reWords_def [rewords_defs]

lemmas casing_eval = rewords_defs char_class_defs match_all.simps search.simps run_length_def
  word_at_def words_def join_def toUcFirst_def camel_step_def toCamelCase_def toPascalCase_def
  toSnakeCase_def toKebabCase_def toSentenceCase_def toTitleCase_def lower_char_def
  upper_char_def js_defs

subsection \<open>The tokens of \<open>reWords\<close>\<close>

lemma token_char_gc: "gc c \<notin> {Zs, Pc, Pd} \<Longrightarrow> token_char c"
  by (auto simp: token_char_def is_Z_def)

lemma letter_token_char: "is_Lu c \<or> is_Ll c \<or> is_L c \<Longrightarrow> token_char c"
  by (intro token_char_gc) (auto simp: char_class_defs)

lemma digit_token_char: "is_digit c \<Longrightarrow> token_char c"
  using digit_gc by (intro token_char_gc) simp

lemma emoji_token_char:
  assumes "is_emoji c" shows "token_char c"
proof (rule token_char_gc)
  show "gc c \<notin> {Zs, Pc, Pd}" using emoji_gc [OF assms] by auto
qed

lemma other_token_char: "is_other c \<Longrightarrow> token_char c"
  by (simp add: is_other_def token_char_def)

lemma apostrophe_token_char: "is_apostrophe c \<Longrightarrow> token_char c"
  by (simp add: is_apostrophe_def token_char_def is_Z_def gc_def gc_code_def)

text \<open>The characters of the literals of the pattern (contractions and ordinals).\<close>

lemma literal_token_char: "c \<in> set ''dlmrestvDLMRESTV1234567890hn'' \<Longrightarrow> token_char c"
proof -
  have "\<forall>c \<in> set ''dlmrestvDLMRESTV1234567890hn''. token_char c"
    by (simp add: token_char_def is_Z_def gc_def gc_code_def)
  then show "c \<in> set ''dlmrestvDLMRESTV1234567890hn'' \<Longrightarrow> token_char c" by blast
qed

lemma reWords_chars_ok: "chars_ok token_char reWords"
  by (simp add: reWords_def word_capitalized_def word_upper_def word_other_def
      contraction_lower_def contraction_upper_def alts_def letter_token_char digit_token_char
      emoji_token_char other_token_char apostrophe_token_char literal_token_char)

lemma reWords_min_len: "0 < min_len reWords"
  by (simp add: reWords_def word_capitalized_def word_upper_def word_other_def
      contraction_lower_def contraction_upper_def alts_def)

lemma words_tokens: "w \<in> set (words s) \<Longrightarrow> w \<noteq> [] \<and> (\<forall>c \<in> set w. token_char c)"
  unfolding words_def using reWords_chars_ok reWords_min_len by (rule match_all_tokens)

lemma words_subseq: "subseq (concat (words s)) s"
  using match_all_subseq [of reWords s 0] by (simp add: words_def)

lemma words_Nil_if_no_token_char:
  assumes "\<forall>c \<in> set s. \<not> token_char c"
  shows "words s = []"
proof (cases "words s")
  case (Cons w ws)
  with words_tokens [of w s] obtain c where c: "c \<in> set w" "token_char c"
    by (metis list.set_intros(1) neq_Nil_conv)
  with Cons have "c \<in> set (concat (words s))" by simp
  then obtain c' where "c' \<in> set s" "c = c'" using list_emb_set [OF words_subseq] by blast
  with c assms show ?thesis by blast
qed

subsection \<open>The converters over the tokens\<close>

lemma camel_reduce_tail:
  "\<forall>w \<in> set ws. w \<noteq> [] \<Longrightarrow> camel_reduce acc (Suc i) ws =
     acc @ concat (map (\<lambda>v. js_upper [hd v] @ js_lower (tl v)) ws)"
  by (induction ws arbitrary: acc i) (simp_all add: camel_step_def)

lemma js_lower_token_sep:
  "d \<in> {CHR ''_'', CHR ''-''} \<Longrightarrow> w \<in> set (words s) \<Longrightarrow> d \<notin> set (js_lower w)"
  using words_tokens [of w s] by (intro sep_notin_js_lower) (auto simp: token_char_def)

lemma split_join_words:
  assumes "d \<in> {CHR ''_'', CHR ''-''}"
  shows "js_split_char d (join s [d]) = (if words s = [] then [[]] else map js_lower (words s))"
proof -
  have "js_lower [d] = [d]" using assms by (auto simp: lower_char_def)
  then have "join s [d] = js_join [d] (map js_lower (words s))"
    by (simp add: join_def js_lower_join)
  moreover have "\<forall>w \<in> set (map js_lower (words s)). d \<notin> set w"
    using js_lower_token_sep [OF assms] by auto
  ultimately show ?thesis by (simp add: js_split_char_join)
qed

subsection \<open>Properties of the tokenizer and the converters\<close>

text \<open>C8: Every token of \<open>words\<close> is non-empty and holds no space separator, no underscore and no hyphen.\<close>

theorem words_token_chars:
  "\<forall>w \<in> set (words s). w \<noteq> [] \<and> (\<forall>c \<in> set w. \<not> is_Z c \<and> c \<noteq> CHR ''_'' \<and> c \<noteq> CHR ''-'')"
  using words_tokens [of _ s] by (auto simp: token_char_def)

theorem words_token_chars_witness:
  "words ''a'' = [''a''] \<and> \<not> is_Z CHR ''a'' \<and> CHR ''a'' \<noteq> CHR ''_'' \<and> CHR ''a'' \<noteq> CHR ''-''"
proof -
  have e: "words ''a'' = [''a'']" by (simp add: casing_eval)
  from words_token_chars [of "''a''"] e show ?thesis by simp
qed


text \<open>C10: A string of spaces, underscores and hyphens (the empty string included) has no tokens, and every converter maps it to the empty string.\<close>

theorem separators_only_empty:
  assumes "\<forall>c \<in> set s. is_Z c \<or> c = CHR ''_'' \<or> c = CHR ''-''"
  shows "words s = [] \<and> toCamelCase s = [] \<and> toPascalCase s = [] \<and> toSnakeCase s = [] \<and>
         toKebabCase s = [] \<and> toSentenceCase s = [] \<and> toTitleCase s = []"
proof -
  have "words s = []" using assms by (intro words_Nil_if_no_token_char) (auto simp: token_char_def)
  then show ?thesis
    by (simp add: toCamelCase_def toPascalCase_def toSnakeCase_def toKebabCase_def
        toSentenceCase_def toTitleCase_def join_def toUcFirst_def)
qed

theorem separators_only_empty_witness:
  "is_Z CHR '' '' \<and> words '' _-'' = [] \<and> toCamelCase '' _-'' = [] \<and> toPascalCase '' _-'' = [] \<and>
   toSnakeCase '' _-'' = [] \<and> toKebabCase '' _-'' = [] \<and> toSentenceCase '' _-'' = [] \<and>
   toTitleCase '' _-'' = []"
proof -
  have z: "is_Z CHR '' ''" by (simp add: is_Z_def gc_def gc_code_def)
  then have h: "\<forall>c \<in> set '' _-''. is_Z c \<or> c = CHR ''_'' \<or> c = CHR ''-''" by simp
  show ?thesis using separators_only_empty [OF h] z by blast
qed

text \<open>C11: \<open>toCamelCase\<close> lower-cases the first token and appends every later token with its first character upper-cased and the rest lower-cased.\<close>

theorem toCamelCase_spec:
  "toCamelCase s = (case words s of [] \<Rightarrow> []
     | w # ws \<Rightarrow> js_lower w @ concat (map (\<lambda>v. js_upper [hd v] @ js_lower (tl v)) ws))"
proof (cases "words s")
  case (Cons w ws)
  then have "\<forall>v \<in> set (w # ws). v \<noteq> []" using words_tokens [of _ s] by simp
  with Cons show ?thesis by (simp add: toCamelCase_def camel_step_def camel_reduce_tail)
qed (simp add: toCamelCase_def)

text \<open>C12: Splitting \<open>toSnakeCase s\<close> at \<open>_\<close> (and \<open>toKebabCase s\<close> at \<open>-\<close>) gives back the lower-cased tokens of \<open>s\<close>.\<close>

theorem snake_kebab_split:
  "js_split_char CHR ''_'' (toSnakeCase s) = (if words s = [] then [[]] else map js_lower (words s)) \<and>
   js_split_char CHR ''-'' (toKebabCase s) = (if words s = [] then [[]] else map js_lower (words s))"
  using split_join_words [of "CHR ''_''" s] split_join_words [of "CHR ''-''" s]
  by (simp add: toSnakeCase_def toKebabCase_def)



end
