(* ===== verification/Arrays.thy ===== *)
theory Arrays
  imports Assertions "HOL-Library.Multiset" "HOL-Library.Sublist"
begin

text \<open>
  The array helpers of \<open>src/src/array/index.ts\<close>. An array of the code is a
  list; the helpers that may store \<open>undefined\<close> in it (\<open>move\<close>) or that take
  any value (\<open>toArray\<close>) work on lists of JavaScript values \<open>jsval\<close>, the others
  are generic in the element type. Every number argument (an index, a bound,
  a step, a size) is any \<open>jsnum\<close>: \<open>array[k]\<close> reads an element only when
  \<open>k\<close> names an index (\<open>array_index\<close>), \<open>splice\<close> truncates its start
  (\<open>splice_start\<close>).
\<close>

subsection \<open>The built-ins \<open>splice\<close> and \<open>findIndex\<close>\<close>

text \<open>The relative index of \<open>splice\<close>: from the end when negative, clamped to \<open>[0, len]\<close>.\<close>

definition rel_index :: "int \<Rightarrow> nat \<Rightarrow> nat" where
  "rel_index k len = (if k < 0 then nat (max (int len + k) 0) else min (nat k) len)"

text \<open>
  The start of \<open>splice\<close> for any number: \<open>ToIntegerOrInfinity\<close> (truncation,
  \<open>NaN\<close> is 0), then \<open>rel_index\<close>; \<open>-Infinity\<close> is 0 and \<open>Infinity\<close> the length.
\<close>

definition splice_start :: "jsnum \<Rightarrow> nat \<Rightarrow> nat" where
  "splice_start k len =
     (case k of Finite q \<Rightarrow> rel_index (if q < 0 then \<lceil>q\<rceil> else \<lfloor>q\<rfloor>) len | PosInf \<Rightarrow> len | _ \<Rightarrow> 0)"

text \<open>\<open>array.splice(start, deleteCount, ...items)\<close>: the new contents of the array.\<close>

definition js_splice :: "'a list \<Rightarrow> jsnum \<Rightarrow> int \<Rightarrow> 'a list \<Rightarrow> 'a list" where
  "js_splice xs start dc items =
     (let s = splice_start start (length xs);
          d = min (nat (max dc 0)) (length xs - s)
      in take s xs @ items @ drop (s + d) xs)"

text \<open>\<open>array.findIndex(pred)\<close>: the first index that satisfies \<open>pred\<close>, or \<open>-1\<close>.\<close>

fun js_findIndex :: "('a \<Rightarrow> bool) \<Rightarrow> 'a list \<Rightarrow> int" where
  "js_findIndex p [] = -1"
| "js_findIndex p (x # xs) = (if p x then 0 else (let k = js_findIndex p xs in if k = -1 then -1 else k + 1))"

subsection \<open>\<open>toArray\<close>\<close>

definition toArray :: "jsval \<Rightarrow> jsval list" where
  "toArray v = (let a = (if v = JNull \<or> v = JUndefined then JArray [] else v)
                in case a of JArray xs \<Rightarrow> xs | _ \<Rightarrow> [a])"

subsection \<open>\<open>unique\<close>\<close>

text \<open>
  Without a matcher: \<open>Array.from(new Set(value))\<close>, the values in the order of
  their first insertion into the set (SameValueZero is the model's equality).
\<close>

definition set_insert :: "'a list \<Rightarrow> 'a \<Rightarrow> 'a list" where
  "set_insert acc x = (if x \<in> set acc then acc else acc @ [x])"

definition unique_set :: "'a list \<Rightarrow> 'a list" where
  "unique_set xs = fold (\<lambda>x acc. set_insert acc x) xs []"

text \<open>With a matcher: the \<open>reduce\<close> that pushes an item when no kept element matches it.\<close>

definition unique_step :: "('a \<Rightarrow> 'a \<Rightarrow> bool) \<Rightarrow> 'a list \<Rightarrow> 'a \<Rightarrow> 'a list" where
  "unique_step eq acc item = (if js_findIndex (\<lambda>e. eq e item) acc = -1 then acc @ [item] else acc)"

definition unique_by :: "('a \<Rightarrow> 'a \<Rightarrow> bool) \<Rightarrow> 'a list \<Rightarrow> 'a list" where
  "unique_by eq xs = fold (\<lambda>x acc. unique_step eq acc x) xs []"

text \<open>\<open>equals\<close> is \<open>None\<close> when it is not a function.\<close>

definition unique :: "'a list \<Rightarrow> ('a \<Rightarrow> 'a \<Rightarrow> bool) option \<Rightarrow> 'a list" where
  "unique xs equals = (case equals of None \<Rightarrow> unique_set xs | Some eq \<Rightarrow> unique_by eq xs)"

subsection \<open>\<open>at\<close>, \<open>first\<close>, \<open>last\<close>\<close>

text \<open>
  \<open>None\<close> is \<open>undefined\<close>: the empty array, or an index that is not an
  array index after \<open>index += len\<close> for a negative one (a fraction, \<open>NaN\<close>,
  an infinity, or out of range): \<open>array[index]\<close> reads the property named
  by the number.
\<close>

text \<open>\<open>array[k]\<close> for a number \<open>k\<close>: an element when \<open>k\<close> names an index of the array.\<close>

definition array_index :: "jsnum \<Rightarrow> nat \<Rightarrow> nat option" where
  "array_index k len =
     (case k of
        Finite q \<Rightarrow> if q = of_int \<lfloor>q\<rfloor> \<and> 0 \<le> q \<and> q < of_nat len then Some (nat \<lfloor>q\<rfloor>) else None
      | _ \<Rightarrow> None)"

definition array_at :: "'a list \<Rightarrow> jsnum \<Rightarrow> 'a option" where
  "array_at xs index =
     (let len = length xs in
      if len = 0 then None
      else let i = (case index of Finite q \<Rightarrow> Finite (if q < 0 then q + of_nat len else q) | _ \<Rightarrow> index)
           in map_option (\<lambda>j. xs ! j) (array_index i len))"

definition last_item :: "'a list \<Rightarrow> 'a option" where
  "last_item xs = array_at xs (Finite (-1))"

definition first_item :: "'a list \<Rightarrow> 'a option" where
  "first_item xs = array_at xs (Finite 0)"

subsection \<open>\<open>range\<close>\<close>




subsection \<open>\<open>toFiltered\<close>\<close>

text \<open>
  The predicate receives the item, its index and the array as it is at that
  moment of the loop. \<open>filter_down p i arr\<close> runs the iterations for the
  indices \<open>i - 1\<close> down to \<open>0\<close>.
\<close>

fun filter_down :: "('a \<Rightarrow> nat \<Rightarrow> 'a list \<Rightarrow> bool) \<Rightarrow> nat \<Rightarrow> 'a list \<Rightarrow> 'a list" where
  "filter_down p 0 arr = arr"
| "filter_down p (Suc i) arr =
     filter_down p i (if \<not> p (arr ! i) i arr then js_splice arr (Finite (of_nat i)) 1 [] else arr)"

definition toFiltered :: "'a list \<Rightarrow> ('a \<Rightarrow> nat \<Rightarrow> 'a list \<Rightarrow> bool) \<Rightarrow> 'a list" where
  "toFiltered arr p = filter_down p (length arr) arr"

subsection \<open>\<open>move\<close>\<close>

text \<open>
  \<open>array[from]\<close> is \<open>undefined\<close> unless \<open>from\<close> names an index of the array
  (a negative, fractional or \<open>NaN\<close> one does not), while \<open>splice\<close> truncates
  its start and counts a negative one from the end; \<open>from === to\<close> is false
  for \<open>NaN\<close>.
\<close>

definition move :: "jsval list \<Rightarrow> jsnum \<Rightarrow> jsnum \<Rightarrow> jsval list" where
  "move arr from to =
     (if isEmptyArray (JArray arr) then arr
      else if num_strict_eq from to then arr
      else let item = (case array_index from (length arr) of Some i \<Rightarrow> arr ! i | None \<Rightarrow> JUndefined);
               arr' = js_splice arr from 1 []
           in js_splice arr' to 0 [item])"

subsection \<open>\<open>chunk\<close>\<close>

text \<open>
  \<open>Math.floor(index / size)\<close> as an array index, for a size that is any
  number: \<open>None\<close> when it is not one (\<open>NaN\<close> for \<open>0 / 0\<close>, \<open>Infinity\<close> for
  \<open>index / 0\<close>, a negative number for a negative size and a positive index);
  \<open>acc[k]\<close> is then an ordinary property of the array, not one of its
  elements. \<open>0 / size\<close> is \<open>-0\<close> for a negative size and \<open>index / \<infinity>\<close> is
  \<open>\<plusminus>0\<close>: both are the index \<open>0\<close>.
\<close>

definition chunk_key :: "nat \<Rightarrow> jsnum \<Rightarrow> nat option" where
  "chunk_key index sz =
     (case sz of
        Finite q \<Rightarrow> if q = 0 then None
                    else let k = \<lfloor>of_nat index / q\<rfloor> in if 0 \<le> k then Some (nat k) else None
      | NaN \<Rightarrow> None
      | _ \<Rightarrow> Some 0)"

text \<open>
  The callback of the \<open>reduce\<close>, on a sparse array: \<open>None\<close> is a hole. A hole
  is falsy, so \<open>!acc[k]\<close> puts a new group there; assigning past the end
  extends the array, with holes in between.
\<close>

definition chunk_step :: "jsnum \<Rightarrow> 'a list option list \<Rightarrow> 'a \<Rightarrow> nat \<Rightarrow> 'a list option list" where
  "chunk_step sz acc item index =
     (case chunk_key index sz of
        None \<Rightarrow> acc
      | Some k \<Rightarrow> if k < length acc
                  then acc[k := Some ((case acc ! k of None \<Rightarrow> [] | Some c \<Rightarrow> c) @ [item])]
                  else acc @ replicate (k - length acc) None @ [Some [item]])"

fun chunk_fold :: "jsnum \<Rightarrow> 'a list option list \<Rightarrow> nat \<Rightarrow> 'a list \<Rightarrow> 'a list option list" where
  "chunk_fold sz acc i [] = acc"
| "chunk_fold sz acc i (x # xs) = chunk_fold sz (chunk_step sz acc x i) (Suc i) xs"

definition chunk :: "'a list \<Rightarrow> jsnum \<Rightarrow> 'a list option list" where
  "chunk arr sz = chunk_fold sz [] 0 arr"

subsection \<open>Reference definitions\<close>

text \<open>
  \<open>Array.prototype.filter\<close> with a predicate of the item and its index: the
  reference that \<open>toFiltered\<close> is compared with.
\<close>

definition filter_idx :: "('a \<Rightarrow> nat \<Rightarrow> bool) \<Rightarrow> 'a list \<Rightarrow> 'a list" where
  "filter_idx q xs = map fst (filter (\<lambda>(x, i). q x i) (zip xs [0..<length xs]))"

text \<open>\<open>Array.prototype.flat()\<close> on a sparse array of arrays: the elements of the groups in index order; holes are skipped.\<close>

definition array_flat :: "'a list option list \<Rightarrow> 'a list" where
  "array_flat acc = concat (map (\<lambda>e. case e of None \<Rightarrow> [] | Some c \<Rightarrow> c) acc)"

text \<open>The partition of a list into consecutive groups of \<open>n\<close> elements, the last one possibly shorter.\<close>

function chunks_ref :: "nat \<Rightarrow> 'a list \<Rightarrow> 'a list list" where
  "chunks_ref n xs = (if n = 0 \<or> xs = [] then [] else take n xs # chunks_ref n (drop n xs))"
  by pat_completeness auto
termination
  by (relation "measure (\<lambda>(n, xs). length xs)") auto

declare chunks_ref.simps [simp del]

subsection \<open>Lemmas on \<open>unique\<close>, \<open>at\<close> and the built-ins\<close>

lemma js_findIndex_cases: "0 \<le> js_findIndex p xs \<or> js_findIndex p xs = -1"
  by (induction xs) (auto simp: Let_def)

lemma js_findIndex_eq_neg1: "js_findIndex p xs = -1 \<longleftrightarrow> (\<forall>x \<in> set xs. \<not> p x)"
proof (induction xs)
  case (Cons x xs)
  then show ?case using js_findIndex_cases [of p xs] by (auto simp: Let_def)
qed simp

lemma unique_set_snoc: "unique_set (xs @ [x]) = set_insert (unique_set xs) x"
  by (simp add: unique_set_def)

lemma unique_by_snoc: "unique_by eq (xs @ [x]) = unique_step eq (unique_by eq xs) x"
  by (simp add: unique_by_def)

lemma unique_set_first_occurrences: "unique_set xs = rev (remdups (rev xs))"
proof (induction xs rule: rev_induct)
  case (snoc x xs)
  then show ?case by (simp add: unique_set_snoc set_insert_def)
qed (simp add: unique_set_def)

lemma unique_by_eq: "unique_by (=) xs = unique_set xs"
proof (induction xs rule: rev_induct)
  case (snoc x xs)
  then show ?case
    by (auto simp: unique_set_snoc unique_by_snoc unique_step_def set_insert_def js_findIndex_eq_neg1)
qed (simp add: unique_set_def unique_by_def)

lemma unique_by_props:
  assumes refl: "\<And>x. eq x x"
  shows "(\<forall>x \<in> set xs. \<exists>y \<in> set (unique_by eq xs). eq y x) \<and> subseq (unique_by eq xs) xs \<and>
         sorted_wrt (\<lambda>a b. \<not> eq a b) (unique_by eq xs)"
proof (induction xs rule: rev_induct)
  case Nil
  then show ?case by (simp add: unique_by_def)
next
  case (snoc x xs)
  show ?case
  proof (cases "\<exists>e \<in> set (unique_by eq xs). eq e x")
    case True
    then have "unique_by eq (xs @ [x]) = unique_by eq xs"
      by (auto simp: unique_by_snoc unique_step_def js_findIndex_eq_neg1)
    with snoc True show ?thesis by (auto intro: subseq_append')
  next
    case False
    then have "unique_by eq (xs @ [x]) = unique_by eq xs @ [x]"
      by (simp add: unique_by_snoc unique_step_def js_findIndex_eq_neg1)
    with snoc False refl show ?thesis by (auto simp: sorted_wrt_append)
  qed
qed

lemma array_index_int [simp]:
  "array_index (Finite (of_int k)) len = (if 0 \<le> k \<and> k < int len then Some (nat k) else None)"
  by (simp add: array_index_def)

lemma array_index_nat [simp]:
  "array_index (Finite (of_nat i)) len = (if i < len then Some i else None)"
  using array_index_int [of "int i" len] by simp

lemma array_index_not_integral: "q \<noteq> of_int \<lfloor>q\<rfloor> \<Longrightarrow> array_index (Finite q) len = None"
  by (simp add: array_index_def)

lemma array_index_Some: "array_index k len = Some i \<Longrightarrow> k = Finite (of_nat i) \<and> i < len"
  by (cases k) (auto simp: array_index_def split: if_splits)

lemma array_at_int:
  "array_at xs (Finite (of_int i)) =
     (if - int (length xs) \<le> i \<and> i < int (length xs)
      then Some (xs ! nat (if i < 0 then i + int (length xs) else i)) else None)"
proof (cases "i < 0")
  case True
  have "array_index (Finite (of_int i + of_nat (length xs))) (length xs) =
          (if 0 \<le> i + int (length xs) \<and> i + int (length xs) < int (length xs)
           then Some (nat (i + int (length xs))) else None)"
    using array_index_int [of "i + int (length xs)" "length xs"] by simp
  then show ?thesis using True by (auto simp: array_at_def Let_def)
next
  case False
  then show ?thesis by (auto simp: array_at_def Let_def)
qed

lemma array_at_not_integral:
  "q \<noteq> of_int \<lfloor>q\<rfloor> \<Longrightarrow> array_at xs (Finite q) = None"
proof -
  assume q: "q \<noteq> of_int \<lfloor>q\<rfloor>"
  have "q + of_nat (length xs) \<noteq> of_int \<lfloor>q + of_nat (length xs)\<rfloor>"
  proof
    assume "q + of_nat (length xs) = of_int \<lfloor>q + of_nat (length xs)\<rfloor>"
    then have "q = of_int (\<lfloor>q + of_nat (length xs)\<rfloor> - int (length xs))" by simp
    then show False using q by (metis floor_of_int)
  qed
  then show ?thesis using q by (simp add: array_at_def Let_def array_index_not_integral)
qed

lemma first_last_item:
  "first_item xs = (case xs of [] \<Rightarrow> None | x # _ \<Rightarrow> Some x) \<and>
   last_item xs = (if xs = [] then None else Some (last xs))"
proof
  show "first_item xs = (case xs of [] \<Rightarrow> None | x # _ \<Rightarrow> Some x)"
    using array_at_int [of xs 0] by (cases xs) (simp_all add: first_item_def)
  show "last_item xs = (if xs = [] then None else Some (last xs))"
    using array_at_int [of xs "-1"] by (cases xs rule: rev_cases) (simp_all add: last_item_def nth_append)
qed

subsection \<open>Lemmas on \<open>range\<close> and \<open>toFiltered\<close>\<close>

lemma num_lt_Finite [simp]: "num_lt (Finite a) (Finite b) \<longleftrightarrow> a < b"
  by auto







lemma splice_start_int [simp]: "splice_start (Finite (of_int k)) len = rel_index k len"
  by (simp add: splice_start_def)

lemma splice_start_nat [simp]: "splice_start (Finite (of_nat i)) len = min i len"
  using splice_start_int [of "int i" len] by (simp add: rel_index_def)

lemma rel_index_le: "rel_index k len \<le> len"
  by (simp add: rel_index_def nat_le_iff)

lemma splice_start_le: "splice_start k len \<le> len"
  by (cases k) (simp_all add: splice_start_def rel_index_le)

lemma js_splice_remove:
  "i < length xs \<Longrightarrow> js_splice xs (Finite (of_nat i)) 1 [] = take i xs @ drop (Suc i) xs"
  by (simp add: js_splice_def)

lemma js_splice_insert:
  "i \<le> length xs \<Longrightarrow> js_splice xs (Finite (of_nat i)) 0 [x] = take i xs @ x # drop i xs"
  by (simp add: js_splice_def)

lemma mset_js_splice_delete:
  "mset (js_splice xs s 1 []) =
     (if splice_start s (length xs) < length xs then mset xs - {#xs ! splice_start s (length xs)#} else mset xs)"
proof -
  let ?r = "splice_start s (length xs)"
  show ?thesis
  proof (cases "?r < length xs")
    case True
    then have "js_splice xs s 1 [] = take ?r xs @ drop (Suc ?r) xs" by (simp add: js_splice_def Let_def)
    moreover have "mset xs = mset (take ?r xs @ drop (Suc ?r) xs) + {#xs ! ?r#}"
      using True by (subst id_take_nth_drop [OF True]) simp
    ultimately show ?thesis using True by simp
  next
    case False
    then show ?thesis by (simp add: js_splice_def)
  qed
qed

lemma length_js_splice_delete:
  "length (js_splice xs s 1 []) = (if splice_start s (length xs) < length xs then length xs - 1 else length xs)"
  using splice_start_le [of s "length xs"] by (auto simp: js_splice_def Let_def min_def)

lemma mset_insert_at: "mset (take s xs @ x # drop s xs) = add_mset x (mset xs)"
proof -
  have "mset xs = mset (take s xs) + mset (drop s xs)" by (metis append_take_drop_id mset_append)
  then show ?thesis by simp
qed

lemma js_splice_insert_one:
  "mset (js_splice xs t 0 [x]) = mset xs + {#x#} \<and> length (js_splice xs t 0 [x]) = Suc (length xs)"
proof -
  have "js_splice xs t 0 [x] = take (splice_start t (length xs)) xs @ x # drop (splice_start t (length xs)) xs"
    by (simp add: js_splice_def Let_def)
  then show ?thesis by (simp only: mset_insert_at) (simp add: splice_start_le)
qed

lemma filter_idx_snoc: "filter_idx q (ys @ [y]) = filter_idx q ys @ (if q y (length ys) then [y] else [])"
  by (simp add: filter_idx_def)

lemma filter_down_prefix:
  assumes pre: "\<And>x j a b. take (Suc j) a = take (Suc j) b \<Longrightarrow> p x j a = p x j b"
  shows "length ys = i \<Longrightarrow> prefix ys xs \<Longrightarrow> filter_down p i (ys @ r) = filter_idx (\<lambda>x j. p x j xs) ys @ r"
proof (induction i arbitrary: ys r)
  case 0
  then show ?case by (simp add: filter_idx_def)
next
  case (Suc i)
  then obtain ys' y where ys: "ys = ys' @ [y]" and len: "length ys' = i"
    by (metis length_Suc_conv_rev)
  have pre': "prefix ys' xs" using Suc.prems(2) ys by (simp add: append_prefixD)
  have nth: "(ys' @ y # r) ! i = y" using len by (simp add: nth_append)
  have "take (Suc i) (ys' @ y # r) = ys' @ [y]" using len by simp
  moreover have "take (Suc i) xs = ys' @ [y]"
  proof -
    obtain zs where "xs = ys' @ [y] @ zs" using Suc.prems(2) ys by (auto elim: prefixE)
    then show ?thesis using len by simp
  qed
  ultimately have view: "p y i (ys' @ y # r) = p y i xs" by (intro pre) simp
  show ?case
  proof (cases "p y i xs")
    case True
    then show ?thesis using Suc.IH [OF len pre', of "y # r"] ys len nth view by (simp add: filter_idx_snoc)
  next
    case False
    have "js_splice (ys' @ y # r) (Finite (of_nat i)) 1 [] = ys' @ r" using len by (simp add: js_splice_remove)
    then show ?thesis using False Suc.IH [OF len pre', of r] ys len nth view by (simp add: filter_idx_snoc)
  qed
qed

lemma move_in_range:
  assumes fi: "array_index from (length arr) = Some f" and ti: "array_index to (length arr) = Some t"
  shows "move arr from to =
           (let arr' = take f arr @ drop (Suc f) arr in take t arr' @ arr ! f # drop t arr')"
proof -
  have ff: "from = Finite (of_nat f)" "f < length arr" and tt: "to = Finite (of_nat t)" "t < length arr"
    using array_index_Some [OF fi] array_index_Some [OF ti] by simp_all
  have ne: "arr \<noteq> []" using ff by auto
  show ?thesis
  proof (cases "f = t")
    case True
    have "take f arr @ arr ! f # drop (Suc f) arr = arr"
      using ff by (simp add: id_take_nth_drop [symmetric])
    with True show ?thesis using ff tt ne
      by (simp add: move_def isEmptyArray_def isArray_def num_strict_eq_def Let_def)
  next
    case False
    define arr' where "arr' = take f arr @ drop (Suc f) arr"
    have t: "t \<le> length arr'" using ff tt by (simp add: arr'_def)
    have "js_splice arr from 1 [] = arr'" using ff by (simp add: js_splice_remove arr'_def)
    moreover have "js_splice arr' to 0 [arr ! f] = take t arr' @ arr ! f # drop t arr'"
      using t tt by (simp add: js_splice_insert)
    moreover have "\<not> num_strict_eq from to" using False ff tt by (simp add: num_strict_eq_def)
    ultimately show ?thesis
      using ne fi by (simp add: move_def isEmptyArray_def isArray_def Let_def arr'_def del: js_splice_def)
  qed
qed

subsection \<open>Lemmas on \<open>chunk\<close>\<close>

lemma chunks_ref_Nil [simp]: "chunks_ref n [] = []"
  by (simp add: chunks_ref.simps)

lemma chunks_ref_short: "0 < n \<Longrightarrow> xs \<noteq> [] \<Longrightarrow> length xs \<le> n \<Longrightarrow> chunks_ref n xs = [xs]"
  by (simp add: chunks_ref.simps [of n xs])

lemma chunks_ref_long:
  "0 < n \<Longrightarrow> n \<le> length xs \<Longrightarrow> chunks_ref n xs = take n xs # chunks_ref n (drop n xs)"
  by (auto simp: chunks_ref.simps [of n xs])

lemma chunks_ref_snoc:
  assumes n: "0 < n"
  shows "chunks_ref n (ys @ [x]) =
           (if length ys mod n = 0 then chunks_ref n ys @ [[x]]
            else butlast (chunks_ref n ys) @ [last (chunks_ref n ys) @ [x]])"
proof (induction "length ys" arbitrary: ys rule: less_induct)
  case less
  show ?case
  proof (cases "n \<le> length ys")
    case False
    show ?thesis
    proof (cases "ys = []")
      case True
      then show ?thesis using n by (simp add: chunks_ref_short)
    next
      case ne: False
      then have "length ys mod n \<noteq> 0" using False by simp
      then show ?thesis using n ne False by (simp add: chunks_ref_short)
    qed
  next
    case True
    have tk: "take n (ys @ [x]) = take n ys" and dr: "drop n (ys @ [x]) = drop n ys @ [x]"
      using True by simp_all
    have md: "length (drop n ys) mod n = length ys mod n"
      using True by (simp add: le_mod_geq)
    show ?thesis
    proof (cases "drop n ys = []")
      case True
      with \<open>n \<le> length ys\<close> have "length ys = n" by simp
      then show ?thesis using n True tk dr by (simp add: chunks_ref_long chunks_ref_short)
    next
      case False
      have IH: "chunks_ref n (drop n ys @ [x]) =
          (if length ys mod n = 0 then chunks_ref n (drop n ys) @ [[x]]
           else butlast (chunks_ref n (drop n ys)) @ [last (chunks_ref n (drop n ys)) @ [x]])"
        using less [of "drop n ys"] n False md by simp
      have "chunks_ref n (drop n ys) \<noteq> []" using False n by (simp add: chunks_ref.simps [of n "drop n ys"])
      then show ?thesis using n True tk dr IH by (simp add: chunks_ref_long)
    qed
  qed
qed

lemma length_chunks_ref:
  assumes n: "0 < n"
  shows "length (chunks_ref n ys) = (if length ys mod n = 0 then length ys div n else Suc (length ys div n))"
proof (induction "length ys" arbitrary: ys rule: less_induct)
  case less
  show ?case
  proof (cases "n \<le> length ys")
    case True
    then have "length (drop n ys) < length ys" using n by simp
    then show ?thesis using less [of "drop n ys"] True n
      by (simp add: chunks_ref_long le_mod_geq le_div_geq)
  next
    case False
    then show ?thesis using n by (cases "ys = []") (simp_all add: chunks_ref_short)
  qed
qed

lemma chunk_key_int:
  "0 < sz \<Longrightarrow> chunk_key i (Finite (of_int sz)) = Some (i div nat sz)"
proof -
  assume n: "0 < sz"
  have "\<lfloor>of_nat i / (of_int sz :: rat)\<rfloor> = int i div sz"
    using floor_divide_of_int_eq [of "int i" sz] by simp
  moreover have "int i div sz = int (i div nat sz)" using n by (simp add: of_nat_div)
  ultimately show ?thesis using n by (simp add: chunk_key_def)
qed


lemma chunk_step_ref:
  assumes n: "0 < sz"
  shows "chunk_step (Finite (of_int sz)) (map Some (chunks_ref (nat sz) ys)) x (length ys) =
           map Some (chunks_ref (nat sz) (ys @ [x]))"
proof -
  let ?n = "nat sz" and ?acc = "chunks_ref (nat sz) ys"
  have key: "chunk_key (length ys) (Finite (of_int sz)) = Some (length ys div ?n)"
    using chunk_key_int [OF n] .
  show ?thesis
  proof (cases "length ys mod ?n = 0")
    case True
    then have "length ?acc = length ys div ?n" using n length_chunks_ref [of ?n ys] by simp
    then show ?thesis using True key n by (simp add: chunk_step_def chunks_ref_snoc)
  next
    case False
    then have len: "length ?acc = Suc (length ys div ?n)" using n length_chunks_ref [of ?n ys] by simp
    obtain bs l where bs: "?acc = bs @ [l]" using len by (cases ?acc rule: rev_cases) auto
    with len have "length bs = length ys div ?n" by simp
    then have "(map Some ?acc)[length ys div ?n := Some (l @ [x])] = map Some (butlast ?acc @ [last ?acc @ [x]])"
      unfolding bs by (simp add: list_update_append)
    then show ?thesis using False key n len bs by (simp add: chunk_step_def chunks_ref_snoc nth_append)
  qed
qed

lemma chunk_fold_ref:
  "0 < sz \<Longrightarrow> chunk_fold (Finite (of_int sz)) (map Some (chunks_ref (nat sz) ys)) (length ys) zs =
     map Some (chunks_ref (nat sz) (ys @ zs))"
proof (induction zs arbitrary: ys)
  case (Cons z zs)
  then show ?case using chunk_step_ref [of sz ys z] Cons.IH [of "ys @ [z]"] by simp
qed simp

lemma chunk_eq_ref: "0 < sz \<Longrightarrow> chunk xs (Finite (of_int sz)) = map Some (chunks_ref (nat sz) xs)"
  using chunk_fold_ref [of sz "[]" xs] by (simp add: chunk_def)

lemma chunk_fold_no_key:
  "(\<And>j. i \<le> j \<Longrightarrow> chunk_key j sz = None) \<Longrightarrow> chunk_fold sz acc i xs = acc"
  by (induction xs arbitrary: i) (simp_all add: chunk_step_def)

lemma chunk_fold_key0:
  "(\<And>j. chunk_key j sz = Some 0) \<Longrightarrow> chunk_fold sz [Some c] i xs = [Some (c @ xs)]"
  by (induction xs arbitrary: c i) (simp_all add: chunk_step_def)

lemma concat_chunks_ref: "0 < n \<Longrightarrow> concat (chunks_ref n xs) = xs"
proof (induction "length xs" arbitrary: xs rule: less_induct)
  case less
  show ?case
  proof (cases "n \<le> length xs")
    case True
    then have "concat (chunks_ref n (drop n xs)) = drop n xs" using less by simp
    with True less.prems show ?thesis by (simp add: chunks_ref_long)
  next
    case False
    then show ?thesis using less.prems by (cases "xs = []") (simp_all add: chunks_ref_short)
  qed
qed

lemma chunks_ref_bounds:
  "0 < n \<Longrightarrow> c \<in> set (chunks_ref n xs) \<Longrightarrow> c \<noteq> [] \<and> length c \<le> n"
proof (induction "length xs" arbitrary: xs rule: less_induct)
  case less
  show ?case
  proof (cases "n \<le> length xs")
    case True
    have "c = take n xs \<or> c \<in> set (chunks_ref n (drop n xs))"
      using less.prems True by (simp add: chunks_ref_long)
    then show ?thesis
    proof
      assume "c \<in> set (chunks_ref n (drop n xs))"
      then show ?thesis using less.hyps [of "drop n xs"] less.prems(1) True by simp
    qed (use True less.prems in auto)
  next
    case False
    then show ?thesis using less.prems by (cases "xs = []") (auto simp: chunks_ref_short)
  qed
qed

lemma chunks_ref_butlast:
  "0 < n \<Longrightarrow> c \<in> set (butlast (chunks_ref n xs)) \<Longrightarrow> length c = n"
proof (induction "length xs" arbitrary: xs rule: less_induct)
  case less
  show ?case
  proof (cases "n \<le> length xs")
    case True
    then have eq: "chunks_ref n xs = take n xs # chunks_ref n (drop n xs)"
      using less.prems by (simp add: chunks_ref_long)
    show ?thesis
    proof (cases "chunks_ref n (drop n xs) = []")
      case True
      then show ?thesis using less.prems eq by simp
    next
      case False
      then have "c = take n xs \<or> c \<in> set (butlast (chunks_ref n (drop n xs)))"
        using less.prems eq by simp
      then show ?thesis
      proof
        assume "c \<in> set (butlast (chunks_ref n (drop n xs)))"
        then show ?thesis using less.hyps [of "drop n xs"] less.prems(1) \<open>n \<le> length xs\<close> by simp
      qed (use True in simp)
    qed
  next
    case False
    then show ?thesis using less.prems by (cases "xs = []") (simp_all add: chunks_ref_short)
  qed
qed

lemma array_flat_snoc [simp]: "array_flat (acc @ [e]) = array_flat acc @ (case e of None \<Rightarrow> [] | Some c \<Rightarrow> c)"
  by (simp add: array_flat_def)

lemma array_flat_replicate_None [simp]: "array_flat (acc @ replicate k None @ es) = array_flat acc @ array_flat es"
  by (simp add: array_flat_def)





subsection \<open>Properties of the array helpers\<close>

text \<open>
  C17: without a matcher \<open>unique\<close> keeps the first occurrence of every value,
  in order; with the matcher \<open>(=)\<close> the \<open>findIndex\<close> loop gives the same
  result as the set.
\<close>

theorem unique_first_occurrences:
  "unique xs None = rev (remdups (rev xs)) \<and> unique xs (Some (=)) = unique xs None"
  by (simp add: unique_def unique_set_first_occurrences unique_by_eq)

text \<open>
  C18: with a reflexive matcher, every item is matched by a kept item, the kept
  items are a subsequence of the input, and no kept item matches a later one.
\<close>

theorem unique_matcher:
  assumes "\<forall>x. eq x x"
  shows "(\<forall>x \<in> set xs. \<exists>y \<in> set (unique xs (Some eq)). eq y x) \<and> subseq (unique xs (Some eq)) xs \<and>
         sorted_wrt (\<lambda>a b. \<not> eq a b) (unique xs (Some eq))"
  using unique_by_props [of eq xs] assms by (simp add: unique_def)

theorem unique_matcher_witness:
  "unique [1, 2, 3 :: nat] (Some (\<lambda>a b. a mod 2 = b mod 2)) = [1, 2] \<and>
   sorted_wrt (\<lambda>a b. \<not> a mod 2 = b mod 2) [1, 2 :: nat]"
proof -
  have u: "unique [1, 2, 3 :: nat] (Some (\<lambda>a b. a mod 2 = b mod 2)) = [1, 2]"
    by (simp add: unique_def unique_by_def unique_step_def)
  from unique_matcher [of "\<lambda>a b. (a :: nat) mod 2 = b mod 2" "[1, 2, 3]"] u show ?thesis by simp
qed

text \<open>
  C19: \<open>at\<close> returns the element at a non-negative integer index or counted
  from the end for a negative one, \<open>undefined\<close> outside \<open>[-len, len)\<close>, and
  \<open>undefined\<close> for a fractional index, \<open>NaN\<close> or an infinity (unlike
  \<open>Array.prototype.at\<close>, which truncates); \<open>first\<close> and \<open>last\<close> return the
  first and the last element, \<open>undefined\<close> for the empty array.
\<close>

theorem at_first_last:
  "array_at xs (Finite (of_int i)) =
     (if - int (length xs) \<le> i \<and> i < int (length xs)
      then Some (xs ! nat (if i < 0 then i + int (length xs) else i)) else None) \<and>
   (q \<noteq> of_int \<lfloor>q\<rfloor> \<longrightarrow> array_at xs (Finite q) = None) \<and>
   array_at xs NaN = None \<and> array_at xs PosInf = None \<and> array_at xs NegInf = None \<and>
   first_item xs = (case xs of [] \<Rightarrow> None | x # _ \<Rightarrow> Some x) \<and>
   last_item xs = (if xs = [] then None else Some (last xs))"
  using array_at_int [of xs i] array_at_not_integral [of q xs] first_last_item [of xs]
  by (simp add: array_at_def Let_def array_index_def)

theorem at_first_last_witness:
  "array_at [JNull, JBool True] (Finite (1 / 2)) = None \<and> array_at [JNull, JBool True] (Finite (-1)) = Some (JBool True)"
proof -
  have "\<lfloor>1 / 2 :: rat\<rfloor> = 0" by (simp add: floor_eq_iff)
  then have "(1 / 2 :: rat) \<noteq> of_int \<lfloor>1 / 2 :: rat\<rfloor>" by simp
  then show ?thesis using at_first_last [of "[JNull, JBool True]" "-1" "1 / 2"] by simp
qed





text \<open>
  C22: for a predicate that reads the array only up to the current index
  (\<open>(x, i, a) => a.indexOf(x) === i\<close>, or one that ignores the array),
  \<open>toFiltered\<close> keeps exactly the elements that \<open>Array.prototype.filter\<close>
  keeps: the removals of the loop only touch the indices above the current one.
\<close>

theorem toFiltered_eq_filter:
  assumes "\<forall>x i a b. take (Suc i) a = take (Suc i) b \<longrightarrow> p x i a = p x i b"
  shows "toFiltered xs p = filter_idx (\<lambda>x i. p x i xs) xs"
proof -
  have "\<And>x j a b. take (Suc j) a = take (Suc j) b \<Longrightarrow> p x j a = p x j b" using assms by blast
  from filter_down_prefix [OF this, where ys = xs and xs = xs and i = "length xs" and r = "[]"] show ?thesis by (simp add: toFiltered_def)
qed

theorem toFiltered_eq_filter_witness:
  "toFiltered [1, 2, 1, 3 :: nat] (\<lambda>x i a. x \<notin> set (take i a)) = [1, 2, 3]"
proof -
  have "\<forall>(x :: nat) i (a :: nat list) b. take (Suc i) a = take (Suc i) b \<longrightarrow>
          (x \<notin> set (take i a)) = (x \<notin> set (take i b))"
  proof (intro allI impI)
    fix x :: nat and i and a b :: "nat list"
    assume h: "take (Suc i) a = take (Suc i) b"
    have "take i a = take i b" using arg_cong [OF h, of "take i"] by simp
    then show "(x \<notin> set (take i a)) = (x \<notin> set (take i b))" by simp
  qed
  from toFiltered_eq_filter [OF this, of "[1, 2, 1, 3]"] show ?thesis
    by (simp add: filter_idx_def upt_rec)
qed


text \<open>
  C24: for indices inside the array, \<open>move\<close> permutes the array and puts the
  element of \<open>from\<close> at \<open>to\<close>.
\<close>

theorem move_permutes:
  assumes fi: "array_index from (length arr) = Some f" and ti: "array_index to (length arr) = Some t"
  shows "mset (move arr from to) = mset arr \<and> move arr from to ! t = arr ! f"
proof -
  define arr' where "arr' = take f arr @ drop (Suc f) arr"
  have f: "f < length arr" and t: "t \<le> length arr'"
    using array_index_Some [OF fi] array_index_Some [OF ti] by (auto simp: arr'_def)
  have mv: "move arr from to = take t arr' @ arr ! f # drop t arr'"
    using move_in_range [OF fi ti] by (simp add: Let_def arr'_def)
  have "mset arr = mset arr' + {#arr ! f#}"
    using f by (subst id_take_nth_drop [OF f]) (simp add: arr'_def)
  moreover have "mset (take t arr') + mset (drop t arr') = mset arr'"
    by (metis append_take_drop_id mset_append)
  ultimately have "mset (move arr from to) = mset arr"
    unfolding mv by simp
  moreover have "move arr from to ! t = arr ! f"
    using t unfolding mv by (simp add: nth_append)
  ultimately show ?thesis by blast
qed

theorem move_permutes_witness:
  "move [JNull, JBool True, JBool False] (Finite 0) (Finite 2) = [JBool True, JBool False, JNull] \<and>
   mset (move [JNull, JBool True, JBool False] (Finite 0) (Finite 2)) = mset [JNull, JBool True, JBool False]"
proof -
  have h0: "array_index (Finite 0) (length [JNull, JBool True, JBool False]) = Some 0"
    and h2: "array_index (Finite 2) (length [JNull, JBool True, JBool False]) = Some 2"
    using array_index_nat [of 0] array_index_nat [of 2] by simp_all
  show ?thesis using move_permutes [OF h0 h2] move_in_range [OF h0 h2] by simp
qed

text \<open>
  C25: a \<open>from\<close> that is not an index of the array (negative, fractional,
  \<open>NaN\<close>, infinite or too large) is read as \<open>undefined\<close> by \<open>array[from]\<close>,
  while \<open>splice\<close> truncates it and counts a negative one from the end: the
  element at that position, if there is one, is lost and \<open>undefined\<close> is
  inserted; for \<open>from \<ge> len\<close> nothing is removed and the array grows. For
  \<open>from = to = NaN\<close> (\<open>NaN !== NaN\<close>) the first element becomes \<open>undefined\<close>.
\<close>

theorem move_out_of_range_from:
  assumes ne: "arr \<noteq> []" and ft: "\<not> num_strict_eq from to" and out: "array_index from (length arr) = None"
  shows "mset (move arr from to) =
           (if splice_start from (length arr) < length arr
            then mset arr - {#arr ! splice_start from (length arr)#} else mset arr) + {#JUndefined#} \<and>
         length (move arr from to) =
           (if splice_start from (length arr) < length arr then length arr else Suc (length arr)) \<and>
         (- int (length arr) \<le> k \<and> k < 0 \<longrightarrow> splice_start (Finite (of_int k)) (length arr) = nat (int (length arr) + k)) \<and>
         move arr NaN NaN = JUndefined # tl arr"
proof -
  let ?r = "splice_start from (length arr)" and ?a = "js_splice arr from 1 []"
  have mv: "move arr from to = js_splice ?a to 0 [JUndefined]"
    using ne ft out by (simp add: move_def isEmptyArray_def isArray_def Let_def)
  have "mset (move arr from to) = (if ?r < length arr then mset arr - {#arr ! ?r#} else mset arr) + {#JUndefined#}"
    using mv mset_js_splice_delete [of arr "from"] js_splice_insert_one [of ?a "to" JUndefined] by simp
  moreover have "length (move arr from to) = (if ?r < length arr then length arr else Suc (length arr))"
    using mv ne length_js_splice_delete [of arr "from"] js_splice_insert_one [of ?a "to" JUndefined] by simp
  moreover have "- int (length arr) \<le> k \<and> k < 0 \<longrightarrow> splice_start (Finite (of_int k)) (length arr) = nat (int (length arr) + k)"
    by (simp add: rel_index_def)
  moreover have "move arr NaN NaN = JUndefined # tl arr"
    using ne by (cases arr) (simp_all add: move_def isEmptyArray_def isArray_def num_strict_eq_def array_index_def
        js_splice_def splice_start_def)
  ultimately show ?thesis by blast
qed

theorem move_out_of_range_from_witness:
  "move [JNull, JBool True, JBool False] (Finite (-1)) (Finite 0) = [JUndefined, JNull, JBool True] \<and>
   length (move [JNull, JBool True, JBool False] (Finite (1 / 2)) (Finite 2)) = 3 \<and>
   move [JNull, JBool True] NaN NaN = [JUndefined, JBool True]"
proof -
  have "move [JNull, JBool True, JBool False] (Finite (-1)) (Finite 0) = [JUndefined, JNull, JBool True]"
    by code_simp
  moreover have "array_index (Finite (1 / 2)) (length [JNull, JBool True, JBool False]) = None"
    by code_simp
  moreover have "splice_start (Finite (1 / 2)) (length [JNull, JBool True, JBool False]) = 0" by code_simp
  ultimately show ?thesis
    using move_out_of_range_from [of "[JNull, JBool True, JBool False]" "Finite (1 / 2)" "Finite 2"]
      move_out_of_range_from [of "[JNull, JBool True]" NaN NaN]
    by (simp add: num_strict_eq_def array_index_def)
qed

text \<open>
  C26: for a positive integer size, \<open>chunk\<close> returns an array without holes
  that partitions the input in order into non-empty groups of at most
  \<open>size\<close> elements, all but the last of exactly \<open>size\<close>, \<open>\<lceil>n / size\<rceil>\<close>
  groups in all.
\<close>

theorem chunk_partition:
  assumes "0 < sz"
  shows "\<exists>cs. chunk xs (Finite (of_int sz)) = map Some cs \<and> concat cs = xs \<and>
           (\<forall>c \<in> set cs. c \<noteq> [] \<and> length c \<le> nat sz) \<and> (\<forall>c \<in> set (butlast cs). length c = nat sz) \<and>
           length cs = (if length xs mod nat sz = 0 then length xs div nat sz else Suc (length xs div nat sz))"
proof -
  have n: "0 < nat sz" using assms by simp
  show ?thesis unfolding chunk_eq_ref [OF assms]
    using concat_chunks_ref [OF n] chunks_ref_bounds [OF n] chunks_ref_butlast [OF n]
      length_chunks_ref [OF n] by blast
qed

theorem chunk_partition_witness:
  "chunk [1, 2, 3, 4, 5 :: nat] (Finite 2) = map Some [[1, 2], [3, 4], [5]] \<and> concat [[1, 2], [3, 4], [5 :: nat]] = [1, 2, 3, 4, 5]"
proof -
  have "chunk [1, 2, 3, 4, 5 :: nat] (Finite 2) = map Some [[1, 2], [3, 4], [5]]" by code_simp
  then show ?thesis using chunk_partition [of 2 "[1, 2, 3, 4, 5 :: nat]"] by simp
qed



text \<open>
  C28: for a size that is \<open>NaN\<close> or \<open>0\<close> no group is formed; for a negative
  size only the first element is grouped (\<open>0 / size\<close> is \<open>-0\<close>, the index 0);
  for an infinite size every element goes to group 0. The other elements are
  stored under properties (\<open>"NaN"\<close>, \<open>"Infinity"\<close>, \<open>"-1"\<close>, ...) that
  are not array indices.
\<close>

theorem chunk_degenerate_sizes:
  "chunk xs NaN = [] \<and> chunk xs (Finite 0) = [] \<and>
   chunk xs PosInf = (if xs = [] then [] else [Some xs]) \<and>
   chunk xs NegInf = (if xs = [] then [] else [Some xs]) \<and>
   (q < 0 \<longrightarrow> chunk xs (Finite q) = (if xs = [] then [] else [Some [hd xs]]))"
proof (cases xs)
  case (Cons x xs')
  have "chunk_fold NaN acc i xs' = acc" "chunk_fold (Finite 0) acc i xs' = acc" for acc :: "'a list option list" and i
    by (simp_all add: chunk_fold_no_key chunk_key_def)
  moreover have "chunk_fold PosInf [Some [x]] 1 xs' = [Some (x # xs')]"
    and "chunk_fold NegInf [Some [x]] 1 xs' = [Some (x # xs')]"
    using chunk_fold_key0 [of _ "[x]" 1 xs'] by (simp_all add: chunk_key_def)
  moreover have "q < 0 \<Longrightarrow> chunk_fold (Finite q) [Some [x]] 1 xs' = [Some [x]]"
    by (rule chunk_fold_no_key) (auto simp: chunk_key_def not_le floor_less_iff intro!: divide_pos_neg)
  ultimately show ?thesis using Cons by (simp add: chunk_def chunk_step_def chunk_key_def)
qed (simp add: chunk_def)

theorem chunk_degenerate_sizes_witness:
  "chunk [1, 2, 3 :: nat] (Finite (-1)) = [Some [1]] \<and> chunk [1, 2, 3 :: nat] NegInf = [Some [1, 2, 3]]"
  using chunk_degenerate_sizes [of "[1, 2, 3 :: nat]" "-1"] by simp

end
