(* ===== verification/Objects.thy ===== *)
theory Objects
  imports Arrays
begin

text \<open>
  The object helpers of \<open>src/src/object.ts\<close>: \<open>keyInObject\<close>, \<open>pick\<close> and
  \<open>omit\<close>. A plain object is the list of its own properties in creation order,
  with distinct keys (\<open>obj\<close>); the operations below keep the keys distinct.
  Every plain object inherits the methods of \<open>Object.prototype\<close>, which the
  operator \<open>in\<close> sees. (The accessor \<open>__proto__\<close> is not modelled: a key of
  that name would change the prototype of the object.)
\<close>

type_synonym obj = "(js_string \<times> jsval) list"

definition proto_keys :: "js_string list" where
  "proto_keys = [''constructor'', ''hasOwnProperty'', ''isPrototypeOf'', ''propertyIsEnumerable'',
     ''toLocaleString'', ''toString'', ''valueOf'', ''__defineGetter__'', ''__defineSetter__'',
     ''__lookupGetter__'', ''__lookupSetter__'']"

subsection \<open>Order of the own keys\<close>

text \<open>An array index: the canonical decimal string of a number below \<open>2^32 - 1\<close>.\<close>

definition index_value :: "js_string \<Rightarrow> nat" where
  "index_value k = foldl (\<lambda>n c. 10 * n + (of_char c - 48)) 0 k"

definition is_index_key :: "js_string \<Rightarrow> bool" where
  "is_index_key k \<longleftrightarrow>
     k \<noteq> [] \<and> (\<forall>c \<in> set k. 48 \<le> (of_char c :: nat) \<and> (of_char c :: nat) \<le> 57) \<and>
     (hd k = CHR ''0'' \<longrightarrow> k = ''0'') \<and> length k \<le> 10 \<and> index_value k < 4294967295"

text \<open>
  \<open>OrdinaryOwnPropertyKeys\<close>: the array indices in ascending order, then the
  other string keys in creation order.
\<close>

definition key_order :: "js_string list \<Rightarrow> js_string list" where
  "key_order ks = sort_key index_value (filter is_index_key ks) @ filter (\<lambda>k. \<not> is_index_key k) ks"

subsection \<open>Property access\<close>

text \<open>\<open>key in ob\<close>: an own property or one inherited from \<open>Object.prototype\<close>.\<close>

definition has_property :: "obj \<Rightarrow> js_string \<Rightarrow> bool" where
  "has_property ob k \<longleftrightarrow> k \<in> fst ` set ob \<or> k \<in> set proto_keys"

text \<open>\<open>ob[key]\<close>: the own value, an inherited method, or \<open>undefined\<close>.\<close>

definition get_property :: "obj \<Rightarrow> js_string \<Rightarrow> jsval" where
  "get_property ob k =
     (case map_of ob k of Some v \<Rightarrow> v | None \<Rightarrow> if k \<in> set proto_keys then JFunction else JUndefined)"

text \<open>\<open>ob[key] = v\<close>: overwrites an own property in place or appends a new one.\<close>

definition set_property :: "obj \<Rightarrow> js_string \<Rightarrow> jsval \<Rightarrow> obj" where
  "set_property ob k v =
     (if k \<in> fst ` set ob then map (\<lambda>(k', v'). if k' = k then (k', v) else (k', v')) ob else ob @ [(k, v)])"

text \<open>\<open>delete ob[key]\<close>: removes an own property (an inherited one stays).\<close>

definition delete_property :: "obj \<Rightarrow> js_string \<Rightarrow> obj" where
  "delete_property ob k = filter (\<lambda>(k', _). k' \<noteq> k) ob"

subsection \<open>The helpers\<close>

text \<open>
  \<open>keyInObject(val, key)\<close>. For a regular expression or a host object only
  the inherited keys are modelled.
\<close>

definition keyInObject :: "jsval \<Rightarrow> js_string \<Rightarrow> bool" where
  "keyInObject v key \<longleftrightarrow>
     isObject v \<and> (case v of JObject ob \<Rightarrow> has_property ob key | _ \<Rightarrow> key \<in> set proto_keys)"

text \<open>
  The argument \<open>keys: K | K[]\<close>, and \<open>null\<close> or \<open>undefined\<close> from an untyped
  caller, as the JavaScript value passed; \<open>toArray(keys)\<close> is \<open>toArray\<close> of
  \<open>Arrays\<close>, whose items are the key strings.
\<close>

datatype key_arg = KeyOne js_string | KeyMany "js_string list" | KeyNullish

fun key_value :: "key_arg \<Rightarrow> jsval" where
  "key_value (KeyOne k) = JString k"
| "key_value (KeyMany ks) = JArray (map JString ks)"
| "key_value KeyNullish = JUndefined"

fun key_string :: "jsval \<Rightarrow> js_string" where
  "key_string (JString s) = s"
| "key_string _ = []"

definition key_list :: "key_arg \<Rightarrow> js_string list" where
  "key_list keys = map key_string (toArray (key_value keys))"

definition pick_step :: "obj \<Rightarrow> js_string \<Rightarrow> obj \<Rightarrow> obj" where
  "pick_step input key picked =
     (if has_property input key then set_property picked key (get_property input key) else picked)"

definition pick :: "obj \<Rightarrow> key_arg \<Rightarrow> obj" where
  "pick input keys = fold (pick_step input) (key_list keys) []"

text \<open>\<open>{ ...input }\<close> copies the own properties; the loop deletes the keys that are \<open>in input\<close>.\<close>

definition omit_step :: "obj \<Rightarrow> js_string \<Rightarrow> obj \<Rightarrow> obj" where
  "omit_step input key partial = (if has_property input key then delete_property partial key else partial)"

definition omit :: "obj \<Rightarrow> key_arg \<Rightarrow> obj" where
  "omit input keys = fold (omit_step input) (key_list keys) input"

subsection \<open>Lemmas\<close>

lemma key_list_simps [simp]:
  "key_list (KeyOne k) = [k]" "key_list (KeyMany ks) = ks" "key_list KeyNullish = []"
  by (simp_all add: key_list_def toArray_def comp_def)


lemma map_of_update_in_place:
  "map_of (map (\<lambda>(k', v'). if k' = k then (k', v) else (k', v')) ob) x =
     (if x = k \<and> k \<in> fst ` set ob then Some v else map_of ob x)"
proof (induction ob)
  case (Cons p ob)
  obtain a b where p: "p = (a, b)" by (cases p)
  show ?case using Cons by (cases "x = k") (simp_all add: p)
qed simp

lemma map_of_set_property: "map_of (set_property ob k v) x = (if x = k then Some v else map_of ob x)"
proof (cases "k \<in> fst ` set ob")
  case True
  then show ?thesis by (simp add: set_property_def map_of_update_in_place)
next
  case False
  then have "map_of ob k = None" by (simp add: map_of_eq_None_iff)
  with False show ?thesis by (simp add: set_property_def map_add_def split: option.split)
qed


lemma map_of_delete_property: "map_of (delete_property ob k) x = (if x = k then None else map_of ob x)"
  by (induction ob) (auto simp: delete_property_def)


lemma pick_fold_lookup:
  "map_of (fold (pick_step input) ks acc) x =
     (if x \<in> set ks \<and> has_property input x then Some (get_property input x) else map_of acc x)"
  by (induction ks arbitrary: acc) (auto simp: pick_step_def map_of_set_property)

lemma omit_fold_lookup:
  "map_of (fold (omit_step input) ks acc) x =
     (if x \<in> set ks \<and> has_property input x then None else map_of acc x)"
  by (induction ks arbitrary: acc) (auto simp: omit_step_def map_of_delete_property)



subsection \<open>Properties\<close>



text \<open>
  C33: \<open>pick\<close> maps exactly the listed keys that are \<open>in\<close> the input to their
  values, inherited methods of \<open>Object.prototype\<close> included (so picking
  \<open>toString\<close> from \<open>{}\<close> copies the method); \<open>omit\<close> maps every own key
  that is not listed to its value. Nullish keys are no keys (\<open>toArray\<close>).
  \<open>keyInObject\<close> is the operator \<open>in\<close> on a plain object, and false for an
  array (\<open>isObject\<close> excludes arrays, though \<open>"0" in [x]\<close> holds) and for
  \<open>null\<close>.
\<close>

theorem pick_omit_lookup:
  "map_of (pick input keys) x =
     (if x \<in> set (key_list keys) \<and> has_property input x then Some (get_property input x) else None) \<and>
   map_of (omit input keys) x = (if x \<in> set (key_list keys) then None else map_of input x) \<and>
   pick [] (KeyOne ''toString'') = [(''toString'', JFunction)] \<and>
   pick input KeyNullish = [] \<and> omit input KeyNullish = input \<and>
   keyInObject (JObject input) x = has_property input x \<and>
   keyInObject (JArray xs) k = False \<and> keyInObject JNull k = False"
proof -
  have "x \<in> set (key_list keys) \<Longrightarrow> \<not> has_property input x \<Longrightarrow> map_of input x = None"
    by (auto simp: has_property_def map_of_eq_None_iff)
  then show ?thesis
    by (auto simp: pick_def omit_def pick_fold_lookup omit_fold_lookup pick_step_def has_property_def
        get_property_def set_property_def proto_keys_def keyInObject_def isObject_def)
qed

end
