(* ===== verification/Numbers.thy ===== *)
theory Numbers
  imports Objects
begin

text \<open>
  The number helpers of \<open>src/src/number/index.ts\<close>: \<open>inRange\<close>, \<open>clamp\<close> and
  \<open>abbreviate\<close>. A number is a \<open>jsnum\<close> (\<open>Assertions\<close>): a rational, an
  infinity or \<open>NaN\<close>. \<open>Number.prototype.toFixed\<close> is modelled after its
  definition in ECMA-262 (round half up on the exact value);
  \<open>Number::toString\<close> is the parameter \<open>ns\<close>, as in \<open>Clsx\<close>. Threshold
  values of a symbol table are rationals.
\<close>

subsection \<open>\<open>Math.max\<close> and \<open>Math.min\<close>\<close>

definition js_max :: "jsnum \<Rightarrow> jsnum \<Rightarrow> jsnum" where
  "js_max a b = (if a = NaN \<or> b = NaN then NaN else if num_le a b then b else a)"

definition js_min :: "jsnum \<Rightarrow> jsnum \<Rightarrow> jsnum" where
  "js_min a b = (if a = NaN \<or> b = NaN then NaN else if num_le a b then a else b)"

subsection \<open>\<open>inRange\<close> and \<open>clamp\<close>\<close>

definition inRange :: "jsnum \<Rightarrow> jsnum \<Rightarrow> jsnum \<Rightarrow> bool" where
  "inRange v lo hi \<longleftrightarrow> num_le lo v \<and> num_le v hi"

definition clamp :: "jsnum \<Rightarrow> jsnum \<Rightarrow> jsnum \<Rightarrow> jsnum" where
  "clamp v lo hi = js_min (js_max v lo) hi"

subsection \<open>\<open>Number.prototype.toFixed\<close>\<close>

text \<open>\<open>ToIntegerOrInfinity\<close>; \<open>None\<close> for an infinity.\<close>

fun to_integer :: "jsnum \<Rightarrow> int option" where
  "to_integer (Finite q) = Some (if q < 0 then \<lceil>q\<rceil> else \<lfloor>q\<rfloor>)"
| "to_integer NaN = Some 0"
| "to_integer _ = None"

text \<open>The digits of \<open>n / 10^f\<close> with \<open>f\<close> digits after the point.\<close>

definition fixed_digits :: "nat \<Rightarrow> nat \<Rightarrow> js_string" where
  "fixed_digits n f =
     (let m = js_nat_string n
      in if f = 0 then m
         else let m' = (if length m \<le> f then replicate (f + 1 - length m) (CHR ''0'') @ m else m);
                  k = length m'
              in take (k - f) m' @ ''.'' @ drop (k - f) m')"

text \<open>
  \<open>x.toFixed(fd)\<close>: the string and the number it denotes (what \<open>Number(frac)\<close>
  reads back); \<open>RangeError\<close> for a digit count outside \<open>[0, 100]\<close>.
\<close>

definition toFixed :: "(jsnum \<Rightarrow> js_string) \<Rightarrow> jsnum \<Rightarrow> jsnum \<Rightarrow> js_error + js_string \<times> jsnum" where
  "toFixed ns x fd =
     (case to_integer fd of
        None \<Rightarrow> Inl RangeError
      | Some f \<Rightarrow>
          if f < 0 \<or> 100 < f then Inl RangeError
          else (case x of
            Finite q \<Rightarrow>
              let s = (if q < 0 then ''-'' else []); a = \<bar>q\<bar>
              in if 10 ^ 21 \<le> a then Inr (s @ ns (Finite a), x)
                 else let n = nat \<lfloor>a * 10 ^ nat f + 1 / 2\<rfloor>
                      in Inr (s @ fixed_digits n (nat f),
                              Finite ((if q < 0 then -1 else 1) * of_nat n / 10 ^ nat f))
          | _ \<Rightarrow> Inr (ns x, x)))"

subsection \<open>\<open>abbreviate\<close>\<close>

text \<open>
  A symbol table: an array of suffixes for the powers \<open>10^0, 10^3, \<dots>\<close>, or an
  object from suffixes to thresholds (creation order, distinct keys).
\<close>

datatype symbols = SymList "js_string list" | SymDict "(js_string \<times> rat) list"

text \<open>
  The second argument: absent, a precision, an options object (its fields,
  \<open>None\<close> when absent, \<open>null\<close> or \<open>undefined\<close>), or \<open>null\<close> (\<open>typeof null\<close> is
  \<open>"object"\<close>, so \<open>arg.precision\<close> throws).
\<close>

datatype abbr_arg = NoArg | PrecisionArg jsnum | OptionsArg "jsnum option" "symbols option" | NullArg

definition baseAbbreviationSymbols :: "js_string list" where
  "baseAbbreviationSymbols = ['''', ''K'', ''M'', ''B'', ''T'']"

fun parse_arg :: "abbr_arg \<Rightarrow> js_error + jsnum \<times> symbols" where
  "parse_arg NoArg = Inr (Finite 1, SymList baseAbbreviationSymbols)"
| "parse_arg (PrecisionArg p) = Inr (p, SymList baseAbbreviationSymbols)"
| "parse_arg (OptionsArg p s) =
     Inr (case p of None \<Rightarrow> Finite 1 | Some n \<Rightarrow> n, case s of None \<Rightarrow> SymList baseAbbreviationSymbols | Some sy \<Rightarrow> sy)"
| "parse_arg NullArg = Inl TypeError"

text \<open>\<open>Object.entries(symbols)\<close> or \<open>symbols.map((symbol, i) => [symbol, 10 ** (i * 3)])\<close>.\<close>

fun thresholds_of :: "symbols \<Rightarrow> (js_string \<times> rat) list" where
  "thresholds_of (SymList ss) = map (\<lambda>(i, s). (s, 10 ^ (i * 3))) (zip [0..<length ss] ss)"
| "thresholds_of (SymDict kvs) = map (\<lambda>k. (k, the (map_of kvs k))) (key_order (map fst kvs))"

text \<open>\<open>thresholds.sort((a, b) => b[1] - a[1])\<close>: stable, largest first.\<close>

definition sort_thresholds :: "(js_string \<times> rat) list \<Rightarrow> (js_string \<times> rat) list" where
  "sort_thresholds ts = sort_key (\<lambda>(s, t). - t) ts"

text \<open>\<open>abs / threshold\<close> for \<open>abs \<ge> 0\<close>.\<close>

fun num_div :: "jsnum \<Rightarrow> rat \<Rightarrow> jsnum" where
  "num_div (Finite a) t = (if t = 0 then (if a = 0 then NaN else PosInf) else Finite (a / t))"
| "num_div PosInf t = (if t < 0 then NegInf else PosInf)"
| "num_div x t = x"

fun abs_num :: "jsnum \<Rightarrow> jsnum" where
  "abs_num (Finite q) = Finite \<bar>q\<bar>"
| "abs_num NegInf = PosInf"
| "abs_num x = x"

fun is_integral :: "jsnum \<Rightarrow> bool" where
  "is_integral (Finite q) = (q = of_int \<lfloor>q\<rfloor>)"
| "is_integral PosInf = True"
| "is_integral NegInf = True"
| "is_integral NaN = False"

text \<open>The loop over the thresholds: \<open>None\<close> when every rounded quotient is below 1.\<close>

fun abbr_loop ::
  "(jsnum \<Rightarrow> js_string) \<Rightarrow> js_string \<Rightarrow> jsnum \<Rightarrow> jsnum \<Rightarrow> (js_string \<times> rat) list \<Rightarrow> js_error + js_string option"
where
  "abbr_loop ns sign ab prec [] = Inr None"
| "abbr_loop ns sign ab prec ((symbol, t) # rest) =
     (case toFixed ns (num_div ab t) prec of
        Inl e \<Rightarrow> Inl e
      | Inr (fixed, v) \<Rightarrow> if num_lt v (Finite 1) then abbr_loop ns sign ab prec rest
                         else Inr (Some (sign @ fixed @ symbol)))"

definition abbreviate :: "(jsnum \<Rightarrow> js_string) \<Rightarrow> jsval \<Rightarrow> abbr_arg \<Rightarrow> js_error + js_string" where
  "abbreviate ns value arg =
     (case value of
        JNumber x \<Rightarrow>
          if x = NaN then Inr ''0''
          else (case parse_arg arg of
                  Inl e \<Rightarrow> Inl e
                | Inr (precision, symbols) \<Rightarrow>
                    let thresholds = sort_thresholds (thresholds_of symbols);
                        sign = (if num_lt x (Finite 0) then ''-'' else []);
                        ab = abs_num x
                    in (case abbr_loop ns sign ab precision thresholds of
                          Inl e \<Rightarrow> Inl e
                        | Inr (Some r) \<Rightarrow> Inr r
                        | Inr None \<Rightarrow>
                            if is_integral ab then Inr (ns x)
                            else (case toFixed ns ab precision of Inl e \<Rightarrow> Inl e | Inr (f, _) \<Rightarrow> Inr (sign @ f))))
      | _ \<Rightarrow> Inr ''0'')"

text \<open>\<open>Number::toString\<close> for integers of magnitude below \<open>10^21\<close>, the values the examples use.\<close>

fun int_string :: "jsnum \<Rightarrow> js_string" where
  "int_string (Finite q) = (if q < 0 then ''-'' else []) @ js_nat_string (nat \<bar>\<lfloor>q\<rfloor>\<bar>)"
| "int_string PosInf = ''Infinity''"
| "int_string NegInf = ''-Infinity''"
| "int_string NaN = ''NaN''"

subsection \<open>Lemmas\<close>

lemma round_promotes:
  fixes a :: rat
  assumes "1000 * 10 ^ k \<le> \<lfloor>a * 10 ^ k + 1 / 2\<rfloor>"
  shows "10 ^ k \<le> \<lfloor>a / 1000 * 10 ^ k + 1 / 2\<rfloor>"
proof -
  have "(of_int (1000 * 10 ^ k) :: rat) \<le> of_int \<lfloor>a * 10 ^ k + 1 / 2\<rfloor>"
    using assms by (simp only: of_int_le_iff)
  also have "\<dots> \<le> a * 10 ^ k + 1 / 2" by (rule of_int_floor_le)
  finally have h: "1000 * 10 ^ k \<le> a * 10 ^ k + (1 / 2 :: rat)" by simp
  have "a / 1000 * 10 ^ k = (a * 10 ^ k) / 1000" by simp
  with h have "(10 :: rat) ^ k \<le> a / 1000 * 10 ^ k + 1 / 2" by linarith
  then have "of_int (10 ^ k) \<le> a / 1000 * 10 ^ k + (1 / 2 :: rat)" by simp
  then show ?thesis by (rule le_floor_iff [THEN iffD2])
qed

lemma to_integer_of_int [simp]: "0 \<le> f \<Longrightarrow> to_integer (Finite (of_int f)) = Some f"
  by simp

lemma toFixed_finite:
  assumes "0 \<le> a" "0 \<le> f" "f \<le> 100"
  shows "toFixed ns (Finite a) (Finite (of_int f)) =
           (if 10 ^ 21 \<le> a then Inr (ns (Finite a), Finite a)
            else Inr (fixed_digits (nat \<lfloor>a * 10 ^ nat f + 1 / 2\<rfloor>) (nat f),
                      Finite (of_nat (nat \<lfloor>a * 10 ^ nat f + 1 / 2\<rfloor>) / 10 ^ nat f)))"
  using assms by (simp add: toFixed_def Let_def)

lemma floor_ge_pow:
  fixes b :: rat
  assumes "(10 :: rat) ^ k \<le> b"
  shows "(10 :: int) ^ k \<le> \<lfloor>b\<rfloor>"
  using assms by (simp add: le_floor_iff)

lemma toFixed_promotes:
  assumes a: "0 \<le> a" and f: "0 \<le> f" "f \<le> 100"
    and tf: "toFixed ns (Finite a) (Finite (of_int f)) = Inr (s, Finite x)" and x: "1000 \<le> x"
  shows "\<exists>s' y. toFixed ns (Finite (a / 1000)) (Finite (of_int f)) = Inr (s', Finite y) \<and> 1 \<le> y"
proof -
  let ?k = "nat f"
  have a': "0 \<le> a / 1000" using a by simp
  have big: "1000 * 10 ^ ?k \<le> \<lfloor>a * 10 ^ ?k + 1 / 2\<rfloor>" if small: "\<not> 10 ^ 21 \<le> a"
  proof -
    have "x = of_nat (nat \<lfloor>a * 10 ^ ?k + 1 / 2\<rfloor>) / 10 ^ ?k"
      using tf small toFixed_finite [OF a f] by simp
    with x have "1000 * 10 ^ ?k \<le> (of_nat (nat \<lfloor>a * 10 ^ ?k + 1 / 2\<rfloor>) :: rat)"
      by (simp add: field_simps)
    moreover have "0 \<le> \<lfloor>a * 10 ^ ?k + 1 / 2\<rfloor>" using a by simp
    ultimately have "(of_int (1000 * 10 ^ ?k) :: rat) \<le> of_int \<lfloor>a * 10 ^ ?k + 1 / 2\<rfloor>"
      by simp
    then show ?thesis by (simp only: of_int_le_iff)
  qed
  show ?thesis
  proof (cases "10 ^ 21 \<le> a / 1000")
    case True
    show ?thesis
    proof (intro exI conjI)
      show "toFixed ns (Finite (a / 1000)) (Finite (of_int f)) = Inr (ns (Finite (a / 1000)), Finite (a / 1000))"
        using toFixed_finite [OF a' f] True by simp
      show "1 \<le> a / 1000" using True by simp
    qed
  next
    case False
    have "(10 :: rat) ^ ?k \<le> a / 1000 * 10 ^ ?k + 1 / 2"
    proof (cases "10 ^ 21 \<le> a")
      case True
      then have "1 \<le> a / 1000" by simp
      then have "1 * 10 ^ ?k \<le> a / 1000 * 10 ^ ?k" by (intro mult_right_mono) simp_all
      then show ?thesis by linarith
    next
      case False
      from round_promotes [OF big [OF False]] show ?thesis by (simp add: le_floor_iff)
    qed
    then have "(10 :: int) ^ ?k \<le> \<lfloor>a / 1000 * 10 ^ ?k + 1 / 2\<rfloor>" by (rule floor_ge_pow)
    moreover have "0 \<le> \<lfloor>a / 1000 * 10 ^ ?k + 1 / 2\<rfloor>" using a by simp
    ultimately have "(of_int (10 ^ ?k) :: rat) \<le> of_int \<lfloor>a / 1000 * 10 ^ ?k + 1 / 2\<rfloor>"
      by (simp only: of_int_le_iff)
    then have "(10 :: rat) ^ ?k \<le> of_nat (nat \<lfloor>a / 1000 * 10 ^ ?k + 1 / 2\<rfloor>)"
      using \<open>0 \<le> \<lfloor>a / 1000 * 10 ^ ?k + 1 / 2\<rfloor>\<close> by simp
    then have "1 \<le> of_nat (nat \<lfloor>a / 1000 * 10 ^ ?k + 1 / 2\<rfloor>) / (10 :: rat) ^ ?k" by simp
    with False show ?thesis using toFixed_finite [OF a' f] by simp
  qed
qed

lemma toFixed_Inl:
  "(\<exists>e. toFixed ns x fd = Inl e) \<longleftrightarrow> \<not> (\<exists>f. to_integer fd = Some f \<and> 0 \<le> f \<and> f \<le> 100)"
  by (auto simp: toFixed_def Let_def split: option.splits jsnum.splits)

lemma toFixed_Inl_RangeError: "toFixed ns x fd = Inl e \<Longrightarrow> e = RangeError"
  by (auto simp: toFixed_def Let_def split: option.splits jsnum.splits if_splits)

lemma abbr_loop_valid:
  assumes "\<exists>f. to_integer prec = Some f \<and> 0 \<le> f \<and> f \<le> 100"
  shows "abbr_loop ns sign ab prec ts \<noteq> Inl e"
proof (induction ts)
  case (Cons p ts)
  obtain sy t where p: "p = (sy, t)" by (cases p)
  have "toFixed ns (num_div ab t) prec \<noteq> Inl e'" for e'
    using toFixed_Inl [of ns "num_div ab t" prec] assms by blast
  then show ?case using Cons p by (auto split: sum.splits)
qed simp

lemma abbr_loop_invalid:
  assumes "\<not> (\<exists>f. to_integer prec = Some f \<and> 0 \<le> f \<and> f \<le> 100)"
  shows "abbr_loop ns sign ab prec (p # ts) = Inl RangeError"
proof -
  obtain sy t where p: "p = (sy, t)" by (cases p)
  obtain e where "toFixed ns (num_div ab t) prec = Inl e"
    using toFixed_Inl [of ns "num_div ab t" prec] assms by blast
  then show ?thesis using p toFixed_Inl_RangeError by simp
qed

lemma abbreviate_precision:
  "(\<exists>e. abbreviate ns (JNumber x) (PrecisionArg p) = Inl e) \<longleftrightarrow>
     x \<noteq> NaN \<and> \<not> (\<exists>f. to_integer p = Some f \<and> 0 \<le> f \<and> f \<le> 100)"
proof (cases "\<exists>f. to_integer p = Some f \<and> 0 \<le> f \<and> f \<le> 100")
  case True
  have "toFixed ns (abs_num x) p \<noteq> Inl e" for e using toFixed_Inl [of ns _ p] True by blast
  then show ?thesis using True abbr_loop_valid [OF True]
    by (auto simp: abbreviate_def Let_def split: sum.splits option.splits prod.splits)
next
  case False
  have "sort_thresholds (thresholds_of (SymList baseAbbreviationSymbols)) \<noteq> []"
    by (simp add: sort_thresholds_def baseAbbreviationSymbols_def)
  then obtain q qs where "sort_thresholds (thresholds_of (SymList baseAbbreviationSymbols)) = q # qs"
    by (cases "sort_thresholds (thresholds_of (SymList baseAbbreviationSymbols))") auto
  then show ?thesis using False abbr_loop_invalid [OF False]
    by (auto simp: abbreviate_def Let_def)
qed

lemma abbr_loop_Inl: "abbr_loop ns sign ab prec ts = Inl e \<Longrightarrow> e = RangeError"
  by (induction ts) (auto dest: toFixed_Inl_RangeError split: sum.splits if_splits)

lemma abbreviate_precision_RangeError:
  "abbreviate ns (JNumber x) (PrecisionArg p) \<noteq> Inl TypeError"
  by (auto simp: abbreviate_def Let_def dest: toFixed_Inl_RangeError abbr_loop_Inl
      split: sum.splits option.splits prod.splits)

subsection \<open>Properties\<close>

text \<open>
  C38: the error paths and the examples of \<open>abbreviate\<close>. With a precision
  argument it throws exactly when the value is a number other than \<open>NaN\<close>
  and the precision, as an integer, is outside \<open>[0, 100]\<close>, and then with
  the \<open>RangeError\<close> of \<open>toFixed\<close>; a \<open>null\<close> argument throws a
  \<open>TypeError\<close>. The examples: \<open>999500\<close> at precision 0 is \<open>1M\<close>, \<open>NaN\<close>
  is \<open>0\<close>, \<open>1234\<close> is \<open>1.2K\<close>, \<open>-1500\<close> is \<open>-1.5K\<close>.
\<close>

theorem abbreviate_spec_and_errors:
  "(abbreviate ns (JNumber x) (PrecisionArg p) = Inl RangeError \<longleftrightarrow>
      x \<noteq> NaN \<and> \<not> (\<exists>f. to_integer p = Some f \<and> 0 \<le> f \<and> f \<le> 100)) \<and>
   abbreviate ns (JNumber x) (PrecisionArg p) \<noteq> Inl TypeError \<and>
   abbreviate ns (JNumber x) NullArg = (if x = NaN then Inr ''0'' else Inl TypeError) \<and>
   abbreviate int_string (JNumber (Finite 999500)) (OptionsArg (Some (Finite 0)) None) = Inr ''1M'' \<and>
   abbreviate int_string (JNumber NaN) NoArg = Inr ''0'' \<and>
   abbreviate int_string (JNumber (Finite 1234)) NoArg = Inr ''1.2K'' \<and>
   abbreviate int_string (JNumber (Finite (-1500))) NoArg = Inr ''-1.5K''"
proof -
  have ex: "abbreviate int_string (JNumber (Finite 999500)) (OptionsArg (Some (Finite 0)) None) = Inr ''1M'' \<and>
     abbreviate int_string (JNumber NaN) NoArg = Inr ''0'' \<and>
     abbreviate int_string (JNumber (Finite 1234)) NoArg = Inr ''1.2K'' \<and>
     abbreviate int_string (JNumber (Finite (-1500))) NoArg = Inr ''-1.5K''"
    by code_simp
  have "abbreviate ns (JNumber x) (PrecisionArg p) = Inl RangeError \<longleftrightarrow>
          (\<exists>e. abbreviate ns (JNumber x) (PrecisionArg p) = Inl e)"
    using abbreviate_precision_RangeError [of ns x p] by (metis js_error.exhaust)
  moreover have "abbreviate ns (JNumber x) NullArg = (if x = NaN then Inr ''0'' else Inl TypeError)"
    by (simp add: abbreviate_def)
  ultimately show ?thesis using abbreviate_precision [of ns x p] abbreviate_precision_RangeError [of ns x p] ex
    by simp
qed

text \<open>
  C39: a rounded quotient of 1000 or more at a threshold \<open>t\<close> is never
  printed when the threshold \<open>1000 t\<close> comes before it: the loop returns at
  \<open>1000 t\<close> (so \<open>999500\<close> at precision 0 is \<open>1M\<close>, not \<open>1000K\<close>).
\<close>

theorem abbreviate_promotes:
  assumes "0 \<le> a" "0 < t" "0 \<le> f" "f \<le> 100"
    and "toFixed ns (Finite (a / t)) (Finite (of_int f)) = Inr (s, Finite x)" and "1000 \<le> x"
  shows "\<exists>fixed. abbr_loop ns sign (Finite a) (Finite (of_int f)) ((symb, 1000 * t) # rest) =
           Inr (Some (sign @ fixed @ symb))"
proof -
  have "0 \<le> a / t" using assms by simp
  from toFixed_promotes [OF this assms(3,4,5,6)] obtain s' y
    where y: "toFixed ns (Finite (a / t / 1000)) (Finite (of_int f)) = Inr (s', Finite y)" "1 \<le> y"
    by blast
  have "\<not> num_lt (Finite y) (Finite 1)" using y(2) by simp
  with y assms(2) show ?thesis by (simp add: mult.commute)
qed

theorem abbreviate_promotes_witness:
  "toFixed int_string (Finite (999500 / 1000)) (Finite (of_int 0)) = Inr (''1000'', Finite 1000) \<and>
   (\<exists>fixed. abbr_loop int_string [] (Finite 999500) (Finite (of_int 0)) [(''M'', 1000 * 1000)] =
      Inr (Some ([] @ fixed @ ''M'')))"
proof -
  have h: "toFixed int_string (Finite (999500 / 1000)) (Finite (of_int 0)) = Inr (''1000'', Finite 1000)"
    by code_simp
  have "\<exists>fixed. abbr_loop int_string [] (Finite 999500) (Finite (of_int 0)) [(''M'', 1000 * 1000)] =
      Inr (Some ([] @ fixed @ ''M''))"
    by (rule abbreviate_promotes [OF _ _ _ _ h]) simp_all
  with h show ?thesis by blast
qed

text \<open>
  C40: \<open>clamp(value, min, max)\<close> is \<open>NaN\<close> when one of its arguments is;
  for \<open>min \<le> max\<close> it lands in \<open>[min, max]\<close> and leaves a value already
  there unchanged; for \<open>min > max\<close> it returns \<open>max\<close> whatever the value.
\<close>

theorem clamp_spec:
  shows "(v = NaN \<or> lo = NaN \<or> hi = NaN \<longrightarrow> clamp v lo hi = NaN) \<and>
         (num_le lo hi \<and> v \<noteq> NaN \<longrightarrow> inRange (clamp v lo hi) lo hi) \<and>
         (inRange v lo hi \<longrightarrow> clamp v lo hi = v) \<and>
         (num_lt hi lo \<and> v \<noteq> NaN \<longrightarrow> clamp v lo hi = hi)"
proof -
  have a: "v = NaN \<or> lo = NaN \<or> hi = NaN \<longrightarrow> clamp v lo hi = NaN"
    by (auto simp: clamp_def js_min_def js_max_def)
  have b: "num_le lo hi \<and> v \<noteq> NaN \<longrightarrow> inRange (clamp v lo hi) lo hi"
    using num_le_total [of v lo] num_le_total [of v hi]
    by (auto simp: clamp_def js_min_def js_max_def inRange_def dest: num_le_trans)
  have c: "inRange v lo hi \<longrightarrow> clamp v lo hi = v"
    by (auto simp: clamp_def js_min_def js_max_def inRange_def dest: num_le_antisym)
  have d: "num_lt hi lo \<and> v \<noteq> NaN \<longrightarrow> clamp v lo hi = hi"
    by (cases v; cases hi; cases lo) (auto simp: clamp_def js_min_def js_max_def)
  show ?thesis using a b c d by blast
qed

theorem clamp_spec_witness:
  "inRange (clamp (Finite 5) (Finite 0) (Finite 3)) (Finite 0) (Finite 3) \<and>
   clamp (Finite 2) (Finite 0) (Finite 3) = Finite 2 \<and> clamp (Finite 2) (Finite 3) (Finite 0) = Finite 0"
  using clamp_spec [of "Finite 5" "Finite 0" "Finite 3"] clamp_spec [of "Finite 2" "Finite 0" "Finite 3"]
    clamp_spec [of "Finite 2" "Finite 3" "Finite 0"]
  by (simp add: inRange_def)

end
