(* ===== verification/Strings.thy ===== *)
theory Strings
  imports Arrays Numbers
begin

text \<open>
  The string helpers of \<open>src/src/string/index.ts\<close>: \<open>slash\<close>, which replaces
  every backslash by a slash, and \<open>truncate\<close>, which trims a string and cuts it
  to a maximum length with an ellipsis. The length argument is any number
  (\<open>jsnum\<close>): \<open>Math.max\<close> and the comparison are those of \<open>Numbers\<close>;
  the end of \<open>slice(0, end)\<close> is converted as the start of \<open>splice\<close>
  (\<open>splice_start\<close> of \<open>Arrays\<close>: truncated, \<open>NaN\<close> is 0, from the end when
  negative, clamped to the length).
\<close>

definition backslash :: char where
  "backslash = CHR 0x5C"

text \<open>\<open>str.replace(/\\/g, "/")\<close>\<close>

definition slash :: "js_string \<Rightarrow> js_string" where
  "slash str = map (\<lambda>c. if c = backslash then CHR ''/'' else c) str"

text \<open>
  \<open>x - r\<close> for a finite \<open>r\<close>: an infinity or \<open>NaN\<close> is unchanged.
\<close>

fun num_sub :: "jsnum \<Rightarrow> rat \<Rightarrow> jsnum" where
  "num_sub (Finite a) r = Finite (a - r)"
| "num_sub x r = x"

text \<open>
  \<open>truncate(input, length = 80)\<close>: the empty string (the only falsy string) is
  returned unchanged; otherwise the trimmed text if its length is at most
  \<open>Math.max(3, length)\<close>, else its first \<open>maxLength - 3\<close> characters followed by
  \<open>...\<close>.
\<close>

definition truncate :: "js_string \<Rightarrow> jsnum \<Rightarrow> js_string" where
  "truncate input len =
     (if input = [] then input
      else let text = js_trim input; maxLength = js_max (Finite 3) len
           in if num_le (Finite (of_nat (length text))) maxLength then text
              else take (splice_start (num_sub maxLength 3) (length text)) text @ ''...'')"

definition truncate_default :: "js_string \<Rightarrow> js_string" where
  "truncate_default input = truncate input (Finite 80)"

subsection \<open>Lemmas\<close>

lemma js_max_3_finite [simp]: "js_max (Finite 3) (Finite n) = Finite (max 3 n)"
  by (simp add: js_max_def max_def)

lemma splice_start_finite_nonneg:
  "0 \<le> q \<Longrightarrow> splice_start (Finite q) len = min (nat \<lfloor>q\<rfloor>) len"
  by (simp add: splice_start_def rel_index_def)

lemma truncate_finite:
  assumes "s \<noteq> []"
  shows "truncate s (Finite n) =
           (if of_nat (length (js_trim s)) \<le> max 3 n then js_trim s
            else take (nat \<lfloor>max 3 n\<rfloor> - 3) (js_trim s) @ ''...'')"
proof -
  have "\<lfloor>max 3 n - 3\<rfloor> = \<lfloor>max 3 n\<rfloor> - 3" by (simp add: floor_diff_numeral)
  then have "nat \<lfloor>max 3 n - 3\<rfloor> = nat \<lfloor>max 3 n\<rfloor> - 3" by simp
  then show ?thesis using assms by (simp add: truncate_def Let_def splice_start_finite_nonneg min_def)
qed

subsection \<open>Properties\<close>

text \<open>C29: \<open>slash\<close> leaves no backslash, keeps the length and every other character, and is idempotent.\<close>

theorem slash_spec:
  "backslash \<notin> set (slash s) \<and> length (slash s) = length s \<and>
   (\<forall>i < length s. slash s ! i = (if s ! i = backslash then CHR ''/'' else s ! i)) \<and>
   slash (slash s) = slash s"
  by (auto simp: slash_def backslash_def)

theorem slash_spec_witness:
  "slash [CHR ''a'', backslash] = ''a/'' \<and> length (slash [CHR ''a'', backslash]) = 2"
  using slash_spec [of "[CHR ''a'', backslash]"] by (simp add: slash_def backslash_def)

text \<open>
  C30: for a finite length, the result of \<open>truncate\<close> is never longer than
  \<open>max(3, length)\<close>; a text longer than that after trimming is cut to
  \<open>\<lfloor>max(3, length)\<rfloor>\<close> characters, its prefix followed by \<open>...\<close>;
  a shorter one is the trimmed text.
\<close>

theorem truncate_cut:
  assumes "s \<noteq> []"
  shows "truncate s (Finite n) =
           (if of_nat (length (js_trim s)) \<le> max 3 n then js_trim s
            else take (nat \<lfloor>max 3 n\<rfloor> - 3) (js_trim s) @ ''...'') \<and>
         (max 3 n < of_nat (length (js_trim s)) \<longrightarrow> length (truncate s (Finite n)) = nat \<lfloor>max 3 n\<rfloor>) \<and>
         of_nat (length (truncate s (Finite n))) \<le> max 3 n"
proof -
  let ?m = "max 3 n" and ?t = "js_trim s"
  have m3: "3 \<le> \<lfloor>?m\<rfloor>" by (simp add: le_floor_iff)
  have n3: "3 \<le> nat \<lfloor>?m\<rfloor>" using m3 by (simp add: le_nat_iff)
  have fm: "of_int \<lfloor>?m\<rfloor> \<le> ?m" by (rule of_int_floor_le)
  show ?thesis
  proof (cases "of_nat (length ?t) \<le> ?m")
    case True
    moreover have "\<not> ?m < of_nat (length ?t)" using True by (simp only: not_less)
    ultimately show ?thesis using truncate_finite [OF assms, of n] by (simp del: max_less_iff_conj)
  next
    case False
    then have "of_int \<lfloor>?m\<rfloor> < (of_nat (length ?t) :: rat)" using fm by linarith
    then have "nat \<lfloor>?m\<rfloor> < length ?t" by linarith
    then have len: "length (truncate s (Finite n)) = nat \<lfloor>?m\<rfloor>"
      using False n3 truncate_finite [OF assms, of n] by (simp; linarith)
    have "of_nat (nat \<lfloor>?m\<rfloor>) \<le> ?m" using fm m3 by simp
    then show ?thesis using False len truncate_finite [OF assms, of n] by simp
  qed
qed

theorem truncate_cut_witness:
  "truncate ''  hello world  '' (Finite 8) = ''hello...''"
proof -
  have "js_trim ''  hello world  '' = ''hello world''" by (simp add: js_defs)
  then show ?thesis using truncate_cut [of "''  hello world  ''" 8] by simp
qed

text \<open>
  C31: the degenerate lengths. \<open>NaN\<close> gives \<open>...\<close> for every non-empty
  string, however short (\<open>Math.max(3, NaN)\<close> is \<open>NaN\<close>, no comparison
  holds and \<open>slice(0, NaN)\<close> is empty); \<open>Infinity\<close> only trims;
  \<open>-Infinity\<close> and every length up to 3 act as 3, so a limit below 3 still
  yields the three characters \<open>...\<close>.
\<close>

theorem truncate_degenerate_lengths:
  assumes "s \<noteq> []"
  shows "truncate s NaN = ''...'' \<and> truncate s PosInf = js_trim s \<and>
         truncate s NegInf = truncate s (Finite 3) \<and>
         (n \<le> 3 \<longrightarrow> truncate s (Finite n) = truncate s (Finite 3)) \<and>
         (3 < length (js_trim s) \<longrightarrow> truncate s (Finite 3) = ''...'')"
  using assms by (auto simp: truncate_def Let_def js_max_def max_def splice_start_def rel_index_def)

theorem truncate_degenerate_lengths_witness:
  "truncate ''ab'' NaN = ''...'' \<and> truncate ''abcdef'' (Finite 0) = ''...''"
proof -
  have "js_trim ''ab'' = ''ab''" "js_trim ''abcdef'' = ''abcdef''" by (simp_all add: js_defs)
  then show ?thesis using truncate_degenerate_lengths [of "''ab''" 0] truncate_degenerate_lengths [of "''abcdef''" 0]
    by simp
qed

end
