(* ===== verification/Clsx.thy ===== *)
theory Clsx
  imports Objects
begin

text \<open>
  The class-name builder of \<open>src/src/clsx/index.ts\<close>. \<open>toClassValue\<close> turns a
  string, a number, an array or an object into a space-separated list of class
  names; \<open>clsx\<close> joins the results of its arguments. \<open>Number.prototype.toString\<close>
  is a parameter \<open>ns\<close> of the model (the properties need only that its result
  holds no white space); a \<open>for ... in\<close> loop visits the array-index keys of an
  object in ascending order, then the other keys in creation order
  (\<open>key_order\<close> of \<open>Objects\<close>).
\<close>

subsection \<open>Enumeration order of an object\<close>

definition enum_keys :: "(js_string \<times> jsval) list \<Rightarrow> js_string list" where
  "enum_keys kvs =
     key_order (rev (remdups (rev (map fst kvs))))"

text \<open>The value of a key: the last one assigned (\<open>Assertions\<close>).\<close>

definition obj_value :: "(js_string \<times> jsval) list \<Rightarrow> js_string \<Rightarrow> jsval" where
  "obj_value kvs k = (case map_of (rev kvs) k of Some v \<Rightarrow> v | None \<Rightarrow> JUndefined)"

subsection \<open>The argument type \<open>ClassNameValue\<close>\<close>



subsection \<open>\<open>toClassValue\<close> and \<open>clsx\<close>\<close>

text \<open>\<open>if (!temp) continue; if (names) names += " "; names += temp;\<close>\<close>

definition append_name :: "js_string \<Rightarrow> js_string \<Rightarrow> js_string" where
  "append_name names temp = (if temp = [] then names else if names = [] then temp else names @ '' '' @ temp)"

text \<open>\<open>if (!value[key]) continue; if (names) names += " "; names += key;\<close> (an empty key is appended too)\<close>

definition append_key :: "(js_string \<times> jsval) list \<Rightarrow> js_string \<Rightarrow> js_string \<Rightarrow> js_string" where
  "append_key kvs names key =
     (if \<not> truthy (obj_value kvs key) then names else if names = [] then key else names @ '' '' @ key)"

text \<open>\<open>String(value)\<close> for a string or a number.\<close>

fun prim_string :: "(jsnum \<Rightarrow> js_string) \<Rightarrow> jsval \<Rightarrow> js_string" where
  "prim_string ns (JString s) = s"
| "prim_string ns (JNumber n) = ns n"
| "prim_string ns _ = []"

fun toClassValue :: "(jsnum \<Rightarrow> js_string) \<Rightarrow> jsval \<Rightarrow> js_string" where
  "toClassValue ns value =
     (if isString value \<or> isNumber value then (if truthy value then js_trim (prim_string ns value) else [])
      else if isArray value then
        (case value of JArray xs \<Rightarrow> fold (\<lambda>item names. append_name names (toClassValue ns item)) xs [] | _ \<Rightarrow> [])
      else if isObject value then
        (case value of JObject kvs \<Rightarrow> fold (\<lambda>key names. append_key kvs names key) (enum_keys kvs) [] | _ \<Rightarrow> [])
      else [])"

definition clsx :: "(jsnum \<Rightarrow> js_string) \<Rightarrow> jsval list \<Rightarrow> js_string" where
  "clsx ns inputs = fold (\<lambda>arg result. if \<not> truthy arg then result else append_name result (toClassValue ns arg)) inputs []"

subsection \<open>Well-formed class lists\<close>

text \<open>Two spaces in a row.\<close>

fun dbl_space :: "js_string \<Rightarrow> bool" where
  "dbl_space (a # b # r) = ((a = CHR '' '' \<and> b = CHR '' '') \<or> dbl_space (b # r))"
| "dbl_space _ = False"

text \<open>No leading, trailing or double space.\<close>

definition space_normal :: "js_string \<Rightarrow> bool" where
  "space_normal s \<longleftrightarrow> (s = [] \<or> (hd s \<noteq> CHR '' '' \<and> last s \<noteq> CHR '' '')) \<and> \<not> dbl_space s"

text \<open>
  Inputs whose class names are well formed: strings without a double space,
  objects whose keys with a truthy value are non-empty and well formed, arrays of
  such inputs.
\<close>

fun ok_value :: "jsval \<Rightarrow> bool" where
  "ok_value (JString s) = (\<not> dbl_space s)"
| "ok_value (JArray xs) = (\<forall>x \<in> set xs. ok_value x)"
| "ok_value (JObject kvs) = (\<forall>k \<in> set (map fst kvs). truthy (obj_value kvs k) \<longrightarrow> k \<noteq> [] \<and> space_normal k)"
| "ok_value _ = True"

subsection \<open>Lemmas\<close>

lemma space_normal_Nil [simp]: "space_normal []"
  by (simp add: space_normal_def)

lemma dbl_space_mem: "dbl_space s \<Longrightarrow> CHR '' '' \<in> set s"
  by (induction s rule: dbl_space.induct) auto

lemma dbl_space_Cons:
  "dbl_space (a # ys) \<longleftrightarrow> (ys \<noteq> [] \<and> a = CHR '' '' \<and> hd ys = CHR '' '') \<or> dbl_space ys"
  by (cases ys) auto

lemma dbl_space_append:
  "dbl_space (xs @ ys) \<longleftrightarrow>
     dbl_space xs \<or> dbl_space ys \<or> (xs \<noteq> [] \<and> ys \<noteq> [] \<and> last xs = CHR '' '' \<and> hd ys = CHR '' '')"
  by (induction xs) (auto simp: dbl_space_Cons)

lemma dbl_space_rev: "dbl_space (rev xs) \<longleftrightarrow> dbl_space xs"
  by (induction xs) (auto simp: dbl_space_append dbl_space_Cons last_rev hd_rev)

lemma dbl_space_dropWhile: "dbl_space (dropWhile P s) \<Longrightarrow> dbl_space s"
  using dbl_space_append [of "takeWhile P s" "dropWhile P s"] by simp

lemma dbl_space_js_trim: "dbl_space (js_trim s) \<Longrightarrow> dbl_space s"
  unfolding js_trim_def dbl_space_rev by (blast dest: dbl_space_dropWhile dbl_space_rev [THEN iffD1])

lemma space_whitespace: "js_whitespace (CHR '' '')"
  by (simp add: js_whitespace_def)

lemma js_trim_ends:
  assumes "js_trim s \<noteq> []"
  shows "hd (js_trim s) \<noteq> CHR '' '' \<and> last (js_trim s) \<noteq> CHR '' ''"
proof -
  let ?t = "dropWhile js_whitespace s"
  let ?u = "dropWhile js_whitespace (rev ?t)"
  have u: "?u \<noteq> []" using assms by (simp add: js_trim_def)
  have t: "?t \<noteq> []"
  proof
    assume "?t = []"
    with u show False by simp
  qed
  have "last (js_trim s) = hd ?u" using u by (simp add: js_trim_def last_rev)
  then have l: "last (js_trim s) \<noteq> CHR '' ''" using hd_dropWhile [OF u] space_whitespace by auto
  have "last ?u = last (rev ?t)"
    using u by (metis append_is_Nil_conv last_appendR takeWhile_dropWhile_id)
  then have "hd (js_trim s) = hd ?t" using u t by (simp add: js_trim_def hd_rev last_rev)
  then have "hd (js_trim s) \<noteq> CHR '' ''" using hd_dropWhile [OF t] space_whitespace by auto
  with l show ?thesis by blast
qed

lemma space_normal_js_trim: "\<not> dbl_space s \<Longrightarrow> space_normal (js_trim s)"
  using js_trim_ends [of s] dbl_space_js_trim [of s] by (auto simp: space_normal_def)

lemma space_normal_append_name:
  "space_normal a \<Longrightarrow> space_normal b \<Longrightarrow> space_normal (append_name a b)"
  by (auto simp: append_name_def space_normal_def dbl_space_append dbl_space_Cons)

lemma fold_append_name_normal:
  "space_normal acc \<Longrightarrow> (\<forall>x \<in> set xs. space_normal (f x)) \<Longrightarrow>
   space_normal (fold (\<lambda>x names. append_name names (f x)) xs acc)"
  by (induction xs arbitrary: acc) (simp_all add: space_normal_append_name)

lemma fold_append_key_normal:
  "space_normal acc \<Longrightarrow> (\<forall>k \<in> set ks. truthy (obj_value kvs k) \<longrightarrow> k \<noteq> [] \<and> space_normal k) \<Longrightarrow>
   space_normal (fold (\<lambda>key names. append_key kvs names key) ks acc)"
proof (induction ks arbitrary: acc)
  case (Cons k ks)
  have "space_normal (append_key kvs acc k)"
    using Cons.prems space_normal_append_name [of acc k] by (auto simp: append_key_def append_name_def)
  with Cons show ?case by simp
qed simp

lemma set_enum_keys: "set (enum_keys kvs) \<subseteq> set (map fst kvs)"
  by (auto simp: enum_keys_def key_order_def)

lemma toClassValue_normal:
  "\<forall>n. CHR '' '' \<notin> set (ns n) \<Longrightarrow> ok_value v \<Longrightarrow> space_normal (toClassValue ns v)"
proof (induction ns v rule: toClassValue.induct)
  case (1 ns v)
  show ?case
  proof (cases v)
    case (JString s)
    then show ?thesis using "1.prems"(2) space_normal_js_trim [of s] by (simp add: isString_def)
  next
    case (JNumber n)
    have "\<not> dbl_space (ns n)" using "1.prems"(1) dbl_space_mem by blast
    then show ?thesis using JNumber space_normal_js_trim [of "ns n"] by (simp add: isString_def isNumber_def)
  next
    case (JArray xs)
    then show ?thesis using "1.IH" "1.prems"
      by (auto simp: isString_def isNumber_def isArray_def intro!: fold_append_name_normal)
  next
    case (JObject kvs)
    have "\<forall>k \<in> set (map fst kvs). truthy (obj_value kvs k) \<longrightarrow> k \<noteq> [] \<and> space_normal k"
      using "1.prems"(2) JObject by simp
    then have "\<forall>k \<in> set (enum_keys kvs). truthy (obj_value kvs k) \<longrightarrow> k \<noteq> [] \<and> space_normal k"
      using set_enum_keys [of kvs] by blast
    then have "space_normal (fold (\<lambda>key names. append_key kvs names key) (enum_keys kvs) [])"
      by (intro fold_append_key_normal) simp_all
    then show ?thesis using JObject by (simp add: isString_def isNumber_def isArray_def isObject_def)
  qed (simp_all add: isString_def isNumber_def isArray_def isObject_def)
qed

lemma clsx_normal:
  "\<forall>n. CHR '' '' \<notin> set (ns n) \<Longrightarrow> \<forall>a \<in> set inputs. ok_value a \<Longrightarrow> space_normal (clsx ns inputs)"
proof -
  assume ns: "\<forall>n. CHR '' '' \<notin> set (ns n)" and ok: "\<forall>a \<in> set inputs. ok_value a"
  have "space_normal (fold (\<lambda>arg result. if \<not> truthy arg then result else append_name result (toClassValue ns arg)) as acc)"
    if "space_normal acc" "\<forall>a \<in> set as. ok_value a" for as acc
    using that by (induction as arbitrary: acc)
      (simp_all add: space_normal_append_name toClassValue_normal [OF ns] del: toClassValue.simps)
  then show ?thesis using ok by (simp add: clsx_def)
qed

subsection \<open>Properties\<close>

text \<open>
  C34: the result string of \<open>clsx\<close> has no leading, trailing or double space
  when no input string holds a double space and every key with a truthy value
  is non-empty and well formed: every step of the loops keeps that invariant
  of the accumulated string.
\<close>

theorem clsx_space_invariant:
  assumes "\<forall>n. CHR '' '' \<notin> set (ns n)" and "\<forall>a \<in> set inputs. ok_value a"
  shows "space_normal (clsx ns inputs)"
  using clsx_normal assms by blast

definition ns_digit :: "jsnum \<Rightarrow> js_string" where
  "ns_digit n = ''1''"

theorem clsx_space_invariant_witness:
  "clsx ns_digit [JString '' a '', JArray [JString ''b'', JObject [(''c'', JBool True)]]] = ''a b c'' \<and>
   space_normal ''a b c''"
proof -
  have e: "clsx ns_digit [JString '' a '', JArray [JString ''b'', JObject [(''c'', JBool True)]]] = ''a b c''"
    by (simp add: clsx_def append_name_def append_key_def enum_keys_def key_order_def obj_value_def is_index_key_def
        index_value_def js_defs isArray_def isObject_def)
  have "space_normal (clsx ns_digit [JString '' a '', JArray [JString ''b'', JObject [(''c'', JBool True)]]])"
    by (rule clsx_space_invariant) (simp_all add: ns_digit_def dbl_space_Cons obj_value_def space_normal_def)
  with e show ?thesis by simp
qed


end
