(* ===== verification/Promise.thy ===== *)
theory Promise
  imports Assertions
begin

text \<open>
  The promise helpers of \<open>src/src/promise/index.ts\<close>. Time and the event loop
  are abstracted: \<open>sleep\<close> either throws at once or waits a number of
  milliseconds, and a call of the user's function settles with a value or a
  rejection reason. The \<open>i\<close>-th call of the function (counting from 0)
  settles with \<open>f i\<close>, so the function may behave differently on every call.
  \<open>retry\<close> is a loop over the calls; its state is the number of calls made and
  the list of the delays waited; \<open>None\<close> is a promise that never settles.
\<close>

datatype 'v outcome = Resolves 'v | Rejects jsval

text \<open>An exception: one the user's function raised, or one of the built-ins.\<close>

datatype exn = Thrown jsval | Builtin js_error

subsection \<open>\<open>sleep\<close>\<close>

text \<open>\<open>Inl\<close>: the exception thrown; \<open>Inr d\<close>: the promise resolves after \<open>d\<close> ms (at once for 0).\<close>

definition sleep :: "jsval \<Rightarrow> js_error + rat" where
  "sleep delay =
     (if \<not> isNumber delay then Inl TypeError
      else case delay of
        JNumber (Finite q) \<Rightarrow> if q < 0 then Inl RangeError else Inr q
      | _ \<Rightarrow> Inl RangeError)"

subsection \<open>\<open>retry\<close>\<close>

text \<open>\<open>retries > 0\<close> and \<open>retries - 1\<close> on a number.\<close>

fun jsnum_pos :: "jsnum \<Rightarrow> bool" where
  "jsnum_pos (Finite q) = (0 < q)"
| "jsnum_pos PosInf = True"
| "jsnum_pos _ = False"

fun jsnum_dec :: "jsnum \<Rightarrow> jsnum" where
  "jsnum_dec (Finite q) = Finite (q - 1)"
| "jsnum_dec n = n"

partial_function (option) retry_loop ::
  "(nat \<Rightarrow> 'v outcome) \<Rightarrow> jsnum \<Rightarrow> jsval \<Rightarrow> nat \<Rightarrow> rat list \<Rightarrow> ((exn + 'v) \<times> nat \<times> rat list) option"
where
  "retry_loop f retries delay i waits =
     (case f i of
        Resolves v \<Rightarrow> Some (Inr v, Suc i, waits)
      | Rejects e \<Rightarrow>
          if jsnum_pos retries then
            (case sleep delay of
               Inl err \<Rightarrow> Some (Inl (Builtin err), Suc i, waits)
             | Inr d \<Rightarrow> retry_loop f (jsnum_dec retries) delay (Suc i) (waits @ [d]))
          else Some (Inl (Thrown e), Suc i, waits))"

text \<open>\<open>delay: number = 0\<close>: an absent (\<open>undefined\<close>) delay is 0.\<close>

definition retry :: "(nat \<Rightarrow> 'v outcome) \<Rightarrow> jsnum \<Rightarrow> jsval \<Rightarrow> ((exn + 'v) \<times> nat \<times> rat list) option" where
  "retry f retries delay =
     retry_loop f retries (if delay = JUndefined then JNumber (Finite 0) else delay) 0 []"

subsection \<open>\<open>tryCatch\<close>\<close>

text \<open>
  \<open>MaybePromise<T>\<close> of \<open>types.ts\<close>: a plain value or a promise, which
  \<open>await\<close> turns into an outcome (a plain value is not a thenable).
\<close>

datatype 'v maybe_promise = Plain 'v | Promised "'v outcome"

definition await_value :: "'v maybe_promise \<Rightarrow> 'v outcome" where
  "await_value m = (case m of Plain v \<Rightarrow> Resolves v | Promised r \<Rightarrow> r)"

text \<open>
  The input of \<open>tryCatch\<close>: a promise, or a function, whose call returns a
  \<open>MaybePromise\<close> or throws synchronously.
\<close>

datatype 'v call_result = Returned "'v maybe_promise" | Threw jsval

datatype 'v tc_input = PromiseInput "'v outcome" | FunctionInput "'v call_result"

text \<open>
  \<open>typeof input === "function" ? await input() : await input\<close> inside
  \<open>try\<close>: a synchronous throw of \<open>input()\<close> is caught like a rejection.
  The result is the pair \<open>[value, undefined]\<close> or \<open>[null, error]\<close>.
\<close>

definition tc_settle :: "'v tc_input \<Rightarrow> 'v outcome" where
  "tc_settle input =
     (case input of
        PromiseInput p \<Rightarrow> p
      | FunctionInput (Threw e) \<Rightarrow> Rejects e
      | FunctionInput (Returned m) \<Rightarrow> await_value m)"

definition tryCatch :: "jsval tc_input \<Rightarrow> jsval \<times> jsval" where
  "tryCatch input =
     (case tc_settle input of Resolves v \<Rightarrow> (v, JUndefined) | Rejects e \<Rightarrow> (JNull, e))"

subsection \<open>Specification of \<open>retry\<close>\<close>

text \<open>
  The number of retries a count allows: the loop retries while the count,
  decreased by one each time, is positive.
\<close>

definition retries_allowed :: "rat \<Rightarrow> nat" where
  "retries_allowed q = nat \<lceil>q\<rceil>"

fun is_resolve :: "'v outcome \<Rightarrow> bool" where
  "is_resolve (Resolves _) = True"
| "is_resolve (Rejects _) = False"

text \<open>
  The contract: at most \<open>n + 1\<close> calls with the delay between two calls; the
  value of the first call that resolves, or the reason of the last call.
\<close>

definition retry_spec :: "(nat \<Rightarrow> 'v outcome) \<Rightarrow> nat \<Rightarrow> rat \<Rightarrow> (exn + 'v) \<times> nat \<times> rat list" where
  "retry_spec f n d =
     (case find (\<lambda>k. is_resolve (f k)) [0..<Suc n] of
        Some k \<Rightarrow> ((case f k of Resolves v \<Rightarrow> Inr v | Rejects e \<Rightarrow> Inl (Thrown e)), Suc k, replicate k d)
      | None \<Rightarrow> ((case f n of Rejects e \<Rightarrow> Inl (Thrown e) | Resolves v \<Rightarrow> Inr v), Suc n, replicate n d))"

subsection \<open>Lemmas\<close>

lemma retries_allowed_dec: "0 < q \<Longrightarrow> retries_allowed (q - 1) = retries_allowed q - 1"
  by (simp add: retries_allowed_def nat_diff_distrib)

lemma retries_allowed_pos: "retries_allowed q = Suc m \<Longrightarrow> 0 < q"
proof (rule ccontr)
  assume "retries_allowed q = Suc m" "\<not> 0 < q"
  then show False by (simp add: retries_allowed_def)
qed

lemma retries_allowed_zero: "retries_allowed q = 0 \<Longrightarrow> \<not> 0 < q"
  by (simp add: retries_allowed_def)

lemma find_map_Suc: "find P (map Suc xs) = map_option Suc (find (\<lambda>k. P (Suc k)) xs)"
  by (induction xs) simp_all

lemma find_upt_shift:
  "\<not> P 0 \<Longrightarrow> find P [0..<Suc (Suc m)] = map_option Suc (find (\<lambda>k. P (Suc k)) [0..<Suc m])"
proof -
  assume p: "\<not> P 0"
  have eq: "[0..<Suc (Suc m)] = 0 # map Suc [0..<Suc m]"
    by (simp add: map_Suc_upt upt_conv_Cons del: upt_Suc)
  show ?thesis unfolding eq using p by (simp add: find_map_Suc del: upt_Suc)
qed

lemma retry_spec_Suc:
  assumes "f 0 = Rejects e"
  shows "retry_spec f (Suc m) d =
           (case retry_spec (\<lambda>k. f (Suc k)) m d of (r, c, w) \<Rightarrow> (r, Suc c, d # w))"
  using assms find_upt_shift [of "\<lambda>k. is_resolve (f k)" m]
  by (auto simp: retry_spec_def split: option.split outcome.split)

lemma retry_loop_spec:
  assumes sl: "sleep D = Inr d"
  shows "retry_loop f (Finite q) D i waits =
           Some (case retry_spec (\<lambda>k. f (i + k)) (retries_allowed q) d of (r, c, w) \<Rightarrow> (r, i + c, waits @ w))"
proof (induction "retries_allowed q" arbitrary: q i waits)
  case 0
  then have "\<not> 0 < q" by (metis retries_allowed_zero)
  then show ?case using "0"
    by (cases "f i") (simp_all add: retry_loop.simps retry_spec_def)
next
  case (Suc m)
  then have q: "0 < q" by (metis retries_allowed_pos)
  show ?case
  proof (cases "f i")
    case (Resolves v)
    then show ?thesis using Suc.hyps(2) by (simp add: retry_loop.simps retry_spec_def upt_conv_Cons del: upt_Suc)
  next
    case (Rejects e)
    have m: "m = retries_allowed (q - 1)" using Suc.hyps(2) q by (simp add: retries_allowed_dec)
    have "retry_loop f (Finite q) D i waits = retry_loop f (Finite (q - 1)) D (Suc i) (waits @ [d])"
      using Rejects q sl by (simp add: retry_loop.simps)
    also have "\<dots> = Some (case retry_spec (\<lambda>k. f (Suc i + k)) m d of (r, c, w) \<Rightarrow> (r, Suc i + c, (waits @ [d]) @ w))"
      using Suc.hyps(1) [OF m] m by simp
    also have "\<dots> = Some (case retry_spec (\<lambda>k. f (i + k)) (retries_allowed q) d of (r, c, w) \<Rightarrow> (r, i + c, waits @ w))"
      using retry_spec_Suc [of "\<lambda>k. f (i + k)" e m d] Rejects Suc.hyps(2)
      by (simp split: prod.split)
    finally show ?thesis .
  qed
qed

lemma retry_loop_infinite:
  assumes ret: "retry_loop f retries D i waits = Some r"
  shows "retries = PosInf \<longrightarrow> (\<forall>k. \<not> is_resolve (f k)) \<longrightarrow> (\<exists>d. sleep D = Inr d) \<longrightarrow> False"
proof (rule retry_loop.raw_induct [where P = "\<lambda>f retries D i waits r.
    retries = PosInf \<longrightarrow> (\<forall>k. \<not> is_resolve (f k)) \<longrightarrow> (\<exists>d. sleep D = Inr d) \<longrightarrow> False", OF _ ret])
  fix rl f retries D i waits r
  assume IH: "\<And>f retries D i waits r. rl f retries D i waits = Some r \<Longrightarrow>
      retries = PosInf \<longrightarrow> (\<forall>k. \<not> is_resolve (f k)) \<longrightarrow> (\<exists>d. sleep D = Inr d) \<longrightarrow> False"
    and eq: "(case f i of
        Resolves v \<Rightarrow> Some (Inr v, Suc i, waits)
      | Rejects e \<Rightarrow>
          if jsnum_pos retries then
            (case sleep D of
               Inl err \<Rightarrow> Some (Inl (Builtin err), Suc i, waits)
             | Inr d \<Rightarrow> rl f (jsnum_dec retries) D (Suc i) (waits @ [d]))
          else Some (Inl (Thrown e), Suc i, waits)) = Some r"
  show "retries = PosInf \<longrightarrow> (\<forall>k. \<not> is_resolve (f k)) \<longrightarrow> (\<exists>d. sleep D = Inr d) \<longrightarrow> False"
  proof (intro impI)
    assume inf: "retries = PosInf" and rej: "\<forall>k. \<not> is_resolve (f k)" and "\<exists>d. sleep D = Inr d"
    then obtain d where d: "sleep D = Inr d" by blast
    have "\<not> is_resolve (f i)" using rej by blast
    then obtain e where e: "f i = Rejects e" by (cases "f i") auto
    from eq inf d e have "rl f PosInf D (Suc i) (waits @ [d]) = Some r" by simp
    with IH rej d show False by blast
  qed
qed

subsection \<open>Properties\<close>

text \<open>
  C36: with a finite count of retries and a valid delay \<open>d\<close>, \<open>retry\<close>
  settles, and its outcome, its number of calls and the delays it waits are
  those of the contract \<open>retry_spec\<close>: at most \<open>\<lceil>retries\<rceil> + 1\<close> calls, \<open>d\<close>
  between two calls, the value of the first call that resolves or else the
  reason of the last call.
\<close>

theorem retry_refines_spec:
  assumes "0 \<le> d"
  shows "retry f (Finite q) (JNumber (Finite d)) = Some (retry_spec f (retries_allowed q) d)"
proof -
  have "sleep (JNumber (Finite d)) = Inr d" using assms by (simp add: sleep_def isNumber_def)
  from retry_loop_spec [OF this, of f q 0 "[]"] show ?thesis
    by (simp add: retry_def split: prod.split)
qed

theorem retry_refines_spec_witness:
  "retry (\<lambda>i. if i < 2 then Rejects JNull else Resolves (5 :: nat)) (Finite 3) (JNumber (Finite 0)) =
     Some (Inr 5, 3, [0, 0])"
proof -
  have "retry_spec (\<lambda>i. if i < 2 then Rejects JNull else Resolves (5 :: nat)) (retries_allowed 3) 0 =
          (Inr 5, 3, [0, 0])"
    by (simp add: retry_spec_def retries_allowed_def upt_rec)
  with retry_refines_spec [of 0 "\<lambda>i. if i < 2 then Rejects JNull else Resolves (5 :: nat)" 3]
  show ?thesis by simp
qed

text \<open>
  C37: the error paths. When the first call fails and a retry is due, an
  invalid delay makes \<open>retry\<close> reject with the \<open>TypeError\<close> or \<open>RangeError\<close>
  of \<open>sleep\<close>, not with the function's error; with an infinite count and a
  function that always rejects, \<open>retry\<close> never settles; \<open>tryCatch\<close> returns
  the same pair for a rejection with \<open>undefined\<close> as for a function returning
  \<open>null\<close>, and catches a synchronous throw of the function.
\<close>

theorem promise_error_paths:
  assumes "sleep delay = Inl err" "delay \<noteq> JUndefined" "f 0 = Rejects e" "0 < q"
  shows "retry f (Finite q) delay = Some (Inl (Builtin err), 1, []) \<and>
         retry (\<lambda>k. Rejects e :: 'v outcome) PosInf (JNumber (Finite 0)) = None \<and>
         tryCatch (PromiseInput (Rejects JUndefined)) = tryCatch (FunctionInput (Returned (Plain JNull))) \<and>
         tryCatch (FunctionInput (Threw e)) = (JNull, e)"
proof -
  have "retry f (Finite q) delay = Some (Inl (Builtin err), 1, [])"
    using assms by (simp add: retry_def retry_loop.simps)
  moreover have "retry (\<lambda>k. Rejects e :: 'v outcome) PosInf (JNumber (Finite 0)) = None"
  proof (rule ccontr)
    assume "retry (\<lambda>k. Rejects e :: 'v outcome) PosInf (JNumber (Finite 0)) \<noteq> None"
    then obtain r where "retry_loop (\<lambda>k. Rejects e :: 'v outcome) PosInf (JNumber (Finite 0)) 0 [] = Some r"
      by (auto simp: retry_def)
    from retry_loop_infinite [OF this] show False by (simp add: sleep_def isNumber_def)
  qed
  moreover have "tryCatch (PromiseInput (Rejects JUndefined)) = tryCatch (FunctionInput (Returned (Plain JNull)))"
    and "tryCatch (FunctionInput (Threw e)) = (JNull, e)"
    by (simp_all add: tryCatch_def tc_settle_def await_value_def)
  ultimately show ?thesis by blast
qed

theorem promise_error_paths_witness:
  "retry (\<lambda>k. Rejects (JBool False) :: nat outcome) (Finite 2) (JNumber (Finite (-1))) =
     Some (Inl (Builtin RangeError), 1, [])"
proof -
  have h: "sleep (JNumber (Finite (-1))) = Inl RangeError" by (simp add: sleep_def isNumber_def)
  show ?thesis
    by (rule conjunct1 [OF promise_error_paths [OF h, of "\<lambda>k. Rejects (JBool False) :: nat outcome" "JBool False" 2]])
      simp_all
qed

end
