(* ===== verification/Spec2Isabelle.thy ===== *)
theory Spec2Isabelle
  imports Nanoid Casing Arrays Strings Objects Clsx Promise Numbers
begin

text \<open>
  A verification development for the utility library \<open>src/src\<close>: small,
  independent helpers for identifiers, strings, arrays, numbers, objects,
  class names and promises. The components share no state; they interact
  through calls of the predicates of \<open>assertions/index.ts\<close> (\<open>isObject\<close>,
  \<open>isArray\<close>, \<open>isNumber\<close>, \<open>isEmpty\<close>) and of \<open>toArray\<close>, and the model
  makes those calls the same way: \<open>Casing\<close>, \<open>Arrays\<close>, \<open>Objects\<close>, \<open>Clsx\<close>,
  \<open>Promise\<close> and \<open>Numbers\<close> import \<open>Assertions\<close> and use its definitions.

  \<^bold>\<open>Layout.\<close>
  \<^item> \<open>Prelude\<close>: the model's types (\<open>byte\<close>, \<open>js_string\<close>), the built-in
    exceptions \<open>js_error\<close>, and the JavaScript built-ins several components
    call (\<open>Array.prototype.join\<close>, \<open>String.prototype.trim\<close> and \<open>split\<close>,
    \<open>String(n)\<close>), the collection \<open>js_defs\<close> and shared list lemmas.
  \<^item> \<open>Nanoid\<close>: \<open>nanoid/index.ts\<close>. The entropy source \<open>randomBytes\<close> is an
    explicit state (\<open>entropy\<close>: the byte stream and the count drawn); the
    inner \<open>for\<close> loop is \<open>fill\<close>, the outer \<open>while\<close> loop the
    \<^theory_text>\<open>partial_function (option)\<close> \<open>nanoid_loop\<close> (\<open>None\<close>: does not
    return), the alphabet check an error value. The mask is computed with the
    32-bit shift of JavaScript (\<open>push_bit\<close> on \<open>32 word\<close>, read back by
    \<open>sint\<close>), the byte masking with \<open>AND\<close>. The abstract specification
    \<open>accepted\<close> maps every source byte to at most one character.
  \<^item> \<open>Unicode\<close> and \<open>Regex\<close>: the runtime the tokenizer relies on: general
    categories, \<open>\p{Emoji}\<close>, case mapping for the model's characters, and a
    backtracking matcher with continuations (\<open>mt\<close>), \<open>RegExpBuiltinExec\<close>
    (\<open>search\<close>) and the global \<open>String.prototype.match\<close> loop (\<open>match_all\<close>).
  \<^item> \<open>Casing\<close>: \<open>string/casing.ts\<close>: \<open>reWords\<close> as a term of the matcher,
    alternative by alternative, \<open>words\<close>, \<open>join\<close>, \<open>toUcFirst\<close> and the six
    converters (the \<open>reduce\<close> of \<open>toCamelCase\<close> as \<open>camel_reduce\<close>).
  \<^item> \<open>Assertions\<close>: \<open>assertions/index.ts\<close> over the datatype \<open>jsval\<close> of
    JavaScript values; \<open>isBrowser\<close> over a record \<open>host\<close> holding the
    global binding \<open>window\<close> (absent in Node).
  \<^item> \<open>Arrays\<close>: \<open>array/index.ts\<close>: \<open>toArray\<close>, \<open>unique\<close> (set and matcher
    branches), \<open>at\<close>/\<open>first\<close>/\<open>last\<close>, \<open>range\<close> (its \<open>while\<close> loop as
    \<^theory_text>\<open>partial_function (option)\<close>), \<open>toFiltered\<close> (the backward
    \<open>splice\<close> loop, the predicate seeing the mutated array), \<open>move\<close> and
    \<open>chunk\<close> (the \<open>reduce\<close> with \<open>Math.floor(index / size)\<close> as an array key,
    for any number as size, on a sparse array whose holes are \<open>None\<close>).
    In-place mutation is a function returning the new array.
  \<^item> \<open>Strings\<close>: \<open>string/index.ts\<close>: \<open>slash\<close> and \<open>truncate\<close> (its length any
    number, with \<open>Math.max\<close> of \<open>Numbers\<close> and the \<open>slice\<close> end converted by
    \<open>splice_start\<close> of \<open>Arrays\<close>).
  \<^item> \<open>Objects\<close>: \<open>object.ts\<close>: plain objects as association lists with
    distinct keys, the inherited methods of \<open>Object.prototype\<close> that the
    operator \<open>in\<close> sees, the key order of \<open>OrdinaryOwnPropertyKeys\<close>,
    \<open>keyInObject\<close>, \<open>pick\<close> and \<open>omit\<close> as folds over the keys, which are
    \<open>toArray\<close> of \<open>Arrays\<close> applied to the value passed (a key, a list of keys,
    or a nullish value from an untyped caller).
  \<^item> \<open>Clsx\<close>: \<open>clsx/index.ts\<close>: \<open>toClassValue\<close> (recursive over nested arrays,
    \<open>for ... in\<close> over objects) and \<open>clsx\<close>.
  \<^item> \<open>Promise\<close>: \<open>promise/index.ts\<close>: \<open>sleep\<close> (throws or waits), \<open>retry\<close>
    as a loop over the calls of the user's function, whose \<open>i\<close>-th call
    settles with \<open>f i\<close> (a \<^theory_text>\<open>partial_function (option)\<close>: an
    infinite count may never settle), \<open>tryCatch\<close> on a promise or a function
    (returning a \<open>MaybePromise\<close> of \<open>types.ts\<close>, or throwing); the contract
    \<open>retry_spec\<close>.
  \<^item> \<open>Numbers\<close>: \<open>number/index.ts\<close> and the option types of \<open>types.ts\<close>:
    \<open>inRange\<close>, \<open>clamp\<close> (\<open>Math.min\<close>/\<open>Math.max\<close> with \<open>NaN\<close>),
    \<open>toFixed\<close> after ECMA-262, and \<open>abbreviate\<close> (argument parsing, the
    threshold table, the stable sort, the loop).

  \<^bold>\<open>What the lemmas show.\<close>
  Claims C1--C7 (\<open>Nanoid\<close>): refinement of \<open>accepted\<close> with termination when
  the source delivers enough acceptable bytes, length and alphabet of the
  identifier, the error path, the bounds of the mask, the batch size as a
  ceiling, divergence on a rejecting source, length 0. C8--C14 (\<open>Casing\<close>):
  tokens are non-empty and hold no separator, they are a subsequence of the
  input, separator-only input gives empty outputs, \<open>toCamelCase\<close> against its
  specification, split/join round trip of snake and kebab case, the
  specification's examples and the tokens of edge inputs the specification does
  not describe. C15--C16 (\<open>Assertions\<close>): \<open>isInteger\<close>/\<open>isFloat\<close> partition
  \<open>isNumber\<close>; the exact set of values \<open>isEmpty\<close> accepts. C17--C28
  (\<open>Arrays\<close>): \<open>unique\<close> against \<open>remdups\<close> and the matcher branch against
  the set branch, \<open>at\<close>, termination and result of \<open>range\<close> for a positive
  step, the exact inputs on which it diverges (a step that is not positive,
  an infinite bound) and the one-element result of a \<open>NaN\<close> step, \<open>toFiltered\<close> against \<open>filter\<close>,
  \<open>move\<close> as a permutation inside the array and the element lost or added
  outside it, \<open>chunk\<close> as a partition for an integer size, its flattening
  for any positive size (holes below 1), and the sizes \<open>NaN\<close>, \<open>0\<close>,
  negative and infinite. C29--C31 (\<open>Strings\<close>: \<open>slash\<close>, the cut of
  \<open>truncate\<close> for a finite length, the degenerate lengths), C32--C33
  (\<open>Objects\<close>: the distinct-keys invariant of
  the objects built, the lookups of \<open>pick\<close> and \<open>omit\<close>), C34--C35 (\<open>Clsx\<close>:
  the space invariant of the accumulated string), C36--C37 (\<open>Promise\<close>: the
  refinement of \<open>retry_spec\<close> with termination, the error paths), C38--C40
  (\<open>Numbers\<close>: the examples and error paths of \<open>abbreviate\<close>; promotion to
  the larger threshold, never \<open>1000K\<close>; \<open>clamp\<close> against its bounds, with
  \<open>NaN\<close> and inverted bounds).

  \<^bold>\<open>Modelling choices.\<close>
  \<^item> A character is a code point \<open>U+0000\<close>--\<open>U+00FF\<close> (Isabelle's \<open>char\<close>); the
    category and case tables are those of that block.
  \<^item> A number is a rational, an infinity or \<open>NaN\<close> (\<open>jsnum\<close>); \<open>-0\<close> is \<open>0\<close>.
    The IEEE rounding of the code is not modelled: \<open>range\<close> adds a finite step
    exactly, \<open>toFixed\<close> rounds the exact value, the factor \<open>1.6\<close> of
    \<open>nanoid\<close> is \<open>8/5\<close>. \<open>Number::toString\<close> is a parameter \<open>ns\<close> of
    \<open>clsx\<close> and \<open>abbreviate\<close>; the properties assume only that it holds no
    space, and \<open>int_string\<close> (integers) instantiates it in the examples.
  \<^item> The numbers the array and string helpers take (\<open>at\<close>'s index,
    \<open>range\<close>'s bounds and step, \<open>move\<close>'s positions, \<open>chunk\<close>'s size,
    \<open>truncate\<close>'s length) are any \<open>jsnum\<close>, \<open>NaN\<close> and the infinities
    included; \<open>nanoid\<close>'s length is a natural number. Of the array \<open>chunk\<close>
    builds only the elements are modelled: the properties it receives under
    keys that are not indices (\<open>"NaN"\<close>, \<open>"-1"\<close>) are dropped.
  \<^item> Time is abstracted: \<open>sleep\<close> waits a number of milliseconds; the calls of
    the function given to \<open>retry\<close> settle as a given sequence prescribes.
  \<^item> The retry count of \<open>retry\<close> is a \<open>jsnum\<close>, so an infinite count is
    modelled; the fuel-free \<^theory_text>\<open>partial_function (option)\<close> loops are
    proved to return (\<open>nanoid\<close>, \<open>range\<close>, \<open>retry\<close>) or not to return on the
    inputs where the code loops forever.

  \<^bold>\<open>Not modelled.\<close>
  \<open>keyInObject\<close> on a regular
  expression or host object sees only the inherited keys; the \<open>__proto__\<close>
  accessor of objects; thresholds of a symbol object that are not finite;
  powers \<open>10 ** (i * 3)\<close> beyond \<open>10^21\<close> (inexact in doubles). The rest of
  \<open>types.ts\<close> declares compile-time types only; \<open>tsdown.config.ts\<close> is
  build configuration; the test files are not part of the program.
\<close>

end
